(* ===== verification/PyBase.thy ===== *)
theory PyBase
  imports Complex_Main "HOL-Library.AList"
begin

section \<open>Python values, strings, dictionaries and exceptions\<close>

text \<open>
  The prelude of the development. It holds the part of Python that the
  integration's code relies on, each piece executable:
  \<^item> \<open>exn\<close>: the exceptions of the program (the classes of
    \<^verbatim>\<open>unifi_auth.py\<close> and \<^verbatim>\<open>unifi_client.py\<close>) together with the built-in and
    Home Assistant exceptions the code raises or lets through; a fallible
    operation returns \<open>exn + 'a\<close>, sequenced by \<open>bindE\<close>;
  \<^item> \<open>pyval\<close>: the values a JSON body can hold, with truthiness,
    \<^verbatim>\<open>str()\<close>, \<^verbatim>\<open>int()\<close>, \<^verbatim>\<open>.get()\<close> and iteration;
  \<^item> strings (\<open>char list\<close>, a character being a code point below 256) with
    \<^verbatim>\<open>strip\<close>, \<^verbatim>\<open>lower\<close>, \<^verbatim>\<open>startswith\<close>, \<^verbatim>\<open>partition\<close> and \<^verbatim>\<open>rstrip\<close>;
  \<^item> dictionaries as association lists in insertion order, behind the locale
    \<open>ordered_dict\<close>;
  \<^item> the generic locales \<open>codec\<close> (an encoder with its decoder) and
    \<open>event_machine\<close> (a step function with an invariant).
\<close>

named_theorems py_simps \<open>evaluation rules of the Python primitives\<close>
named_theorems out_simps \<open>rules for sequencing fallible operations\<close>

subsection \<open>Exceptions and fallible results\<close>

datatype exn =
    TypeError | ValueError | AttributeError | KeyError | OverflowError
  | TimeoutError | JSONDecodeError | UnicodeDecodeError | StoreError
  | IndexError | FileNotFoundError | CalledProcessError
  | CannotConnectError string
  | SslCertificateError string
  | InvalidSiteError string
  | AlarmEndpointUnavailableError string
  | InvalidAuthError string string
  | UpdateFailed string
  | ConfigEntryAuthFailed string
  | ConfigEntryNotReady string
  | ServiceValidationError string
  | SystemExit string

text \<open>
  \<open>isinstance(err, CannotConnectError)\<close>: the class itself and its subclasses
  \<^verbatim>\<open>SslCertificateError\<close>, \<^verbatim>\<open>InvalidSiteError\<close> and
  \<^verbatim>\<open>AlarmEndpointUnavailableError\<close>.
\<close>

fun is_cannot_connect :: "exn \<Rightarrow> bool" where
  "is_cannot_connect (CannotConnectError m) = True"
| "is_cannot_connect (SslCertificateError m) = True"
| "is_cannot_connect (InvalidSiteError m) = True"
| "is_cannot_connect (AlarmEndpointUnavailableError m) = True"
| "is_cannot_connect _ = False"

fun is_invalid_auth :: "exn \<Rightarrow> bool" where
  "is_invalid_auth (InvalidAuthError m u) = True"
| "is_invalid_auth _ = False"

text \<open>\<open>str(err)\<close> of the exceptions the code formats.\<close>

fun exn_text :: "exn \<Rightarrow> string" where
  "exn_text (CannotConnectError m) = m"
| "exn_text (SslCertificateError m) = m"
| "exn_text (InvalidSiteError m) = m"
| "exn_text (AlarmEndpointUnavailableError m) = m"
| "exn_text (InvalidAuthError m u) = m"
| "exn_text (UpdateFailed m) = m"
| "exn_text (ConfigEntryAuthFailed m) = m"
| "exn_text (ConfigEntryNotReady m) = m"
| "exn_text (ServiceValidationError m) = m"
| "exn_text _ = []"

lemma not_auth_and_connect: "\<not> (is_invalid_auth e \<and> is_cannot_connect e)"
  by (cases e) auto

definition bindE :: "'e + 'a \<Rightarrow> ('a \<Rightarrow> 'e + 'b) \<Rightarrow> 'e + 'b" where
  "bindE m f = (case m of Inl e \<Rightarrow> Inl e | Inr x \<Rightarrow> f x)"

lemma bindE_Inl [simp]: "bindE (Inl e) f = Inl e"
  and bindE_Inr [simp]: "bindE (Inr x) f = f x"
  by (simp_all add: bindE_def)

lemma bindE_eq_Inr [out_simps]: "bindE m f = Inr y \<longleftrightarrow> (\<exists>x. m = Inr x \<and> f x = Inr y)"
  by (cases m) auto

lemma bindE_eq_Inl [out_simps]:
  "bindE m f = Inl e \<longleftrightarrow> m = Inl e \<or> (\<exists>x. m = Inr x \<and> f x = Inl e)"
  by (cases m) auto

text \<open>A comprehension whose element expression may raise: the first exception escapes.\<close>

fun mapE :: "('a \<Rightarrow> 'e + 'b) \<Rightarrow> 'a list \<Rightarrow> 'e + 'b list" where
  "mapE f [] = Inr []"
| "mapE f (x # xs) = bindE (f x) (\<lambda>y. bindE (mapE f xs) (\<lambda>ys. Inr (y # ys)))"

fun filterE :: "('a \<Rightarrow> 'e + bool) \<Rightarrow> 'a list \<Rightarrow> 'e + 'a list" where
  "filterE p [] = Inr []"
| "filterE p (x # xs) =
     bindE (p x) (\<lambda>b. bindE (filterE p xs) (\<lambda>ys. Inr (if b then x # ys else ys)))"

lemma mapE_total: "(\<And>x. x \<in> set xs \<Longrightarrow> f x = Inr (g x)) \<Longrightarrow> mapE f xs = Inr (map g xs)"
  by (induction xs) auto

lemma filterE_total:
  "(\<And>x. x \<in> set xs \<Longrightarrow> p x = Inr (q x)) \<Longrightarrow> filterE p xs = Inr (filter q xs)"
  by (induction xs) auto

lemma filterE_raises: "x \<in> set xs \<Longrightarrow> p x = Inl e \<Longrightarrow> \<exists>e'. filterE p xs = Inl e'"
proof (induction xs)
  case (Cons y ys)
  then show ?case by (cases "p y"; cases "filterE p ys") auto
qed simp

lemma filterE_raises_only:
  "filterE p xs = Inl e \<Longrightarrow> \<exists>x \<in> set xs. p x = Inl e"
  by (induction xs) (auto simp: out_simps)

lemma filterE_subset: "filterE p xs = Inr ys \<Longrightarrow> set ys \<subseteq> set xs"
  by (induction xs arbitrary: ys) (auto simp: out_simps split: if_splits)

lemma filterE_length: "filterE p xs = Inr ys \<Longrightarrow> length ys \<le> length xs"
proof (induction xs arbitrary: ys)
  case (Cons x xs)
  then obtain b zs where "filterE p xs = Inr zs" "ys = (if b then x # zs else zs)"
    by (auto simp: out_simps)
  with Cons.IH [of zs] show ?case by auto
qed simp

subsection \<open>Characters and strings\<close>

definition digit_char :: "nat \<Rightarrow> char" where
  "digit_char n = char_of (48 + n)"

definition is_digit :: "char \<Rightarrow> bool" where
  "is_digit c \<longleftrightarrow> 48 \<le> (of_char c :: nat) \<and> (of_char c :: nat) \<le> 57"

definition digit_val :: "char \<Rightarrow> nat" where
  "digit_val c = of_char c - 48"

text \<open>The decimal representation of a number, and the value of a digit string.\<close>

fun nat_str :: "nat \<Rightarrow> string" where
  "nat_str n = (if n < 10 then [digit_char n] else nat_str (n div 10) @ [digit_char (n mod 10)])"

declare nat_str.simps [simp del]

definition int_str :: "int \<Rightarrow> string" where
  "int_str i = (if i < 0 then CHR ''-'' # nat_str (nat (- i)) else nat_str (nat i))"

definition digits_val :: "string \<Rightarrow> nat" where
  "digits_val s = foldl (\<lambda>a c. 10 * a + digit_val c) 0 s"

lemma of_char_digit_char [simp]: "n < 10 \<Longrightarrow> of_char (digit_char n) = 48 + n"
  by (simp add: digit_char_def)

lemma digit_char_props [simp]:
  "n < 10 \<Longrightarrow> is_digit (digit_char n)" "n < 10 \<Longrightarrow> digit_val (digit_char n) = n"
  by (simp_all add: is_digit_def digit_val_def)

lemma digits_val_snoc [simp]: "digits_val (s @ [c]) = 10 * digits_val s + digit_val c"
  by (simp add: digits_val_def)

lemma digits_val_Nil [simp]: "digits_val [] = 0"
  by (simp add: digits_val_def)

lemma nat_str_nonempty [simp]: "nat_str n \<noteq> []"
  by (subst nat_str.simps) simp

lemma nat_str_digits: "list_all is_digit (nat_str n)"
proof (induction n rule: nat_str.induct)
  case (1 n)
  then show ?case by (cases "n < 10") (simp_all add: nat_str.simps [of n])
qed

lemma digits_val_nat_str [simp]: "digits_val (nat_str n) = n"
proof (induction n rule: nat_str.induct)
  case (1 n)
  show ?case
  proof (cases "n < 10")
    case True
    then show ?thesis using digits_val_snoc [of "[]"] by (simp add: nat_str.simps [of n])
  next
    case False
    with 1 show ?thesis by (simp add: nat_str.simps [of n])
  qed
qed

lemma nat_str_inject [simp]: "nat_str m = nat_str n \<longleftrightarrow> m = n"
  by (metis digits_val_nat_str)

text \<open>\<open>str.isspace()\<close>, \<open>str.strip()\<close>, \<open>str.rstrip(c)\<close> and \<open>str.lower()\<close> on code points below 256.\<close>

definition is_space :: "char \<Rightarrow> bool" where
  "is_space c \<longleftrightarrow> (let n = (of_char c :: nat) in
     (9 \<le> n \<and> n \<le> 13) \<or> (28 \<le> n \<and> n \<le> 32) \<or> n = 133 \<or> n = 160)"

definition strip :: "string \<Rightarrow> string" where
  "strip s = rev (dropWhile is_space (rev (dropWhile is_space s)))"

definition rstrip_char :: "char \<Rightarrow> string \<Rightarrow> string" where
  "rstrip_char c s = rev (dropWhile (\<lambda>d. d = c) (rev s))"

definition lower_char :: "char \<Rightarrow> char" where
  "lower_char c = (let n = (of_char c :: nat) in
     if (65 \<le> n \<and> n \<le> 90) \<or> (192 \<le> n \<and> n \<le> 222 \<and> n \<noteq> 215) then char_of (n + 32) else c)"

definition lower :: "string \<Rightarrow> string" where
  "lower s = map lower_char s"

definition startswith :: "string \<Rightarrow> string \<Rightarrow> bool" where
  "startswith s p \<longleftrightarrow> take (length p) s = p"

lemma startswith_append [simp]: "startswith (p @ s) p"
  by (simp add: startswith_def)

lemma startswith_iff: "startswith s p \<longleftrightarrow> (\<exists>t. s = p @ t)"
  by (metis append_take_drop_id startswith_append startswith_def)

text \<open>\<open>s.partition(c)\<close> for a one-character separator.\<close>

definition partition_char :: "char \<Rightarrow> string \<Rightarrow> string \<times> string \<times> string" where
  "partition_char c s =
     (let before = takeWhile (\<lambda>d. d \<noteq> c) s; rest = dropWhile (\<lambda>d. d \<noteq> c) s
      in case rest of [] \<Rightarrow> (s, [], []) | _ # after \<Rightarrow> (before, [c], after))"

fun join_str :: "string \<Rightarrow> string list \<Rightarrow> string" where
  "join_str sep [] = []"
| "join_str sep [s] = s"
| "join_str sep (s # t # ts) = s @ sep @ join_str sep (t # ts)"

lemma lower_char_idem [simp]: "lower_char (lower_char c) = lower_char c"
  using nat_of_char_less_256 [of c] by (auto simp: lower_char_def Let_def)

lemma lower_idem [simp]: "lower (lower s) = lower s"
  by (simp add: lower_def)

lemma dropWhile_append_stop: "\<not> P x \<Longrightarrow> dropWhile P (xs @ [x]) = dropWhile P xs @ [x]"
  by (induction xs) auto

lemma strip_idem [simp]: "strip (strip s) = strip s"
proof (cases "dropWhile is_space s")
  case Nil
  have "strip s = []" by (simp only: strip_def Nil) simp
  moreover have "strip [] = []" by (simp add: strip_def)
  ultimately show ?thesis by simp
next
  case (Cons x xs)
  then have x: "\<not> is_space x"
    using hd_dropWhile [of is_space s] by simp
  then have s: "strip s = x # rev (dropWhile is_space (rev xs))"
    by (simp only: strip_def Cons rev.simps) (simp add: dropWhile_append_stop)
  show ?thesis
    unfolding s using x by (simp add: strip_def dropWhile_append_stop)
qed

subsection \<open>JSON values\<close>

text \<open>
  A float carries its \<^verbatim>\<open>repr\<close> and its exact value, which is what
  \<^verbatim>\<open>str()\<close>, \<^verbatim>\<open>int()\<close>, truth and comparison observe of it.
\<close>

datatype pyfloat = Finite string rat | PosInf | NegInf | NaN

datatype pyval =
    PNone
  | PBool bool
  | PInt int
  | PFloat pyfloat
  | PStr string
  | PList "pyval list"
  | PDict "(string \<times> pyval) list"

type_synonym dict = "(string \<times> pyval) list"

text \<open>\<open>bool(v)\<close>, and the value of \<open>a or b\<close>.\<close>

fun truthy :: "pyval \<Rightarrow> bool" where
  "truthy PNone = False"
| "truthy (PBool b) = b"
| "truthy (PInt i) = (i \<noteq> 0)"
| "truthy (PFloat (Finite r q)) = (q \<noteq> 0)"
| "truthy (PFloat _) = True"
| "truthy (PStr s) = (s \<noteq> [])"
| "truthy (PList xs) = (xs \<noteq> [])"
| "truthy (PDict d) = (d \<noteq> [])"

definition py_or :: "pyval \<Rightarrow> pyval \<Rightarrow> pyval" where
  "py_or a b = (if truthy a then a else b)"

text \<open>\<open>repr(s)\<close> of a string: the quote Python picks, and its escapes.\<close>

definition hex_char :: "nat \<Rightarrow> char" where
  "hex_char n = (if n < 10 then digit_char n else char_of (87 + n))"

definition repr_char :: "char \<Rightarrow> char \<Rightarrow> string" where
  "repr_char q c = (let n = (of_char c :: nat); bs = char_of (92::nat) in
     if c = q \<or> c = bs then [bs, c]
     else if n = 9 then [bs, CHR ''t'']
     else if n = 10 then [bs, CHR ''n'']
     else if n = 13 then [bs, CHR ''r'']
     else if n < 32 \<or> (127 \<le> n \<and> n \<le> 160) \<or> n = 173
       then [bs, CHR ''x'', hex_char (n div 16), hex_char (n mod 16)]
     else [c])"

definition repr_str :: "string \<Rightarrow> string" where
  "repr_str s = (let sq = char_of (39::nat); dq = char_of (34::nat);
       q = (if sq \<in> set s \<and> dq \<notin> set s then dq else sq)
     in [q] @ concat (map (repr_char q) s) @ [q])"

fun repr_float :: "pyfloat \<Rightarrow> string" where
  "repr_float (Finite r q) = r"
| "repr_float PosInf = ''inf''"
| "repr_float NegInf = ''-inf''"
| "repr_float NaN = ''nan''"

primrec py_repr :: "pyval \<Rightarrow> string" where
  "py_repr PNone = ''None''"
| "py_repr (PBool b) = (if b then ''True'' else ''False'')"
| "py_repr (PInt i) = int_str i"
| "py_repr (PFloat f) = repr_float f"
| "py_repr (PStr s) = repr_str s"
| "py_repr (PList xs) = ''['' @ join_str '', '' (map py_repr xs) @ '']''"
| "py_repr (PDict d) =
     ''{'' @ join_str '', '' (map (\<lambda>kv. repr_str (fst kv) @ '': '' @ snd kv)
                                 (map (map_prod id py_repr) d)) @ ''}''"

definition py_str :: "pyval \<Rightarrow> string" where
  "py_str v = (case v of PStr s \<Rightarrow> s | _ \<Rightarrow> py_repr v)"

lemma py_str_PStr [simp]: "py_str (PStr s) = s"
  by (simp add: py_str_def)

text \<open>
  \<open>int(v)\<close>. A string may have outer whitespace, a sign and single underscores
  between digits; more than 4300 digits are refused, as the interpreter does.
\<close>

fun int_digits :: "bool \<Rightarrow> string \<Rightarrow> string option" where
  "int_digits prev [] = (if prev then Some [] else None)"
| "int_digits prev (c # cs) =
     (if is_digit c then map_option (Cons c) (int_digits True cs)
      else if c = CHR ''_'' \<and> prev then int_digits False cs
      else None)"

definition int_body :: "string \<Rightarrow> exn + int" where
  "int_body s = (case int_digits False s of
       None \<Rightarrow> Inl ValueError
     | Some ds \<Rightarrow> if length ds > 4300 then Inl ValueError else Inr (int (digits_val ds)))"

definition int_of_str :: "string \<Rightarrow> exn + int" where
  "int_of_str s = (case strip s of
       [] \<Rightarrow> Inl ValueError
     | c # cs \<Rightarrow> if c = CHR ''-'' then bindE (int_body cs) (\<lambda>n. Inr (- n))
               else if c = CHR ''+'' then int_body cs
               else int_body (c # cs))"

definition trunc_rat :: "rat \<Rightarrow> int" where
  "trunc_rat q = (if 0 \<le> q then \<lfloor>q\<rfloor> else \<lceil>q\<rceil>)"

fun py_int :: "pyval \<Rightarrow> exn + int" where
  "py_int (PBool b) = Inr (if b then 1 else 0)"
| "py_int (PInt i) = Inr i"
| "py_int (PFloat (Finite r q)) = Inr (trunc_rat q)"
| "py_int (PFloat NaN) = Inl ValueError"
| "py_int (PFloat _) = Inl OverflowError"
| "py_int (PStr s) = int_of_str s"
| "py_int _ = Inl TypeError"

text \<open>The exceptions \<open>int(v)\<close> can raise.\<close>

lemma int_of_str_err: "int_of_str s = Inl e \<Longrightarrow> e = ValueError"
  by (auto simp: int_of_str_def int_body_def out_simps split: list.splits if_splits option.splits)

lemma py_int_err: "py_int v = Inl e \<Longrightarrow> e = ValueError \<or> e = TypeError \<or> e = OverflowError"
  by (induction v rule: py_int.induct) (auto dest: int_of_str_err)

text \<open>
  \<open>v.get(k, d)\<close> where \<open>v\<close> is any value: only a dictionary has the method.
  Iterating a value: lists, dictionaries (their keys) and strings (their characters).
\<close>

definition dget :: "dict \<Rightarrow> string \<Rightarrow> pyval \<Rightarrow> pyval" where
  "dget d k v = (case map_of d k of None \<Rightarrow> v | Some w \<Rightarrow> w)"

fun py_get :: "pyval \<Rightarrow> string \<Rightarrow> pyval \<Rightarrow> exn + pyval" where
  "py_get (PDict d) k v = Inr (dget d k v)"
| "py_get _ k v = Inl AttributeError"

fun py_iter :: "pyval \<Rightarrow> exn + pyval list" where
  "py_iter (PList xs) = Inr xs"
| "py_iter (PDict d) = Inr (map (PStr \<circ> fst) d)"
| "py_iter (PStr s) = Inr (map (\<lambda>c. PStr [c]) s)"
| "py_iter _ = Inl TypeError"

lemma dget_Nil [simp]: "dget [] k v = v"
  by (simp add: dget_def)

lemma dget_Cons [simp]: "dget ((k', w) # d) k v = (if k' = k then w else dget d k v)"
  by (simp add: dget_def)

lemma py_get_eq_Inr [out_simps]: "py_get w k v = Inr x \<longleftrightarrow> (\<exists>d. w = PDict d \<and> x = dget d k v)"
  by (cases w) auto

lemma py_get_err: "py_get w k v = Inl e \<Longrightarrow> e = AttributeError"
  by (cases w) auto

lemma py_iter_err: "py_iter v = Inl e \<Longrightarrow> e = TypeError"
  by (cases v) auto

text \<open>\<open>n >= v\<close> for an integer \<open>n\<close>.\<close>

fun py_int_ge :: "int \<Rightarrow> pyval \<Rightarrow> exn + bool" where
  "py_int_ge n (PInt i) = Inr (n \<ge> i)"
| "py_int_ge n (PBool b) = Inr (n \<ge> (if b then 1 else 0))"
| "py_int_ge n (PFloat (Finite r q)) = Inr (of_int n \<ge> q)"
| "py_int_ge n (PFloat NegInf) = Inr True"
| "py_int_ge n (PFloat _) = Inr False"
| "py_int_ge n _ = Inl TypeError"

subsection \<open>Dictionaries in insertion order\<close>

text \<open>
  The interface of a Python dictionary: lookup, assignment \<open>d[k] = v\<close> (which keeps
  the position of a key that is present and appends a new one) and the key order.
\<close>

locale ordered_dict =
  fixes lookup :: "'d \<Rightarrow> 'k \<Rightarrow> 'v option"
    and put :: "'k \<Rightarrow> 'v \<Rightarrow> 'd \<Rightarrow> 'd"
    and keys :: "'d \<Rightarrow> 'k list"
  assumes lookup_put: "lookup (put k v d) = (lookup d)(k \<mapsto> v)"
    and keys_put: "keys (put k v d) = (if k \<in> set (keys d) then keys d else keys d @ [k])"
    and keys_lookup: "set (keys d) = dom (lookup d)"
begin

lemma put_same: "lookup (put k v d) k = Some v"
  by (simp add: lookup_put)

lemma put_other: "j \<noteq> k \<Longrightarrow> lookup (put k v d) j = lookup d j"
  by (simp add: lookup_put)

lemma keys_put_present: "lookup d k = Some w \<Longrightarrow> keys (put k v d) = keys d"
  using keys_lookup [of d] by (auto simp: keys_put)

lemma distinct_put: "distinct (keys d) \<Longrightarrow> distinct (keys (put k v d))"
  by (simp add: keys_put)

lemma put_member: "set (keys (put k v d)) = insert k (set (keys d))"
  by (auto simp: keys_put)

end

interpretation dict: ordered_dict map_of AList.update "map fst"
  by unfold_locales (auto simp: update_conv' update_keys dom_map_of_conv_image_fst)

lemma map_of_in_set: "distinct (map fst d) \<Longrightarrow> (k, v) \<in> set d \<Longrightarrow> map_of d k = Some v"
  by simp

text \<open>\<open>{**a, **b}\<close>: the entries of \<open>b\<close> assigned over \<open>a\<close>; \<open>d.pop(k, None)\<close>.\<close>

definition dict_merge :: "('k \<times> 'v) list \<Rightarrow> ('k \<times> 'v) list \<Rightarrow> ('k \<times> 'v) list" where
  "dict_merge a b = foldl (\<lambda>d kv. AList.update (fst kv) (snd kv) d) a b"

lemma map_of_dict_merge:
  "distinct (map fst b) \<Longrightarrow> map_of (dict_merge a b) = map_of a ++ map_of b"
proof (induction b arbitrary: a)
  case Nil
  then show ?case by (simp add: dict_merge_def)
next
  case (Cons kv b)
  obtain k v where kv: "kv = (k, v)" by (cases kv)
  have "map_of (dict_merge a (kv # b)) = map_of (dict_merge (AList.update k v a) b)"
    by (simp add: dict_merge_def kv)
  also have "\<dots> = (map_of a)(k \<mapsto> v) ++ map_of b"
    using Cons by (simp add: dict.lookup_put)
  also have "\<dots> = map_of a ++ map_of (kv # b)"
  proof -
    have "map_of b k = None"
      using Cons.prems by (simp add: kv map_of_eq_None_iff)
    then show ?thesis by (auto simp: kv map_add_def fun_eq_iff split: option.splits)
  qed
  finally show ?case .
qed

lemma distinct_dict_merge: "distinct (map fst a) \<Longrightarrow> distinct (map fst (dict_merge a b))"
  by (induction b arbitrary: a) (auto simp: dict_merge_def dict.distinct_put)

text \<open>Counters: \<open>d[k] = d.get(k, 0) + n\<close>, and the sum of all counts.\<close>

definition dict_bump :: "'k \<Rightarrow> int \<Rightarrow> ('k \<times> int) list \<Rightarrow> ('k \<times> int) list" where
  "dict_bump k n d = AList.update k ((case map_of d k of None \<Rightarrow> 0 | Some c \<Rightarrow> c) + n) d"

definition dict_count :: "('k \<times> int) list \<Rightarrow> 'k \<Rightarrow> int" where
  "dict_count d k = (case map_of d k of None \<Rightarrow> 0 | Some c \<Rightarrow> c)"

definition dict_total :: "('k \<times> int) list \<Rightarrow> int" where
  "dict_total d = sum_list (map snd d)"

lemma dict_count_bump [simp]:
  "dict_count (dict_bump k n d) j = dict_count d j + (if j = k then n else 0)"
  by (auto simp: dict_count_def dict_bump_def dict.lookup_put)

lemma distinct_dict_bump [simp]:
  "distinct (map fst d) \<Longrightarrow> distinct (map fst (dict_bump k n d))"
  by (simp add: dict_bump_def dict.distinct_put)

lemma dict_total_update:
  "distinct (map fst d) \<Longrightarrow> dict_total (AList.update k v d) = dict_total d - dict_count d k + v"
  by (induction d) (auto simp: dict_total_def dict_count_def split: if_splits)

lemma dict_total_bump [simp]:
  "distinct (map fst d) \<Longrightarrow> dict_total (dict_bump k n d) = dict_total d + n"
  by (simp add: dict_bump_def dict_total_update dict_count_def)

lemma dict_total_Nil [simp]: "dict_total [] = 0"
  by (simp add: dict_total_def)

text \<open>Updating one value in place keeps the others and the key order.\<close>

definition dict_modify :: "'k \<Rightarrow> ('v \<Rightarrow> 'v) \<Rightarrow> ('k \<times> 'v) list \<Rightarrow> ('k \<times> 'v) list" where
  "dict_modify k f d = (case map_of d k of None \<Rightarrow> d | Some v \<Rightarrow> AList.update k (f v) d)"

lemma keys_dict_modify [simp]: "map fst (dict_modify k f d) = map fst d"
  by (auto simp: dict_modify_def dict.keys_put_present split: option.splits)

lemma map_of_dict_modify [simp]:
  "map_of (dict_modify k f d) j = (if j = k then map_option f (map_of d k) else map_of d j)"
  by (auto simp: dict_modify_def dict.lookup_put split: option.splits)

subsection \<open>Stateful operations that may raise\<close>

text \<open>
  A method that changes its object and may raise: the changes made before the
  exception stay, as they do in Python, so both the outcome and the state are returned.
\<close>

type_synonym ('s, 'a) act = "'s \<Rightarrow> (exn + 'a) \<times> 's"

definition returnS :: "'a \<Rightarrow> ('s, 'a) act" where
  "returnS x s = (Inr x, s)"

definition raiseS :: "exn \<Rightarrow> ('s, 'a) act" where
  "raiseS e s = (Inl e, s)"

definition liftS :: "exn + 'a \<Rightarrow> ('s, 'a) act" where
  "liftS r s = (r, s)"

definition bindS :: "('s, 'a) act \<Rightarrow> ('a \<Rightarrow> ('s, 'b) act) \<Rightarrow> ('s, 'b) act" where
  "bindS m f s = (case m s of (Inl e, s') \<Rightarrow> (Inl e, s') | (Inr x, s') \<Rightarrow> f x s')"

definition getS :: "('s \<Rightarrow> 'a) \<Rightarrow> ('s, 'a) act" where
  "getS f s = (Inr (f s), s)"

definition modifyS :: "('s \<Rightarrow> 's) \<Rightarrow> ('s, unit) act" where
  "modifyS f s = (Inr (), f s)"

definition whenS :: "bool \<Rightarrow> ('s, unit) act \<Rightarrow> ('s, unit) act" where
  "whenS b m = (if b then m else returnS ())"

lemmas act_defs = returnS_def raiseS_def liftS_def bindS_def getS_def modifyS_def whenS_def

text \<open>\<open>for x in xs: f(x)\<close>, left at the first exception.\<close>

fun forS :: "'a list \<Rightarrow> ('a \<Rightarrow> ('s, unit) act) \<Rightarrow> ('s, unit) act" where
  "forS [] f s = (Inr (), s)"
| "forS (x # xs) f s = (case f x s of (Inl e, s') \<Rightarrow> (Inl e, s') | (Inr _, s') \<Rightarrow> forS xs f s')"

text \<open>What every operation keeps, the sequence keeps: also when it raises.\<close>

definition keepsS :: "('s \<Rightarrow> bool) \<Rightarrow> ('s, 'a) act \<Rightarrow> bool" where
  "keepsS P m \<longleftrightarrow> (\<forall>s. P s \<longrightarrow> P (snd (m s)))"

lemma keepsS_bind [intro]: "keepsS P m \<Longrightarrow> (\<And>x. keepsS P (f x)) \<Longrightarrow> keepsS P (bindS m f)"
  by (fastforce simp: keepsS_def bindS_def split: prod.splits sum.splits)

lemma keepsS_basic [simp, intro]:
  "keepsS P (returnS x)" "keepsS P (raiseS e)" "keepsS P (liftS r)" "keepsS P (getS g)"
  by (simp_all add: keepsS_def act_defs)

lemma keepsS_modify [intro]: "(\<And>s. P s \<Longrightarrow> P (f s)) \<Longrightarrow> keepsS P (modifyS f)"
  by (simp add: keepsS_def modifyS_def)

lemma keepsS_when [intro]: "(b \<Longrightarrow> keepsS P m) \<Longrightarrow> keepsS P (whenS b m)"
  by (simp add: whenS_def)

lemma keepsS_for:
  assumes "\<And>x. x \<in> set xs \<Longrightarrow> keepsS P (f x)"
  shows "keepsS P (forS xs f)"
proof -
  have "P s \<Longrightarrow> P (snd (forS xs f s))" for s
    using assms
  proof (induction xs arbitrary: s)
    case (Cons x xs)
    then have "P (snd (f x s))" by (simp add: keepsS_def)
    with Cons show ?case by (auto split: prod.splits sum.splits)
  qed simp
  then show ?thesis by (simp add: keepsS_def)
qed

lemma keepsS_D: "keepsS P m \<Longrightarrow> P s \<Longrightarrow> P (snd (m s))"
  by (simp add: keepsS_def)

subsection \<open>Generic interfaces\<close>

text \<open>An encoder with a decoder that reads back what was written.\<close>

locale codec =
  fixes enc :: "'a \<Rightarrow> 'b"
    and dec :: "'b \<Rightarrow> 'a option"
    and ok :: "'a \<Rightarrow> bool"
  assumes roundtrip: "ok x \<Longrightarrow> dec (enc x) = Some x"
begin

lemma enc_inject: "ok x \<Longrightarrow> ok y \<Longrightarrow> enc x = enc y \<longleftrightarrow> x = y"
  by (metis option.inject roundtrip)

lemma dec_defined: "ok x \<Longrightarrow> \<exists>y. dec (enc x) = Some y"
  by (simp add: roundtrip)

lemma roundtrip_option:
  "(\<And>x. v = Some x \<Longrightarrow> ok x) \<Longrightarrow> Option.bind (map_option enc v) dec = v"
  by (cases v) (auto simp: roundtrip)

end

interpretation decimal: codec nat_str "\<lambda>s. Some (digits_val s)" "\<lambda>_. True"
  by unfold_locales simp

text \<open>A step function with an invariant, and its runs.\<close>

locale event_machine =
  fixes step :: "'s \<Rightarrow> 'e \<Rightarrow> 's"
    and inv :: "'s \<Rightarrow> bool"
  assumes step_inv: "inv s \<Longrightarrow> inv (step s e)"
begin

lemma run_inv: "inv s \<Longrightarrow> inv (foldl step s es)"
  by (induction es arbitrary: s) (auto intro: step_inv)

lemma prefix_inv: "inv s \<Longrightarrow> inv (foldl step s (take n es))"
  by (rule run_inv)

end

end
