(* ===== verification/PyTime.thy ===== *)
theory PyTime
  imports PyBase "HOL-Library.Monad_Syntax"
begin

section \<open>Datetimes\<close>

text \<open>
  The part of Python's \<^verbatim>\<open>datetime\<close> the integration uses: the fields of a
  datetime with its UTC offset (\<open>None\<close> for a naive one), comparison and
  subtraction (which raise \<open>TypeError\<close> between a naive and an aware value),
  \<^verbatim>\<open>fromtimestamp(ms / 1000, tz=UTC)\<close>, \<^verbatim>\<open>isoformat\<close> and \<^verbatim>\<open>fromisoformat\<close>.
  The parser reads the extended format (\<open>YYYY-MM-DD\<close>, any separator character,
  \<open>HH[:MM[:SS[.f+]]]\<close>, then \<open>Z\<close> or a signed offset), which holds every string
  \<^verbatim>\<open>isoformat\<close> writes; the basic format, week dates and the hour 24 are read as
  malformed. Milliseconds are exact, where the float division of the code rounds
  to the microsecond from the year 2242 on.
\<close>

record pydatetime =
  dt_year :: int
  dt_month :: int
  dt_day :: int
  dt_hour :: int
  dt_minute :: int
  dt_second :: int
  dt_micro :: int
  dt_off :: "int option"

subsection \<open>The calendar\<close>

definition is_leap :: "int \<Rightarrow> bool" where
  "is_leap y \<longleftrightarrow> y mod 4 = 0 \<and> (y mod 100 \<noteq> 0 \<or> y mod 400 = 0)"

definition days_in_month :: "int \<Rightarrow> int \<Rightarrow> int" where
  "days_in_month y m =
     (if m = 2 then (if is_leap y then 29 else 28)
      else if m = 4 \<or> m = 6 \<or> m = 9 \<or> m = 11 then 30 else 31)"

definition days_before_year :: "int \<Rightarrow> int" where
  "days_before_year y =
     (let p = y - 1 in p * 365 + p div 4 - p div 100 + p div 400)"

fun days_before_month :: "int \<Rightarrow> nat \<Rightarrow> int" where
  "days_before_month y 0 = 0"
| "days_before_month y (Suc m) =
     (if m = 0 then 0 else days_before_month y m + days_in_month y (int m))"

definition ymd2ord :: "int \<Rightarrow> int \<Rightarrow> int \<Rightarrow> int" where
  "ymd2ord y m d = days_before_year y + days_before_month y (nat m) + d"

text \<open>The proleptic Gregorian date of an ordinal, by 400-, 100-, 4- and 1-year cycles.\<close>

fun find_month :: "int \<Rightarrow> int \<Rightarrow> nat \<Rightarrow> int \<Rightarrow> int \<times> int" where
  "find_month y m 0 r = (m, r + 1)"
| "find_month y m (Suc k) r =
     (if r < days_in_month y m then (m, r + 1)
      else find_month y (m + 1) k (r - days_in_month y m))"

definition ord2year :: "int \<Rightarrow> int \<times> int" where
  "ord2year n =
     (let r0 = n - 1; n400 = r0 div 146097; r1 = r0 mod 146097;
          n100 = r1 div 36524; r2 = r1 mod 36524;
          n4 = r2 div 1461; r3 = r2 mod 1461;
          n1 = r3 div 365; r4 = r3 mod 365;
          y = n400 * 400 + n100 * 100 + n4 * 4 + n1 + 1
      in if n1 = 4 \<or> n100 = 4 then (y - 1, 365) else (y, r4))"

definition ord2ymd :: "int \<Rightarrow> int \<times> int \<times> int" where
  "ord2ymd n = (let yr = ord2year n; md = find_month (fst yr) 1 11 (snd yr)
                in (fst yr, fst md, snd md))"

subsection \<open>Fields, instants and comparison\<close>

definition day_us :: int where "day_us = 86400000000"

definition epoch_ord :: int where "epoch_ord = 719163"

text \<open>Microseconds of the wall clock and, for an aware datetime, of UTC.\<close>

definition dt_wall :: "pydatetime \<Rightarrow> int" where
  "dt_wall d = ymd2ord (dt_year d) (dt_month d) (dt_day d) * day_us
     + ((dt_hour d * 60 + dt_minute d) * 60 + dt_second d) * 1000000 + dt_micro d"

definition dt_instant :: "pydatetime \<Rightarrow> int" where
  "dt_instant d = dt_wall d - (case dt_off d of None \<Rightarrow> 0 | Some off \<Rightarrow> off)"

definition is_aware :: "pydatetime \<Rightarrow> bool" where
  "is_aware d \<longleftrightarrow> dt_off d \<noteq> None"

definition valid_dt :: "pydatetime \<Rightarrow> bool" where
  "valid_dt d \<longleftrightarrow>
     1 \<le> dt_year d \<and> dt_year d \<le> 9999 \<and> 1 \<le> dt_month d \<and> dt_month d \<le> 12 \<and>
     1 \<le> dt_day d \<and> dt_day d \<le> days_in_month (dt_year d) (dt_month d) \<and>
     0 \<le> dt_hour d \<and> dt_hour d < 24 \<and> 0 \<le> dt_minute d \<and> dt_minute d < 60 \<and>
     0 \<le> dt_second d \<and> dt_second d < 60 \<and> 0 \<le> dt_micro d \<and> dt_micro d < 1000000 \<and>
     (case dt_off d of None \<Rightarrow> True | Some off \<Rightarrow> - day_us < off \<and> off < day_us)"

text \<open>\<open>a > b\<close>, \<open>a >= b\<close> and \<open>a - b\<close> (in microseconds).\<close>

definition dt_cmp :: "(int \<Rightarrow> int \<Rightarrow> 'a) \<Rightarrow> pydatetime \<Rightarrow> pydatetime \<Rightarrow> exn + 'a" where
  "dt_cmp f a b = (if is_aware a = is_aware b then Inr (f (dt_instant a) (dt_instant b))
                   else Inl TypeError)"

definition dt_gt :: "pydatetime \<Rightarrow> pydatetime \<Rightarrow> exn + bool" where
  "dt_gt = dt_cmp (\<lambda>x y. x > y)"

definition dt_ge :: "pydatetime \<Rightarrow> pydatetime \<Rightarrow> exn + bool" where
  "dt_ge = dt_cmp (\<lambda>x y. x \<ge> y)"

definition dt_sub :: "pydatetime \<Rightarrow> pydatetime \<Rightarrow> exn + int" where
  "dt_sub = dt_cmp (\<lambda>x y. x - y)"

lemmas dt_cmp_defs = dt_gt_def dt_ge_def dt_sub_def dt_cmp_def

lemma dt_gt_aware: "is_aware a \<Longrightarrow> is_aware b \<Longrightarrow> dt_gt a b = Inr (dt_instant a > dt_instant b)"
  and dt_ge_aware: "is_aware a \<Longrightarrow> is_aware b \<Longrightarrow> dt_ge a b = Inr (dt_instant a \<ge> dt_instant b)"
  and dt_sub_aware: "is_aware a \<Longrightarrow> is_aware b \<Longrightarrow> dt_sub a b = Inr (dt_instant a - dt_instant b)"
  by (simp_all add: dt_cmp_defs)

lemmas dt_aware = dt_gt_aware dt_ge_aware dt_sub_aware

lemma dt_gt_mixed: "is_aware a \<noteq> is_aware b \<Longrightarrow> dt_gt a b = Inl TypeError"
  by (simp add: dt_cmp_defs)

lemma dt_gt_err: "dt_gt a b = Inl e \<Longrightarrow> e = TypeError"
  by (auto simp: dt_cmp_defs split: if_splits)

text \<open>
  \<open>max(xs, key=...)\<close>: the first of the greatest elements; \<open>max\<close> over an empty
  list raises \<open>ValueError\<close>.
\<close>

fun max_by :: "('a \<Rightarrow> pydatetime) \<Rightarrow> 'a \<Rightarrow> 'a list \<Rightarrow> exn + 'a" where
  "max_by key m [] = Inr m"
| "max_by key m (x # xs) =
     bindE (dt_gt (key x) (key m)) (\<lambda>b. max_by key (if b then x else m) xs)"

definition py_max :: "('a \<Rightarrow> pydatetime) \<Rightarrow> 'a list \<Rightarrow> exn + 'a" where
  "py_max key xs = (case xs of [] \<Rightarrow> Inl ValueError | x # xs' \<Rightarrow> max_by key x xs')"

lemma max_by_aware:
  "is_aware (key m) \<Longrightarrow> (\<And>x. x \<in> set xs \<Longrightarrow> is_aware (key x)) \<Longrightarrow>
   \<exists>y. max_by key m xs = Inr y \<and> y \<in> set (m # xs) \<and>
       (\<forall>x \<in> set (m # xs). dt_instant (key x) \<le> dt_instant (key y))"
proof (induction xs arbitrary: m)
  case Nil
  then show ?case by simp
next
  case (Cons x xs)
  let ?m = "if dt_instant (key x) > dt_instant (key m) then x else m"
  have "is_aware (key ?m)" using Cons.prems by simp
  then obtain y where "max_by key ?m xs = Inr y" "y \<in> set (?m # xs)"
      "\<forall>z \<in> set (?m # xs). dt_instant (key z) \<le> dt_instant (key y)"
    using Cons.IH [of ?m] Cons.prems by fastforce
  moreover have "max_by key m (x # xs) = max_by key ?m xs"
    using Cons.prems by (simp add: dt_gt_aware)
  ultimately show ?case by (auto split: if_splits intro: order_trans)
qed

lemma py_max_aware:
  assumes "xs \<noteq> []" and "\<And>x. x \<in> set xs \<Longrightarrow> is_aware (key x)"
  shows "\<exists>y. py_max key xs = Inr y \<and> y \<in> set xs \<and>
             (\<forall>x \<in> set xs. dt_instant (key x) \<le> dt_instant (key y))"
  using assms max_by_aware [of key "hd xs" "tl xs"] by (cases xs) (auto simp: py_max_def)

lemma max_by_in: "max_by key m xs = Inr y \<Longrightarrow> y \<in> set (m # xs)"
  by (induction xs arbitrary: m) (auto simp: out_simps split: if_splits)

lemma py_max_in: "py_max key xs = Inr y \<Longrightarrow> y \<in> set xs"
  using max_by_in by (fastforce simp: py_max_def split: list.splits)

subsection \<open>The calendar is inverted\<close>

lemma ord2year_days:
  assumes "ord2year n = (y, r)"
  shows "days_before_year y + r + 1 = n \<and> 0 \<le> r \<and> r < 365 + (if is_leap y then 1 else 0)"
proof -
  define a r1 where "a = (n - 1) div 146097" and "r1 = (n - 1) mod 146097"
  define b r2 where "b = r1 div 36524" and "r2 = r1 mod 36524"
  define c r3 where "c = r2 div 1461" and "r3 = r2 mod 1461"
  define d e where "d = r3 div 365" and "e = r3 mod 365"
  have n: "n = 146097 * a + r1 + 1" and r1: "0 \<le> r1" "r1 < 146097"
    by (simp_all add: a_def r1_def)
  have b: "r1 = 36524 * b + r2" "0 \<le> r2" "r2 < 36524" "0 \<le> b" "b \<le> 4"
    using r1 by (simp_all add: b_def r2_def pos_imp_zdiv_nonneg_iff)
  have c: "r2 = 1461 * c + r3" "0 \<le> r3" "r3 < 1461" "0 \<le> c" "c \<le> 24"
    using b by (simp_all add: c_def r3_def pos_imp_zdiv_nonneg_iff)
  have d: "r3 = 365 * d + e" "0 \<le> e" "e < 365" "0 \<le> d" "d \<le> 4"
    using c by (simp_all add: d_def e_def pos_imp_zdiv_nonneg_iff)
  have eq: "ord2year n = (if d = 4 \<or> b = 4 then (a * 400 + b * 100 + c * 4 + d + 1 - 1, 365)
                          else (a * 400 + b * 100 + c * 4 + d + 1, e))"
    unfolding ord2year_def Let_def a_def b_def c_def d_def e_def r1_def r2_def r3_def
    by (rule refl)
  have yr: "y = (if d = 4 \<or> b = 4 then 400 * a + 100 * b + 4 * c + d
                 else 400 * a + 100 * b + 4 * c + d + 1)"
    and r: "r = (if d = 4 \<or> b = 4 then 365 else e)"
    using assms eq by (auto split: if_splits)
  consider (plain) "d < 4" "b < 4" | (d4) "d = 4" "b < 4" | (b4) "b = 4"
    using b(4,5) d(4,5) by linarith
  then show ?thesis
  proof cases
    case plain
    let ?p = "400 * a + 100 * b + 4 * c + d"
    have "?p div 4 = 100 * a + 25 * b + c"
      by (rule int_div_pos_eq [where r = d]) (use d(4) plain in simp_all)
    moreover have "?p div 100 = 4 * a + b"
      by (rule int_div_pos_eq [where r = "4 * c + d"]) (use c(4,5) d(4) plain in simp_all)
    moreover have "?p div 400 = a"
      by (rule int_div_pos_eq [where r = "100 * b + 4 * c + d"]) (use b(4) c(4,5) d(4) plain in simp_all)
    moreover have "y - 1 = ?p" "r = e" using plain yr r by simp_all
    ultimately have "days_before_year y = ?p * 365 + (100 * a + 25 * b + c) - (4 * a + b) + a"
      by (simp only: days_before_year_def Let_def)
    with n b(1) c(1) d(1) have "days_before_year y + e + 1 = n" by (simp add: algebra_simps)
    with d(2,3) \<open>r = e\<close> show ?thesis by simp
  next
    case d4
    then have c23: "c \<le> 23" using b c d by linarith
    let ?p = "400 * a + 100 * b + 4 * c + 3"
    have "?p div 4 = 100 * a + 25 * b + c"
      by (rule int_div_pos_eq [where r = 3]) simp_all
    moreover have "?p div 100 = 4 * a + b"
      by (rule int_div_pos_eq [where r = "4 * c + 3"]) (use c(4) c23 in simp_all)
    moreover have "?p div 400 = a"
      by (rule int_div_pos_eq [where r = "100 * b + 4 * c + 3"]) (use b(4) c(4) c23 d4 in simp_all)
    moreover have "(?p + 1) mod 100 = 4 * c + 4"
      by (rule int_mod_pos_eq [where q = "4 * a + b"]) (use c(4) c23 in simp_all)
    moreover have "(?p + 1) mod 4 = 0"
      by (rule int_mod_pos_eq [where q = "100 * a + 25 * b + c + 1"]) simp_all
    moreover have "e = 0" using d c d4 by linarith
    moreover have "y - 1 = ?p" "r = 365" "y = ?p + 1" using d4 yr r by simp_all
    ultimately have "days_before_year y = ?p * 365 + (100 * a + 25 * b + c) - (4 * a + b) + a"
      and "is_leap y" and e: "e = 0" and r365: "r = 365"
      using c(4) c23 by (simp_all only: days_before_year_def is_leap_def Let_def) simp
    with n b(1) c(1) d(1) d4 have "days_before_year y + 365 + 1 = n" by (simp add: algebra_simps)
    with \<open>is_leap y\<close> r365 show ?thesis by simp
  next
    case b4
    have z: "r2 = 0" "c = 0" "d = 0" "e = 0" using b4 b c d r1 by linarith+
    let ?p = "400 * a + 399"
    have "?p div 4 = 100 * a + 99" by (rule int_div_pos_eq [where r = 3]) simp_all
    moreover have "?p div 100 = 4 * a + 3" by (rule int_div_pos_eq [where r = 99]) simp_all
    moreover have "?p div 400 = a" by (rule int_div_pos_eq [where r = 399]) simp_all
    moreover have "(?p + 1) mod 4 = 0"
      by (rule int_mod_pos_eq [where q = "100 * a + 100"]) simp_all
    moreover have "(?p + 1) mod 400 = 0"
      by (rule int_mod_pos_eq [where q = "a + 1"]) simp_all
    moreover have "y - 1 = ?p" "r = 365" "y = ?p + 1" using b4 z yr r by simp_all
    ultimately have "days_before_year y = ?p * 365 + (100 * a + 99) - (4 * a + 3) + a"
      and "is_leap y" and r365: "r = 365"
      by (simp_all only: days_before_year_def is_leap_def Let_def) simp
    with n b(1) b4 z have "days_before_year y + 365 + 1 = n" by (simp add: algebra_simps)
    with \<open>is_leap y\<close> r365 show ?thesis by simp
  qed
qed

lemma days_before_month_step:
  "1 \<le> m \<Longrightarrow> days_before_month y (nat (m + 1)) = days_before_month y (nat m) + days_in_month y m"
  by (simp add: nat_add_distrib)

lemma days_in_month_pos: "0 < days_in_month y m"
  by (simp add: days_in_month_def)

lemma find_month_days:
  assumes "find_month y m k r = (m', d)" and "1 \<le> m" and "0 \<le> r"
    and "r < days_before_month y (nat (m + int k)) - days_before_month y (nat m)
             + days_in_month y (m + int k)"
  shows "m \<le> m' \<and> m' \<le> m + int k \<and> 1 \<le> d \<and> d \<le> days_in_month y m'
         \<and> days_before_month y (nat m') + d = days_before_month y (nat m) + r + 1"
  using assms
proof (induction y m k r rule: find_month.induct)
  case (1 y m r)
  then show ?case by simp
next
  case (2 y m k r)
  show ?case
  proof (cases "r < days_in_month y m")
    case True
    with 2 show ?thesis by auto
  next
    case False
    with 2 show ?thesis
      using days_before_month_step [of m y] by (auto simp: algebra_simps)
  qed
qed

lemma ord2ymd_inverse:
  assumes "ord2ymd n = (y, m, d)"
  shows "ymd2ord y m d = n \<and> 1 \<le> m \<and> m \<le> 12 \<and> 1 \<le> d \<and> d \<le> days_in_month y m"
proof -
  obtain r where yr: "ord2year n = (y, r)" and md: "find_month y 1 11 r = (m, d)"
    using assms by (cases "ord2year n") (auto simp: ord2ymd_def Let_def prod_eq_iff)
  note yd = ord2year_days [OF yr]
  have "days_before_month y 12 - days_before_month y 1 + days_in_month y 12
        = 365 + (if is_leap y then 1 else 0)"
    by (simp add: numeral_eq_Suc days_in_month_def)
  with yd have "r < days_before_month y (nat (1 + int 11)) - days_before_month y (nat 1)
                     + days_in_month y (1 + int 11)"
    by simp
  from find_month_days [OF md _ _ this] yd show ?thesis
    by (simp add: ymd2ord_def)
qed

subsection \<open>Timestamps\<close>

text \<open>
  \<open>datetime.fromtimestamp(ms / 1000, tz=UTC)\<close>: \<open>None\<close> where the call raises,
  which it does outside the years 1 to 9999. \<open>from_wall\<close> builds the fields of a
  wall-clock time in microseconds.
\<close>

definition from_wall :: "int \<Rightarrow> int option \<Rightarrow> pydatetime" where
  "from_wall w off =
     (let ymd = ord2ymd (w div day_us); t = w mod day_us;
          sec = t div 1000000
      in \<lparr>dt_year = fst ymd, dt_month = fst (snd ymd), dt_day = snd (snd ymd),
          dt_hour = sec div 3600, dt_minute = sec div 60 mod 60, dt_second = sec mod 60,
          dt_micro = t mod 1000000, dt_off = off\<rparr>)"

definition from_ms :: "int \<Rightarrow> pydatetime option" where
  "from_ms ms =
     (let d = from_wall (ms * 1000 + epoch_ord * day_us) (Some 0)
      in if 1 \<le> dt_year d \<and> dt_year d \<le> 9999 then Some d else None)"

text \<open>\<open>d + timedelta(microseconds=us)\<close>, within the supported years.\<close>

definition dt_add :: "pydatetime \<Rightarrow> int \<Rightarrow> pydatetime" where
  "dt_add d us = from_wall (dt_wall d + us) (dt_off d)"

text \<open>\<open>int(d.timestamp() * 1000)\<close> of an aware datetime.\<close>

definition to_ms :: "pydatetime \<Rightarrow> int" where
  "to_ms d = (dt_instant d - epoch_ord * day_us) div 1000"

lemma us_split:
  "((t div 1000000 div 3600 * 60 + t div 1000000 div 60 mod 60) * 60
     + t div 1000000 mod 60) * 1000000 + t mod 1000000 = (t :: int)"
proof -
  define u where "u = t div 1000000"
  have 1: "u div 3600 = u div 60 div 60" by (simp add: zdiv_zmult2_eq [symmetric])
  have 2: "u div 60 div 60 * 60 + u div 60 mod 60 = u div 60" by simp
  have 3: "u div 60 * 60 + u mod 60 = u" by simp
  have 4: "u * 1000000 + t mod 1000000 = t" by (simp add: u_def)
  show ?thesis unfolding u_def [symmetric] by (simp only: 1 2 3 4)
qed

lemma from_wall_wall: "dt_wall (from_wall w off) = w"
proof -
  obtain y m d where o: "ord2ymd (w div day_us) = (y, m, d)"
    by (cases "ord2ymd (w div day_us)") auto
  have "ymd2ord y m d = w div day_us"
    using ord2ymd_inverse [OF o] by simp
  moreover have "w div day_us * day_us + w mod day_us = w" by simp
  ultimately show ?thesis
    unfolding from_wall_def dt_wall_def o Let_def
    by (simp only: fst_conv snd_conv pydatetime.select_convs us_split add.assoc)
qed

lemma from_wall_off [simp]: "dt_off (from_wall w off) = off"
  by (simp add: from_wall_def Let_def)

lemma dt_add_instant [simp]: "dt_instant (dt_add d us) = dt_instant d + us"
  by (simp add: dt_add_def dt_instant_def from_wall_wall)

lemma dt_add_aware [simp]: "is_aware (dt_add d us) = is_aware d"
  by (simp add: dt_add_def is_aware_def)

lemma from_ms_instant: "from_ms ms = Some d \<Longrightarrow> dt_instant d = ms * 1000 + epoch_ord * day_us"
  by (auto simp: from_ms_def Let_def dt_instant_def from_wall_wall split: if_splits)

lemma from_ms_aware: "from_ms ms = Some d \<Longrightarrow> is_aware d"
  by (auto simp: from_ms_def Let_def is_aware_def split: if_splits)

lemma to_ms_from_ms: "from_ms ms = Some d \<Longrightarrow> to_ms d = ms"
  by (simp add: to_ms_def from_ms_instant)

interpretation millis: codec "\<lambda>ms. the (from_ms ms)" "\<lambda>d. Some (to_ms d)" "\<lambda>ms. from_ms ms \<noteq> None"
  by unfold_locales (auto simp: to_ms_from_ms)

lemma from_wall_valid:
  assumes "1 \<le> dt_year (from_wall w off)" "dt_year (from_wall w off) \<le> 9999"
    and "\<And>x. off = Some x \<Longrightarrow> - day_us < x \<and> x < day_us"
  shows "valid_dt (from_wall w off)"
proof -
  obtain y m d where o: "ord2ymd (w div day_us) = (y, m, d)"
    by (cases "ord2ymd (w div day_us)") auto
  have t: "0 \<le> w mod day_us" "w mod day_us < day_us" by (simp_all add: day_us_def)
  then have "w mod day_us div 1000000 div 3600 < 24"
    by (simp add: day_us_def)
  with t ord2ymd_inverse [OF o] assms show ?thesis
    by (auto simp: valid_dt_def from_wall_def o Let_def pos_imp_zdiv_nonneg_iff split: option.splits)
qed

text \<open>\<open>ensure_aware(dt)\<close> of \<^verbatim>\<open>models.py\<close>: a naive datetime is taken as UTC.\<close>

definition ensure_aware :: "pydatetime \<Rightarrow> pydatetime" where
  "ensure_aware d = (if dt_off d \<noteq> None then d else d\<lparr>dt_off := Some 0\<rparr>)"

lemma ensure_aware_aware [simp]: "is_aware (ensure_aware d)"
  by (simp add: ensure_aware_def is_aware_def)

lemma ensure_aware_id [simp]: "is_aware d \<Longrightarrow> ensure_aware d = d"
  by (simp add: ensure_aware_def is_aware_def)

lemma ensure_aware_instant [simp]: "dt_instant (ensure_aware d) = dt_instant d"
  by (simp add: ensure_aware_def dt_instant_def dt_wall_def split: option.splits)

lemma ensure_aware_valid [simp]: "valid_dt d \<Longrightarrow> valid_dt (ensure_aware d)"
  by (simp add: ensure_aware_def valid_dt_def day_us_def)

subsection \<open>ISO format\<close>

fun pad :: "nat \<Rightarrow> nat \<Rightarrow> string" where
  "pad 0 n = []"
| "pad (Suc k) n = pad k (n div 10) @ [digit_char (n mod 10)]"

definition pad_int :: "nat \<Rightarrow> int \<Rightarrow> string" where
  "pad_int k i = pad k (nat i)"

text \<open>\<open>HH:MM[:SS[.ffffff]]\<close> of an offset, \<open>HH:MM:SS[.ffffff]\<close> of a time.\<close>

definition iso_frac :: "int \<Rightarrow> string" where
  "iso_frac us = (if us = 0 then [] else CHR ''.'' # pad_int 6 us)"

definition iso_off :: "int \<Rightarrow> string" where
  "iso_off off =
     (let a = \<bar>off\<bar>; us = a mod 1000000; sec = a div 1000000;
          tail = (if sec mod 60 = 0 \<and> us = 0 then []
                  else CHR '':'' # pad_int 2 (sec mod 60) @ iso_frac us)
      in (if off < 0 then CHR ''-'' else CHR ''+'')
         # pad_int 2 (sec div 3600) @ CHR '':'' # pad_int 2 (sec div 60 mod 60) @ tail)"

definition isoformat :: "pydatetime \<Rightarrow> string" where
  "isoformat d =
     pad_int 4 (dt_year d) @ CHR ''-'' # pad_int 2 (dt_month d) @ CHR ''-'' # pad_int 2 (dt_day d)
     @ CHR ''T'' # pad_int 2 (dt_hour d) @ CHR '':'' # pad_int 2 (dt_minute d)
     @ CHR '':'' # pad_int 2 (dt_second d) @ iso_frac (dt_micro d)
     @ (case dt_off d of None \<Rightarrow> [] | Some off \<Rightarrow> iso_off off)"

definition scan_num :: "nat \<Rightarrow> string \<Rightarrow> (int \<times> string) option" where
  "scan_num k s = (if length s < k \<or> \<not> list_all is_digit (take k s) then None
                   else Some (int (digits_val (take k s)), drop k s))"

fun scan_char :: "char \<Rightarrow> string \<Rightarrow> string option" where
  "scan_char c [] = None"
| "scan_char c (d # s) = (if d = c then Some s else None)"

text \<open>The digits after the point: six are read, shorter ones are scaled, further ones dropped.\<close>

definition scan_frac :: "string \<Rightarrow> int option" where
  "scan_frac s = (if s = [] \<or> \<not> list_all is_digit s then None
                  else Some (int (digits_val (take 6 s)) * 10 ^ (6 - length (take 6 s))))"

definition scan_hms :: "string \<Rightarrow> (int \<times> int \<times> int \<times> int) option" where
  "scan_hms s = do {
     (h, r1) \<leftarrow> scan_num 2 s;
     (if r1 = [] then Some (h, 0, 0, 0) else do {
        r2 \<leftarrow> scan_char CHR '':'' r1;
        (m, r3) \<leftarrow> scan_num 2 r2;
        (if r3 = [] then Some (h, m, 0, 0) else do {
           r4 \<leftarrow> scan_char CHR '':'' r3;
           (sec, r5) \<leftarrow> scan_num 2 r4;
           (case r5 of
              [] \<Rightarrow> Some (h, m, sec, 0)
            | c # r6 \<Rightarrow> if c = CHR ''.'' \<or> c = CHR '','' then do {
                            us \<leftarrow> scan_frac r6; Some (h, m, sec, us) }
                          else None) }) }) }"

definition is_tz_start :: "char \<Rightarrow> bool" where
  "is_tz_start c \<longleftrightarrow> c = CHR ''+'' \<or> c = CHR ''-'' \<or> c = CHR ''Z''"

definition scan_tz :: "string \<Rightarrow> int option option" where
  "scan_tz s = (case s of
       [] \<Rightarrow> Some None
     | c # r \<Rightarrow> if c = CHR ''Z'' then (if r = [] then Some (Some 0) else None)
               else do {
                 (h, m, sec, us) \<leftarrow> scan_hms r;
                 Some (Some ((if c = CHR ''-'' then -1 else 1)
                             * (((h * 60 + m) * 60 + sec) * 1000000 + us))) })"

definition fromisoformat :: "string \<Rightarrow> pydatetime option" where
  "fromisoformat s = do {
     (y, r1) \<leftarrow> scan_num 4 s;
     r2 \<leftarrow> scan_char CHR ''-'' r1;
     (mo, r3) \<leftarrow> scan_num 2 r2;
     r4 \<leftarrow> scan_char CHR ''-'' r3;
     (d, r5) \<leftarrow> scan_num 2 r4;
     let t = drop 1 r5;
     (h, mi, sec, us) \<leftarrow> (if t = [] then Some (0, 0, 0, 0)
                            else scan_hms (takeWhile (\<lambda>c. \<not> is_tz_start c) t));
     off \<leftarrow> scan_tz (dropWhile (\<lambda>c. \<not> is_tz_start c) t);
     let dt = \<lparr>dt_year = y, dt_month = mo, dt_day = d, dt_hour = h, dt_minute = mi,
              dt_second = sec, dt_micro = us, dt_off = off\<rparr>;
     (if valid_dt dt then Some dt else None) }"

subsection \<open>Reading back what was written\<close>

lemma length_pad [simp]: "length (pad k n) = k"
  by (induction k arbitrary: n) auto

lemma pad_digits [simp]: "list_all is_digit (pad k n)"
  by (induction k arbitrary: n) auto

lemma digits_val_pad [simp]: "digits_val (pad k n) = n mod 10 ^ k"
  by (induction k arbitrary: n) (auto simp: mod_mult2_eq)

lemma scan_num_pad [simp]:
  "0 \<le> i \<Longrightarrow> i < 10 ^ k \<Longrightarrow> scan_num k (pad_int k i @ r) = Some (i, r)"
proof -
  assume "0 \<le> i" "i < 10 ^ k"
  then have "nat i < 10 ^ k" by (simp add: nat_less_iff)
  with \<open>0 \<le> i\<close> show ?thesis by (simp add: scan_num_def pad_int_def)
qed

lemma scan_num_pad_end [simp]: "0 \<le> i \<Longrightarrow> i < 10 ^ k \<Longrightarrow> scan_num k (pad_int k i) = Some (i, [])"
  using scan_num_pad [of i k "[]"] by simp

lemma length_pad_int [simp]: "length (pad_int k i) = k"
  by (simp add: pad_int_def)

lemma pad_int_no_tz [simp]: "c \<in> set (pad_int k i) \<Longrightarrow> \<not> is_tz_start c"
proof -
  assume "c \<in> set (pad_int k i)"
  then have "is_digit c" using pad_digits [of k "nat i"] by (auto simp: pad_int_def list_all_iff)
  then show ?thesis by (auto simp: is_tz_start_def is_digit_def)
qed

lemma pad_int_not_Nil [simp]: "pad_int (Suc k) i \<noteq> []"
  by (simp add: pad_int_def)

lemma scan_frac_pad [simp]: "0 \<le> us \<Longrightarrow> us < 1000000 \<Longrightarrow> scan_frac (pad_int 6 us) = Some us"
proof -
  assume us: "0 \<le> us" "us < 1000000"
  have "pad 6 (nat us) \<noteq> []" by (metis length_pad list.size(3) zero_neq_numeral)
  then show ?thesis using us by (simp add: scan_frac_def pad_int_def nat_mod_as_int)
qed

lemma scan_hms_iso [simp]:
  "0 \<le> h \<Longrightarrow> h < 100 \<Longrightarrow> 0 \<le> m \<Longrightarrow> m < 100 \<Longrightarrow> 0 \<le> sec \<Longrightarrow> sec < 100 \<Longrightarrow>
   0 \<le> us \<Longrightarrow> us < 1000000 \<Longrightarrow>
   scan_hms (pad_int 2 h @ CHR '':'' # pad_int 2 m @ CHR '':'' # pad_int 2 sec @ iso_frac us)
     = Some (h, m, sec, us)"
  by (simp add: scan_hms_def iso_frac_def)

lemma scan_hms_iso_short [simp]:
  "0 \<le> h \<Longrightarrow> h < 100 \<Longrightarrow> 0 \<le> m \<Longrightarrow> m < 100 \<Longrightarrow>
   scan_hms (pad_int 2 h @ CHR '':'' # pad_int 2 m) = Some (h, m, 0, 0)"
  by (simp add: scan_hms_def)

lemma iso_off_head: "\<exists>c r. iso_off off = c # r \<and> is_tz_start c"
  by (simp add: iso_off_def Let_def is_tz_start_def)

lemma scan_tz_iso: "- day_us < off \<Longrightarrow> off < day_us \<Longrightarrow> scan_tz (iso_off off) = Some (Some off)"
proof -
  assume off: "- day_us < off" "off < day_us"
  define a where "a = \<bar>off\<bar>"
  define h m sec us where "h = a div 1000000 div 3600" and "m = a div 1000000 div 60 mod 60"
    and "sec = a div 1000000 mod 60" and "us = a mod 1000000"
  have "0 \<le> h" "h < 100"
    using off by (auto simp: h_def a_def day_us_def pos_imp_zdiv_nonneg_iff)
  moreover have "0 \<le> m" "m < 100" "0 \<le> sec" "sec < 100" "0 \<le> us" "us < 1000000"
    by (simp_all add: m_def sec_def us_def pos_mod_bound [THEN less_trans])
  ultimately have hms: "scan_hms (pad_int 2 h @ CHR '':'' # pad_int 2 m
       @ (if sec = 0 \<and> us = 0 then [] else CHR '':'' # pad_int 2 sec @ iso_frac us)) = Some (h, m, sec, us)"
    by simp
  have "((h * 60 + m) * 60 + sec) * 1000000 + us = a"
    unfolding h_def m_def sec_def us_def by (rule us_split)
  moreover have "iso_off off = (if off < 0 then CHR ''-'' else CHR ''+'') # (pad_int 2 h
       @ CHR '':'' # pad_int 2 m @ (if sec = 0 \<and> us = 0 then [] else CHR '':'' # pad_int 2 sec @ iso_frac us))"
    unfolding iso_off_def Let_def a_def h_def m_def sec_def us_def by (rule refl)
  ultimately show ?thesis
    using hms by (simp add: scan_tz_def a_def)
qed

theorem fromisoformat_isoformat: "valid_dt d \<Longrightarrow> fromisoformat (isoformat d) = Some d"
proof -
  assume v: "valid_dt d"
  define t where "t = pad_int 2 (dt_hour d) @ CHR '':'' # pad_int 2 (dt_minute d)
     @ CHR '':'' # pad_int 2 (dt_second d) @ iso_frac (dt_micro d)"
  define z where "z = (case dt_off d of None \<Rightarrow> [] | Some off \<Rightarrow> iso_off off)"
  define w where "w = t @ z"
  have plain: "\<forall>c \<in> set t. \<not> is_tz_start c"
    by (auto simp: t_def iso_frac_def) (auto simp: is_tz_start_def)
  have stop: "z = [] \<or> is_tz_start (hd z)"
    using iso_off_head by (cases "dt_off d") (simp_all add: z_def, metis list.sel(1))
  have tw: "takeWhile (\<lambda>c. \<not> is_tz_start c) w = t"
    using plain stop by (cases z) (auto simp: w_def takeWhile_append)
  have dw: "dropWhile (\<lambda>c. \<not> is_tz_start c) w = z"
    using plain stop by (cases z) (auto simp: w_def dropWhile_append)
  have tz: "scan_tz z = Some (dt_off d)"
  proof (cases "dt_off d")
    case None
    then show ?thesis by (simp add: z_def scan_tz_def)
  next
    case (Some off)
    with v show ?thesis by (simp add: z_def scan_tz_iso valid_dt_def)
  qed
  have hms: "scan_hms t = Some (dt_hour d, dt_minute d, dt_second d, dt_micro d)"
    using v by (simp add: valid_dt_def t_def)
  have dim: "dt_day d < 100"
    using v days_in_month_def [of "dt_year d" "dt_month d"] by (auto simp: valid_dt_def split: if_splits)
  have "isoformat d = pad_int 4 (dt_year d) @ CHR ''-'' # pad_int 2 (dt_month d) @ CHR ''-''
      # pad_int 2 (dt_day d) @ CHR ''T'' # w"
    by (simp add: isoformat_def w_def t_def z_def)
  moreover have "w \<noteq> []" by (simp add: w_def t_def)
  moreover have "0 \<le> dt_year d" "dt_year d < 10 ^ 4" "0 \<le> dt_month d" "dt_month d < 10 ^ 2"
    "0 \<le> dt_day d" "dt_day d < 10 ^ 2" using v dim by (simp_all add: valid_dt_def)
  ultimately show ?thesis
    using v by (simp add: fromisoformat_def tw dw tz hms Let_def) (simp add: valid_dt_def)
qed

interpretation iso: codec isoformat fromisoformat valid_dt
  by unfold_locales (rule fromisoformat_isoformat)

lemma fromisoformat_valid: "fromisoformat s = Some d \<Longrightarrow> valid_dt d"
  by (auto simp: fromisoformat_def Let_def split: bind_splits if_splits prod.splits)

end
