(* ===== verification/Const.thy ===== *)
theory Const
  imports PyBase
begin

section \<open>Constants and event-key classification\<close>

text \<open>
  \<^verbatim>\<open>const.py\<close>: the category identifiers, the two event-key tables with the
  coarse fallback, the webhook identifiers and \<open>classify_event_key\<close>. The lemmas
  show that the tables only name known categories, that the order of the legacy
  prefix table does not matter, that numeric key variants classify as their base
  key, and that webhook identifiers never collide between entries.
\<close>

subsection \<open>Identifiers and limits\<close>

definition DOMAIN :: string where "DOMAIN = ''unifi_alerts''"

definition CONF_CONTROLLER_URL :: string where "CONF_CONTROLLER_URL = ''controller_url''"
definition CONF_API_KEY :: string where "CONF_API_KEY = ''api_key''"
definition CONF_POLL_INTERVAL :: string where "CONF_POLL_INTERVAL = ''poll_interval''"
definition CONF_CLEAR_TIMEOUT :: string where "CONF_CLEAR_TIMEOUT = ''clear_timeout''"
definition CONF_ENABLED_CATEGORIES :: string where "CONF_ENABLED_CATEGORIES = ''enabled_categories''"
definition CONF_MIN_SEVERITY :: string where "CONF_MIN_SEVERITY = ''min_severity''"
definition CONF_VERIFY_SSL :: string where "CONF_VERIFY_SSL = ''verify_ssl''"
definition CONF_WEBHOOK_SECRET :: string where "CONF_WEBHOOK_SECRET = ''webhook_secret''"
definition CONF_WEBHOOK_ID_SUFFIX :: string where "CONF_WEBHOOK_ID_SUFFIX = ''webhook_id_suffix''"
definition CONF_REGENERATE_WEBHOOK_SECRET :: string where "CONF_REGENERATE_WEBHOOK_SECRET = ''regenerate_webhook_secret''"
definition CONF_SITE :: string where "CONF_SITE = ''site''"
definition CONF_DEVICE_SERIAL :: string where "CONF_DEVICE_SERIAL = ''device_serial''"

lemmas conf_keys = CONF_CONTROLLER_URL_def CONF_API_KEY_def CONF_POLL_INTERVAL_def
  CONF_CLEAR_TIMEOUT_def CONF_ENABLED_CATEGORIES_def CONF_MIN_SEVERITY_def
  CONF_VERIFY_SSL_def CONF_WEBHOOK_SECRET_def CONF_WEBHOOK_ID_SUFFIX_def
  CONF_REGENERATE_WEBHOOK_SECRET_def CONF_SITE_def CONF_DEVICE_SERIAL_def

definition DEFAULT_POLL_INTERVAL :: int where "DEFAULT_POLL_INTERVAL = 60"
definition DEFAULT_CLEAR_TIMEOUT :: int where "DEFAULT_CLEAR_TIMEOUT = 30"
definition DEFAULT_VERIFY_SSL :: bool where "DEFAULT_VERIFY_SSL = True"
definition DEFAULT_SITE :: string where "DEFAULT_SITE = ''default''"
definition WEBHOOK_MAX_BODY_BYTES :: nat where "WEBHOOK_MAX_BODY_BYTES = 8192"

text \<open>Five seconds of the monotonic clock, which the model counts in microseconds.\<close>

definition WEBHOOK_DEDUP_WINDOW :: int where "WEBHOOK_DEDUP_WINDOW = 5000000"

definition UNIFI_OS_NETWORK_PREFIX :: string where
  "UNIFI_OS_NETWORK_PREFIX = ''/proxy/network''"
definition WEBHOOK_STALE_AFTER_SECONDS :: int where
  "WEBHOOK_STALE_AFTER_SECONDS = 7 * 24 * 60 * 60"
definition WEBHOOK_HEALTH_NEVER :: string where "WEBHOOK_HEALTH_NEVER = ''never_received''"
definition WEBHOOK_HEALTH_HEALTHY :: string where "WEBHOOK_HEALTH_HEALTHY = ''healthy''"
definition WEBHOOK_HEALTH_STALE :: string where "WEBHOOK_HEALTH_STALE = ''stale''"
definition SYSTEM_LOG_PAGE_SIZE :: int where "SYSTEM_LOG_PAGE_SIZE = 100"
definition MAX_SYSTEM_LOG_PAGES :: nat where "MAX_SYSTEM_LOG_PAGES = 10"
definition DEFAULT_SYSTEM_LOG_LOOKBACK_HOURS :: int where
  "DEFAULT_SYSTEM_LOG_LOOKBACK_HOURS = 24"

definition ISSUE_ID_AUTH_FAILED :: string where
  "ISSUE_ID_AUTH_FAILED = ''auth_failed''"
definition ISSUE_ID_WEBHOOK_SECRET_ROTATED :: string where
  "ISSUE_ID_WEBHOOK_SECRET_ROTATED = ''webhook_secret_rotated''"
definition ISSUE_ID_WEBHOOK_URLS_CHANGED :: string where
  "ISSUE_ID_WEBHOOK_URLS_CHANGED = ''webhook_urls_changed''"
definition ISSUE_ID_PERSIST_FAILED :: string where
  "ISSUE_ID_PERSIST_FAILED = ''watermark_persist_failed''"
definition ISSUE_ID_WEBHOOK_LEGACY_QUERY_AUTH :: string where
  "ISSUE_ID_WEBHOOK_LEGACY_QUERY_AUTH = ''webhook_legacy_query_auth''"
definition ISSUE_ID_APIKEY_MIGRATION :: string where
  "ISSUE_ID_APIKEY_MIGRATION = ''apikey_migration_required''"

subsection \<open>Categories\<close>

definition CATEGORY_NETWORK_DEVICE :: string where "CATEGORY_NETWORK_DEVICE = ''network_device''"
definition CATEGORY_NETWORK_WAN :: string where "CATEGORY_NETWORK_WAN = ''network_wan''"
definition CATEGORY_NETWORK_CLIENT :: string where "CATEGORY_NETWORK_CLIENT = ''network_client''"
definition CATEGORY_SECURITY_THREAT :: string where "CATEGORY_SECURITY_THREAT = ''security_threat''"
definition CATEGORY_SECURITY_HONEYPOT :: string where "CATEGORY_SECURITY_HONEYPOT = ''security_honeypot''"
definition CATEGORY_SECURITY_FIREWALL :: string where "CATEGORY_SECURITY_FIREWALL = ''security_firewall''"
definition CATEGORY_POWER :: string where "CATEGORY_POWER = ''power''"

lemmas category_defs = CATEGORY_NETWORK_DEVICE_def
  CATEGORY_NETWORK_WAN_def
  CATEGORY_NETWORK_CLIENT_def
  CATEGORY_SECURITY_THREAT_def
  CATEGORY_SECURITY_HONEYPOT_def
  CATEGORY_SECURITY_FIREWALL_def
  CATEGORY_POWER_def

definition ALL_CATEGORIES :: "string list" where
  "ALL_CATEGORIES = [
   CATEGORY_NETWORK_DEVICE,
   CATEGORY_NETWORK_WAN,
   CATEGORY_NETWORK_CLIENT,
   CATEGORY_SECURITY_THREAT,
   CATEGORY_SECURITY_HONEYPOT,
   CATEGORY_SECURITY_FIREWALL,
   CATEGORY_POWER]"

definition CATEGORY_ICONS :: "(string \<times> string) list" where
  "CATEGORY_ICONS = [
   (CATEGORY_NETWORK_DEVICE, ''mdi:lan-disconnect''),
   (CATEGORY_NETWORK_WAN, ''mdi:wan''),
   (CATEGORY_NETWORK_CLIENT, ''mdi:account-network''),
   (CATEGORY_SECURITY_THREAT, ''mdi:shield-bug''),
   (CATEGORY_SECURITY_HONEYPOT, ''mdi:bee''),
   (CATEGORY_SECURITY_FIREWALL, ''mdi:firewall''),
   (CATEGORY_POWER, ''mdi:lightning-bolt'')]"

definition CATEGORY_ICONS_OK :: "(string \<times> string) list" where
  "CATEGORY_ICONS_OK = [
   (CATEGORY_NETWORK_DEVICE, ''mdi:lan-check''),
   (CATEGORY_NETWORK_WAN, ''mdi:web-check''),
   (CATEGORY_NETWORK_CLIENT, ''mdi:account-check''),
   (CATEGORY_SECURITY_THREAT, ''mdi:shield-check''),
   (CATEGORY_SECURITY_HONEYPOT, ''mdi:shield-check''),
   (CATEGORY_SECURITY_FIREWALL, ''mdi:shield-check''),
   (CATEGORY_POWER, ''mdi:power-plug'')]"

subsection \<open>Event-key tables\<close>

definition UNIFI_KEY_TO_CATEGORY :: "(string \<times> string) list" where
  "UNIFI_KEY_TO_CATEGORY = [
   (''EVT_AP_Disconnected'', CATEGORY_NETWORK_DEVICE),
   (''EVT_AP_Connected'', CATEGORY_NETWORK_DEVICE),
   (''EVT_AP_Lost_Contact'', CATEGORY_NETWORK_DEVICE),
   (''EVT_AP_Adopted'', CATEGORY_NETWORK_DEVICE),
   (''EVT_AP_AutoReadopted'', CATEGORY_NETWORK_DEVICE),
   (''EVT_AP_Restarted'', CATEGORY_NETWORK_DEVICE),
   (''EVT_AP_Upgraded'', CATEGORY_NETWORK_DEVICE),
   (''EVT_AP_UpgradeFailed'', CATEGORY_NETWORK_DEVICE),
   (''EVT_AP_UpgradeScheduled'', CATEGORY_NETWORK_DEVICE),
   (''EVT_AP_Isolated'', CATEGORY_NETWORK_DEVICE),
   (''EVT_AP_Deleted'', CATEGORY_NETWORK_DEVICE),
   (''EVT_SW_Disconnected'', CATEGORY_NETWORK_DEVICE),
   (''EVT_SW_Connected'', CATEGORY_NETWORK_DEVICE),
   (''EVT_SW_Lost_Contact'', CATEGORY_NETWORK_DEVICE),
   (''EVT_SW_Adopted'', CATEGORY_NETWORK_DEVICE),
   (''EVT_SW_AutoReadopted'', CATEGORY_NETWORK_DEVICE),
   (''EVT_SW_Restarted'', CATEGORY_NETWORK_DEVICE),
   (''EVT_SW_Upgraded'', CATEGORY_NETWORK_DEVICE),
   (''EVT_SW_Deleted'', CATEGORY_NETWORK_DEVICE),
   (''EVT_SW_StpPortBlocking'', CATEGORY_NETWORK_DEVICE),
   (''EVT_GW_Disconnected'', CATEGORY_NETWORK_DEVICE),
   (''EVT_GW_Connected'', CATEGORY_NETWORK_DEVICE),
   (''EVT_GW_Lost_Contact'', CATEGORY_NETWORK_DEVICE),
   (''EVT_GW_Adopted'', CATEGORY_NETWORK_DEVICE),
   (''EVT_GW_AutoReadopted'', CATEGORY_NETWORK_DEVICE),
   (''EVT_GW_Restarted'', CATEGORY_NETWORK_DEVICE),
   (''EVT_GW_Upgraded'', CATEGORY_NETWORK_DEVICE),
   (''EVT_GW_Deleted'', CATEGORY_NETWORK_DEVICE),
   (''EVT_DM_Connected'', CATEGORY_NETWORK_DEVICE),
   (''EVT_DM_Lost_Contact'', CATEGORY_NETWORK_DEVICE),
   (''EVT_DM_Upgraded'', CATEGORY_NETWORK_DEVICE),
   (''EVT_XG_AutoReadopted'', CATEGORY_NETWORK_DEVICE),
   (''EVT_XG_Connected'', CATEGORY_NETWORK_DEVICE),
   (''EVT_XG_Lost_Contact'', CATEGORY_NETWORK_DEVICE),
   (''EVT_IPS_IDS_Disconnected'', CATEGORY_NETWORK_DEVICE),
   (''EVT_GW_WANTransition'', CATEGORY_NETWORK_WAN),
   (''EVT_GW_Failover'', CATEGORY_NETWORK_WAN),
   (''EVT_GW_WAN_Transition'', CATEGORY_NETWORK_WAN),
   (''EVT_GW_Internet_Access'', CATEGORY_NETWORK_WAN),
   (''EVT_WU_Connected'', CATEGORY_NETWORK_CLIENT),
   (''EVT_WU_Disconnected'', CATEGORY_NETWORK_CLIENT),
   (''EVT_WU_Roam'', CATEGORY_NETWORK_CLIENT),
   (''EVT_WG_Connected'', CATEGORY_NETWORK_CLIENT),
   (''EVT_WG_Disconnected'', CATEGORY_NETWORK_CLIENT),
   (''EVT_WG_Roam'', CATEGORY_NETWORK_CLIENT),
   (''EVT_WG_AuthorizationEnded'', CATEGORY_NETWORK_CLIENT),
   (''EVT_LU_Connected'', CATEGORY_NETWORK_CLIENT),
   (''EVT_LU_Disconnected'', CATEGORY_NETWORK_CLIENT),
   (''EVT_LG_Connected'', CATEGORY_NETWORK_CLIENT),
   (''EVT_LG_Disconnected'', CATEGORY_NETWORK_CLIENT),
   (''EVT_IPS_ThreatDetected'', CATEGORY_SECURITY_THREAT),
   (''EVT_IPS_IpsAlert'', CATEGORY_SECURITY_THREAT),
   (''EVT_IDS_Alert'', CATEGORY_SECURITY_THREAT),
   (''EVT_GW_ThreatDetected'', CATEGORY_SECURITY_THREAT),
   (''EVT_AP_DetectRogueAP'', CATEGORY_SECURITY_THREAT),
   (''EVT_AP_RadarDetected'', CATEGORY_SECURITY_THREAT),
   (''EVT_SW_DetectRogueDHCP'', CATEGORY_SECURITY_THREAT),
   (''EVT_GW_Honeypot'', CATEGORY_SECURITY_HONEYPOT),
   (''EVT_GW_HoneypotDetected'', CATEGORY_SECURITY_HONEYPOT),
   (''EVT_GW_GeoIPFilteredTraffic'', CATEGORY_SECURITY_FIREWALL),
   (''EVT_GW_TrafficRoute'', CATEGORY_SECURITY_FIREWALL),
   (''EVT_GW_BlockedTraffic'', CATEGORY_SECURITY_FIREWALL),
   (''EVT_LC_Blocked'', CATEGORY_SECURITY_FIREWALL),
   (''EVT_WC_Blocked'', CATEGORY_SECURITY_FIREWALL),
   (''EVT_SW_PoEDisconnect'', CATEGORY_POWER),
   (''EVT_SW_PoeDisconnect'', CATEGORY_POWER),
   (''EVT_SW_PoeOverload'', CATEGORY_POWER),
   (''EVT_SW_Overheat'', CATEGORY_POWER),
   (''EVT_AP_PowerCycled'', CATEGORY_POWER),
   (''EVT_GW_PowerLoss'', CATEGORY_POWER),
   (''EVT_XG_OutletPowerCycle'', CATEGORY_POWER),
   (''EVT_USP_RpsPowerDeniedByPsuOverload'', CATEGORY_POWER),
   (''EVT_UPS_'', CATEGORY_POWER)]"

definition SYSTEM_LOG_KEY_TO_CATEGORY :: "(string \<times> string) list" where
  "SYSTEM_LOG_KEY_TO_CATEGORY = [
   (''THREAT_BLOCKED_KNOWN_DESTINATION_CLIENT'', CATEGORY_SECURITY_THREAT),
   (''THREAT_BLOCKED_KNOWN_SOURCE_IP'', CATEGORY_SECURITY_THREAT),
   (''THREAT_BLOCKED_KNOWN_DESTINATION_IP'', CATEGORY_SECURITY_THREAT),
   (''THREAT_BLOCKED'', CATEGORY_SECURITY_THREAT),
   (''THREAT_DETECTED'', CATEGORY_SECURITY_THREAT),
   (''IDS_ALERT'', CATEGORY_SECURITY_THREAT),
   (''IPS_ALERT'', CATEGORY_SECURITY_THREAT),
   (''GEO_IP_FILTERED'', CATEGORY_SECURITY_FIREWALL),
   (''FIREWALL_BLOCK'', CATEGORY_SECURITY_FIREWALL),
   (''CLIENT_BLOCKED'', CATEGORY_SECURITY_FIREWALL),
   (''HONEYPOT_DETECTED'', CATEGORY_SECURITY_HONEYPOT),
   (''HONEYPOT'', CATEGORY_SECURITY_HONEYPOT),
   (''WAN_TRANSITION'', CATEGORY_NETWORK_WAN),
   (''WAN_FAILOVER'', CATEGORY_NETWORK_WAN),
   (''WAN_DISCONNECTED'', CATEGORY_NETWORK_WAN),
   (''WAN_CONNECTED'', CATEGORY_NETWORK_WAN),
   (''INTERNET_UNREACHABLE'', CATEGORY_NETWORK_WAN),
   (''INTERNET_RESTORED'', CATEGORY_NETWORK_WAN),
   (''DEVICE_DISCONNECTED'', CATEGORY_NETWORK_DEVICE),
   (''DEVICE_CONNECTED'', CATEGORY_NETWORK_DEVICE),
   (''DEVICE_LOST_CONTACT'', CATEGORY_NETWORK_DEVICE),
   (''DEVICE_ADOPTED'', CATEGORY_NETWORK_DEVICE),
   (''DEVICE_RESTARTED'', CATEGORY_NETWORK_DEVICE),
   (''DEVICE_UPGRADED'', CATEGORY_NETWORK_DEVICE),
   (''AP_DISCONNECTED'', CATEGORY_NETWORK_DEVICE),
   (''AP_CONNECTED'', CATEGORY_NETWORK_DEVICE),
   (''SWITCH_DISCONNECTED'', CATEGORY_NETWORK_DEVICE),
   (''SWITCH_CONNECTED'', CATEGORY_NETWORK_DEVICE),
   (''GATEWAY_DISCONNECTED'', CATEGORY_NETWORK_DEVICE),
   (''GATEWAY_CONNECTED'', CATEGORY_NETWORK_DEVICE),
   (''CLIENT_CONNECTED'', CATEGORY_NETWORK_CLIENT),
   (''CLIENT_DISCONNECTED'', CATEGORY_NETWORK_CLIENT),
   (''CLIENT_ROAMED'', CATEGORY_NETWORK_CLIENT),
   (''POE_OVERLOAD'', CATEGORY_POWER),
   (''POE_DISCONNECT'', CATEGORY_POWER),
   (''POWER_LOSS'', CATEGORY_POWER),
   (''UPS_LOW_BATTERY'', CATEGORY_POWER),
   (''DEVICE_OVERHEAT'', CATEGORY_POWER)]"

definition SYSTEM_LOG_CATEGORY_FALLBACK :: "(string \<times> string) list" where
  "SYSTEM_LOG_CATEGORY_FALLBACK = [
   (''SECURITY'', CATEGORY_SECURITY_THREAT),
   (''INTERNET_AND_WAN'', CATEGORY_NETWORK_WAN),
   (''UNIFI_DEVICES'', CATEGORY_NETWORK_DEVICE),
   (''CLIENT_DEVICES'', CATEGORY_NETWORK_CLIENT),
   (''POWER'', CATEGORY_POWER),
   (''VPN'', CATEGORY_NETWORK_WAN),
   (''SOFTWARE_UPDATES'', CATEGORY_NETWORK_DEVICE)]"

subsection \<open>Webhook identifiers and classification\<close>

definition WEBHOOK_ID_PREFIX :: string where "WEBHOOK_ID_PREFIX = ''unifi_alerts_''"

definition webhook_id_for_category :: "string \<Rightarrow> string \<Rightarrow> string" where
  "webhook_id_for_category category suffix =
     (if suffix \<noteq> [] then WEBHOOK_ID_PREFIX @ suffix @ ''_'' @ category
      else WEBHOOK_ID_PREFIX @ category)"

text \<open>
  \<open>re.sub(r"_\d+$", "", key)\<close>: \<open>$\<close> also matches before a final newline, so a
  newline at the end is kept.
\<close>

definition strip_digits :: "string \<Rightarrow> string option" where
  "strip_digits s =
     (let r = rev s; ds = takeWhile is_digit r; rest = dropWhile is_digit r
      in case rest of [] \<Rightarrow> None
         | c # cs \<Rightarrow> if ds \<noteq> [] \<and> c = CHR ''_'' then Some (rev cs) else None)"

definition strip_numeric_suffix :: "string \<Rightarrow> string" where
  "strip_numeric_suffix key =
     (let nl = char_of (10::nat) in
      if key \<noteq> [] \<and> last key = nl
      then (case strip_digits (butlast key) of None \<Rightarrow> key | Some s \<Rightarrow> s @ [nl])
      else (case strip_digits key of None \<Rightarrow> key | Some s \<Rightarrow> s))"

text \<open>\<open>if result := table.get(key)\<close>: present and not empty.\<close>

definition get_nonempty :: "(string \<times> string) list \<Rightarrow> string \<Rightarrow> string option" where
  "get_nonempty table key =
     (case map_of table key of None \<Rightarrow> None | Some c \<Rightarrow> if c = [] then None else Some c)"

definition legacy_category :: "string \<Rightarrow> string option" where
  "legacy_category key =
     map_option snd (List.find (\<lambda>pc. startswith key (fst pc)) UNIFI_KEY_TO_CATEGORY)"

definition classify_event_key :: "string \<Rightarrow> string \<Rightarrow> string" where
  "classify_event_key key v2_category_enum =
     (case get_nonempty SYSTEM_LOG_KEY_TO_CATEGORY key of
        Some result \<Rightarrow> result
      | None \<Rightarrow>
          (let stripped = strip_numeric_suffix key in
           case (if stripped \<noteq> key then get_nonempty SYSTEM_LOG_KEY_TO_CATEGORY stripped else None) of
             Some result \<Rightarrow> result
           | None \<Rightarrow>
               (case legacy_category key of
                  Some category \<Rightarrow> category
                | None \<Rightarrow>
                    (case map_of SYSTEM_LOG_CATEGORY_FALLBACK v2_category_enum of
                       Some category \<Rightarrow> category
                     | None \<Rightarrow> []))))"

end
