(* ===== verification/Severity.thy ===== *)
theory Severity
  imports Const
begin

section \<open>Severity normalisation and the minimum-severity gate\<close>

text \<open>
  \<^verbatim>\<open>severity.py\<close>: the ordered severity levels, \<open>normalize_severity\<close>,
  \<open>meets_minimum\<close> (which raises \<^verbatim>\<open>ValueError\<close> out of \<^verbatim>\<open>list.index\<close> for a
  level outside the order) and \<open>get_effective_min_severity\<close>, which reads the
  stored setting out of the entry's configuration whatever its shape. The lemmas
  show that the two resolvers only produce values the comparison accepts, so the
  gate never raises, that it fails open, and that raising the minimum only
  removes alerts.
\<close>

definition SEVERITY_LOW :: string where "SEVERITY_LOW = ''LOW''"
definition SEVERITY_MEDIUM :: string where "SEVERITY_MEDIUM = ''MEDIUM''"
definition SEVERITY_HIGH :: string where "SEVERITY_HIGH = ''HIGH''"
definition SEVERITY_VERY_HIGH :: string where "SEVERITY_VERY_HIGH = ''VERY_HIGH''"

definition SEVERITY_ORDER :: "string list" where
  "SEVERITY_ORDER = [SEVERITY_LOW, SEVERITY_MEDIUM, SEVERITY_HIGH, SEVERITY_VERY_HIGH]"

definition SEVERITY_UNKNOWN :: string where "SEVERITY_UNKNOWN = ''UNKNOWN''"
definition MIN_SEVERITY_NO_FILTER :: string where "MIN_SEVERITY_NO_FILTER = ''no_filter''"

definition MIN_SEVERITY_ORDER :: "string list" where
  "MIN_SEVERITY_ORDER = MIN_SEVERITY_NO_FILTER # SEVERITY_ORDER"

lemmas severity_defs = SEVERITY_LOW_def SEVERITY_MEDIUM_def SEVERITY_HIGH_def
  SEVERITY_VERY_HIGH_def SEVERITY_UNKNOWN_def MIN_SEVERITY_NO_FILTER_def

definition CANONICAL_LOOKUP :: "(string \<times> string) list" where
  "CANONICAL_LOOKUP = map (\<lambda>level. (lower level, level)) SEVERITY_ORDER"

definition normalize_severity :: "string \<Rightarrow> string" where
  "normalize_severity raw =
     (let key = lower (strip raw)
      in case map_of CANONICAL_LOOKUP key of Some level \<Rightarrow> level | None \<Rightarrow> SEVERITY_UNKNOWN)"

text \<open>\<open>xs.index(x)\<close>.\<close>

fun list_index :: "'a list \<Rightarrow> 'a \<Rightarrow> exn + nat" where
  "list_index [] x = Inl ValueError"
| "list_index (y # ys) x =
     (if y = x then Inr 0 else bindE (list_index ys x) (\<lambda>i. Inr (Suc i)))"

definition meets_minimum :: "string \<Rightarrow> string \<Rightarrow> exn + bool" where
  "meets_minimum severity_level minimum =
     (if minimum = MIN_SEVERITY_NO_FILTER \<or> severity_level = SEVERITY_UNKNOWN then Inr True
      else bindE (list_index SEVERITY_ORDER severity_level) (\<lambda>severity_index.
           bindE (list_index SEVERITY_ORDER minimum) (\<lambda>minimum_index.
           Inr (severity_index \<ge> minimum_index))))"

definition get_effective_min_severity :: "dict \<Rightarrow> string \<Rightarrow> string" where
  "get_effective_min_severity config category =
     (let min_severity_map = (case dget config CONF_MIN_SEVERITY (PDict []) of
            PDict m \<Rightarrow> m | _ \<Rightarrow> []);
          resolved = dget min_severity_map category (PStr MIN_SEVERITY_NO_FILTER)
      in case resolved of
           PStr s \<Rightarrow> if s \<in> set MIN_SEVERITY_ORDER then s else MIN_SEVERITY_NO_FILTER
         | _ \<Rightarrow> MIN_SEVERITY_NO_FILTER)"

subsection \<open>The gate\<close>

text \<open>
  What a caller of the gate relies on: levels and minima come from fixed sets on
  which the comparison is defined, and a rank orders them.
\<close>

locale severity_gate =
  fixes level :: "'a \<Rightarrow> 'l" and minimum :: "'c \<Rightarrow> 'l" and passes :: "'l \<Rightarrow> 'l \<Rightarrow> exn + bool"
    and lrank :: "'l \<Rightarrow> nat option" and mrank :: "'l \<Rightarrow> nat"
  assumes passes_rank:
    "passes (level a) (minimum c) = Inr (case lrank (level a) of
        None \<Rightarrow> True | Some n \<Rightarrow> n \<ge> mrank (minimum c))"
begin

lemma gate_total: "\<exists>b. passes (level a) (minimum c) = Inr b"
  by (simp add: passes_rank)

lemma gate_unknown: "lrank (level a) = None \<Longrightarrow> passes (level a) (minimum c) = Inr True"
  by (simp add: passes_rank)

lemma gate_antimono:
  "passes (level a) (minimum c) = Inr True \<Longrightarrow> mrank (minimum d) \<le> mrank (minimum c)
     \<Longrightarrow> passes (level a) (minimum d) = Inr True"
  by (auto simp: passes_rank split: option.splits)

lemma gate_mono:
  "passes (level a) (minimum c) = Inr True \<Longrightarrow> lrank (level a) = Some m \<Longrightarrow> lrank (level b) = Some n
     \<Longrightarrow> m \<le> n \<Longrightarrow> passes (level b) (minimum c) = Inr True"
  by (auto simp: passes_rank split: option.splits)

end

definition severity_rank :: "string \<Rightarrow> nat option" where
  "severity_rank s = map_of (zip SEVERITY_ORDER [0..<length SEVERITY_ORDER]) s"

text \<open>A minimum's rank: no filter and LOW both admit every level.\<close>

definition minimum_rank :: "string \<Rightarrow> nat" where
  "minimum_rank s = (case severity_rank s of None \<Rightarrow> 0 | Some n \<Rightarrow> n)"

lemma severity_order_distinct: "distinct MIN_SEVERITY_ORDER"
  by code_simp

lemma unknown_not_in_order: "SEVERITY_UNKNOWN \<notin> set MIN_SEVERITY_ORDER"
  by code_simp

lemma list_index_rank:
  "list_index SEVERITY_ORDER s = (case severity_rank s of None \<Rightarrow> Inl ValueError | Some n \<Rightarrow> Inr n)"
  by (simp add: SEVERITY_ORDER_def severity_rank_def severity_defs upt_conv_Cons)

lemma severity_rank_in: "severity_rank s = None \<longleftrightarrow> s \<notin> set SEVERITY_ORDER"
  by (auto simp: SEVERITY_ORDER_def severity_rank_def severity_defs upt_conv_Cons)

lemma normalize_range: "normalize_severity raw \<in> insert SEVERITY_UNKNOWN (set SEVERITY_ORDER)"
proof (cases "map_of CANONICAL_LOOKUP (lower (strip raw))")
  case (Some l)
  then have "(lower (strip raw), l) \<in> set CANONICAL_LOOKUP" by (rule map_of_SomeD)
  then have "l \<in> set SEVERITY_ORDER" by (auto simp: CANONICAL_LOOKUP_def)
  with Some show ?thesis by (simp add: normalize_severity_def)
qed (simp add: normalize_severity_def)

lemma effective_range: "get_effective_min_severity config category \<in> set MIN_SEVERITY_ORDER"
  by (auto simp: get_effective_min_severity_def MIN_SEVERITY_ORDER_def Let_def split: pyval.splits)

lemma meets_minimum_rank:
  assumes "l \<in> insert SEVERITY_UNKNOWN (set SEVERITY_ORDER)" "m \<in> set MIN_SEVERITY_ORDER"
  shows "meets_minimum l m = Inr (case severity_rank l of None \<Rightarrow> True | Some n \<Rightarrow> n \<ge> minimum_rank m)"
proof (cases "m = MIN_SEVERITY_NO_FILTER")
  case True
  moreover have "severity_rank MIN_SEVERITY_NO_FILTER = None"
    using severity_order_distinct by (simp add: severity_rank_in MIN_SEVERITY_ORDER_def)
  ultimately show ?thesis by (auto simp: meets_minimum_def minimum_rank_def split: option.split)
next
  case False
  with assms(2) have "severity_rank m \<noteq> None" by (simp add: severity_rank_in MIN_SEVERITY_ORDER_def)
  moreover have "severity_rank SEVERITY_UNKNOWN = None"
    using unknown_not_in_order by (simp add: severity_rank_in MIN_SEVERITY_ORDER_def)
  moreover have "severity_rank l \<noteq> None" if "l \<noteq> SEVERITY_UNKNOWN"
    using assms(1) that by (simp add: severity_rank_in)
  ultimately show ?thesis
    using False
    by (cases "l = SEVERITY_UNKNOWN")
      (auto simp: meets_minimum_def list_index_rank minimum_rank_def split: option.splits)
qed

interpretation gate: severity_gate normalize_severity
  "\<lambda>(config, category). get_effective_min_severity config category" meets_minimum
  severity_rank minimum_rank
  by unfold_locales (auto intro!: meets_minimum_rank normalize_range effective_range)

lemma gate_total_at:
  "\<exists>b. meets_minimum (normalize_severity raw) (get_effective_min_severity config category) = Inr b"
  using gate.gate_total [of raw "(config, category)"] by simp

text \<open>The minimum-severity gate is total on what its callers pass: whatever severity text an
  alert carries and whatever the stored configuration holds, \<^verbatim>\<open>meets_minimum\<close> does not raise, it
  admits an alert of unknown severity or of a category without a usable setting, and otherwise
  compares the positions in \<^verbatim>\<open>SEVERITY_ORDER\<close>.\<close>

theorem severity_gate_decides:
  "meets_minimum (normalize_severity raw) (get_effective_min_severity config category)
     = Inr (case severity_rank (normalize_severity raw) of None \<Rightarrow> True
            | Some n \<Rightarrow> n \<ge> minimum_rank (get_effective_min_severity config category))"
  by (rule gate.passes_rank [of raw "(config, category)", unfolded prod.case])

text \<open>Normalisation ignores case and outer whitespace, and a canonical level is its own
  normal form.\<close>

theorem normalize_severity_canonical:
  "normalize_severity (lower raw) = normalize_severity raw \<and>
   normalize_severity (strip raw) = normalize_severity raw \<and>
   list_all (\<lambda>l. normalize_severity l = l) SEVERITY_ORDER"
proof -
  have sp: "is_space (lower_char c) = is_space c" for c
    using nat_of_char_less_256 [of c] by (auto simp: is_space_def lower_char_def Let_def)
  have dw: "dropWhile is_space (map lower_char s) = map lower_char (dropWhile is_space s)" for s
    by (induction s) (auto simp: sp)
  have "strip (lower raw) = lower (strip raw)"
    by (simp add: strip_def lower_def dw rev_map)
  moreover have "list_all (\<lambda>l. normalize_severity l = l) SEVERITY_ORDER"
    by code_simp
  ultimately show ?thesis by (simp add: normalize_severity_def)
qed

end
