(* ===== verification/Models.thy ===== *)
theory Models
  imports PyTime Severity
begin

section \<open>Alerts and category state\<close>

text \<open>
  \<^verbatim>\<open>models.py\<close>: the \<open>UniFiAlert\<close> record with its four constructors
  (\<^verbatim>\<open>from_webhook_payload\<close>, \<^verbatim>\<open>from_api_alarm\<close>, \<^verbatim>\<open>from_system_log_event\<close>,
  \<^verbatim>\<open>from_dict\<close>), \<^verbatim>\<open>to_dict\<close>, the template renderer, and the \<open>CategoryState\<close>
  record with its operations. The host clock (\<^verbatim>\<open>datetime.now(UTC)\<close>) is an argument
  \<open>now\<close>. The text fields of an alert are \<open>pyval\<close>s, because \<^verbatim>\<open>from_dict\<close>
  takes over whatever the stored dictionary holds. The lemmas give the length
  bounds, the exceptions each constructor can raise, the storage round trip and the
  invariants of the category state.
\<close>

record UniFiAlert =
  al_category :: pyval
  al_message :: pyval
  al_received_at :: pydatetime
  al_raw :: pyval
  al_key :: pyval
  al_device_name :: pyval
  al_site :: pyval
  al_severity :: string

definition severity_level :: "UniFiAlert \<Rightarrow> string" where
  "severity_level a = normalize_severity (al_severity a)"

subsection \<open>Rendering a message template\<close>

text \<open>
  \<open>re.sub(r"\{([^{}]+)\}", _replace, message_raw)\<close>: one left-to-right pass; at an
  opening brace the token runs to the next brace, and only a closing one makes a match.
\<close>

definition not_brace :: "char \<Rightarrow> bool" where
  "not_brace c \<longleftrightarrow> c \<noteq> CHR 0x7B \<and> c \<noteq> CHR 0x7D"

function sub_tokens :: "(string \<Rightarrow> string) \<Rightarrow> string \<Rightarrow> string" where
  "sub_tokens f [] = []"
| "sub_tokens f (c # cs) =
     (if c = CHR 0x7B then
        (case dropWhile not_brace cs of
           [] \<Rightarrow> c # sub_tokens f cs
         | d # rest \<Rightarrow>
             if d = CHR 0x7D \<and> takeWhile not_brace cs \<noteq> []
             then f (takeWhile not_brace cs) @ sub_tokens f rest
             else c # sub_tokens f cs)
      else c # sub_tokens f cs)"
  by pat_completeness auto
termination
proof (relation "measure (length \<circ> snd)", goal_cases)
  case (3 f c cs d rest)
  then have "length (d # rest) \<le> length cs"
    by (metis length_dropWhile_le)
  then show ?case by simp
qed auto

definition display_value :: "string \<Rightarrow> pyval \<Rightarrow> string" where
  "display_value key value = (case value of
       PDict d \<Rightarrow> py_str (py_or (py_or (dget d ''name'' PNone) (dget d ''id'' PNone)) (PStr key))
     | _ \<Rightarrow> py_str value)"

definition render_message_raw :: "pyval \<Rightarrow> pyval \<Rightarrow> exn + string" where
  "render_message_raw message_raw parameters = (case parameters of
       PDict ps \<Rightarrow>
         (let display = map (\<lambda>(key, value). (key, display_value key value)) ps;
              replace = (\<lambda>token. case map_of display token of
                 Some t \<Rightarrow> t | None \<Rightarrow> CHR 0x7B # token @ [CHR 0x7D])
          in case message_raw of
               PStr s \<Rightarrow> Inr (sub_tokens replace s)
             | _ \<Rightarrow> Inl TypeError)
     | _ \<Rightarrow> Inl AttributeError)"

subsection \<open>Constructors\<close>

definition from_webhook_payload ::
    "pydatetime \<Rightarrow> string \<Rightarrow> pyval \<Rightarrow> exn + UniFiAlert" where
  "from_webhook_payload now category payload = (case payload of
       PDict p \<Rightarrow>
         (let get = (\<lambda>k. dget p k PNone);
              message = py_or (py_or (py_or (py_or (get ''message'') (get ''msg'')) (get ''text''))
                               (get ''description'')) (PStr ''Unknown alert'')
          in Inr \<lparr> al_category = PStr category,
                   al_message = PStr (take 255 (py_str message)),
                   al_received_at = now,
                   al_raw = PDict [],
                   al_key = PStr (take 64 (py_str (dget p ''key'' (PStr [])))),
                   al_device_name = PStr (take 255 (py_str (py_or (py_or (py_or
                      (get ''device_name'') (get ''ap_name'')) (get ''sw_name'')) (PStr [])))),
                   al_site = PStr (py_str (py_or (py_or (get ''site_name'') (get ''site'')) (PStr []))),
                   al_severity = take 32 (py_str (py_or (py_or
                      (get ''severity'') (get ''subsystem'')) (PStr []))) \<rparr>)
     | _ \<Rightarrow> Inl AttributeError)"

text \<open>
  The timestamp of a polled alarm: epoch milliseconds when \<^verbatim>\<open>int()\<close> accepts the
  value (an unrepresentable instant keeps \<open>now\<close>), otherwise an ISO string. Only
  \<^verbatim>\<open>ValueError\<close> and \<^verbatim>\<open>TypeError\<close> of \<^verbatim>\<open>int()\<close> are caught.
\<close>

definition api_alarm_time :: "pydatetime \<Rightarrow> pyval \<Rightarrow> exn + pydatetime" where
  "api_alarm_time now ts =
     (if ts = PNone then Inr now
      else case py_int ts of
        Inr epoch_ms \<Rightarrow> Inr (case from_ms epoch_ms of None \<Rightarrow> now | Some d \<Rightarrow> d)
      | Inl e \<Rightarrow>
          if e = ValueError \<or> e = TypeError
          then Inr (case fromisoformat (py_str ts) of None \<Rightarrow> now | Some d \<Rightarrow> d)
          else Inl e)"

definition from_api_alarm :: "pydatetime \<Rightarrow> string \<Rightarrow> pyval \<Rightarrow> exn + UniFiAlert" where
  "from_api_alarm now category alarm = (case alarm of
       PDict p \<Rightarrow>
         (let get = (\<lambda>k. dget p k PNone);
              message = py_or (py_or (py_or (get ''msg'') (get ''message'')) (get ''key''))
                          (PStr ''Unknown alert'');
              ts = py_or (get ''datetime'') (get ''timestamp'')
          in bindE (api_alarm_time now ts) (\<lambda>received_at.
             Inr \<lparr> al_category = PStr category,
                   al_message = PStr (take 255 (py_str message)),
                   al_received_at = received_at,
                   al_raw = PDict [],
                   al_key = PStr (take 64 (py_str (dget p ''key'' (PStr [])))),
                   al_device_name = PStr (take 255 (py_str (py_or (py_or
                      (get ''device_name'') (get ''ap_name'')) (PStr [])))),
                   al_site = PStr (py_str (py_or (get ''site_name'') (PStr []))),
                   al_severity = take 32 (py_str (py_or (py_or
                      (get ''severity'') (get ''subsystem'')) (PStr []))) \<rparr>))
     | _ \<Rightarrow> Inl AttributeError)"

text \<open>
  \<open>classify_event_key\<close> on a value of any type: a key that is no string is refused
  (by the dictionary lookup when it is unhashable, by \<^verbatim>\<open>re.sub\<close> otherwise), an enum
  that is no string is only looked up.
\<close>

definition classify_key :: "pyval \<Rightarrow> exn + string" where
  "classify_key key = (case key of PStr k \<Rightarrow> Inr (classify_event_key k []) | _ \<Rightarrow> Inl TypeError)"

definition classify_enum :: "pyval \<Rightarrow> exn + string" where
  "classify_enum enum = (case enum of
       PStr e \<Rightarrow> Inr (classify_event_key [] e)
     | PList _ \<Rightarrow> Inl TypeError
     | PDict _ \<Rightarrow> Inl TypeError
     | _ \<Rightarrow> Inr [])"

definition system_log_time :: "pydatetime \<Rightarrow> pyval \<Rightarrow> pydatetime" where
  "system_log_time now ts =
     (if ts = PNone then now
      else case py_int ts of
        Inr ms \<Rightarrow> (case from_ms ms of None \<Rightarrow> now | Some d \<Rightarrow> d)
      | Inl _ \<Rightarrow> now)"

text \<open>
  \<open>seen_keys\<close> is the caller's set (\<open>None\<close>: warn every time); the result carries the
  alert, the set afterwards and whether a warning was logged.
\<close>

definition from_system_log_event ::
    "pydatetime \<Rightarrow> pyval \<Rightarrow> string list option \<Rightarrow> exn + (UniFiAlert \<times> string list option \<times> bool)" where
  "from_system_log_event now payload seen_keys = (case payload of
       PDict p \<Rightarrow>
         (let get = (\<lambda>k. dget p k PNone);
              received_at = system_log_time now (get ''timestamp'');
              message_raw = dget p ''message_raw'' (PStr []);
              parameters = py_or (get ''parameters'') (PDict []);
              key = dget p ''key'' (PStr []);
              v2_category_enum = dget p ''category'' (PStr [])
          in bindE (if truthy message_raw
                    then bindE (render_message_raw message_raw parameters) (\<lambda>m. Inr (PStr m))
                    else Inr (py_or (py_or (get ''title_raw'') (get ''key'')) (PStr ''Unknown alert'')))
             (\<lambda>message.
             bindE (classify_key key) (\<lambda>key_category.
             bindE (classify_enum v2_category_enum) (\<lambda>enum_category.
             (let k = py_str key;
                  warn = (key_category = [] \<and> k \<noteq> []
                          \<and> (case seen_keys of None \<Rightarrow> True | Some seen \<Rightarrow> k \<notin> set seen))
              in Inr (\<lparr> al_category = PStr (if key_category \<noteq> [] then key_category else enum_category),
                        al_message = PStr (take 255 (py_str message)),
                        al_received_at = received_at,
                        al_raw = PDict [],
                        al_key = PStr (take 64 k),
                        al_device_name = PStr (take 255 (py_str (py_or (get ''device_name'') (PStr [])))),
                        al_site = PStr (py_str (py_or (py_or (get ''site_name'') (get ''site'')) (PStr []))),
                        al_severity = take 32 (py_str (py_or (get ''severity'') (PStr []))) \<rparr>,
                      (if warn then map_option (\<lambda>seen. seen @ [k]) seen_keys else seen_keys),
                      warn))))))
     | _ \<Rightarrow> Inl AttributeError)"

subsection \<open>Storage form\<close>

definition to_dict :: "UniFiAlert \<Rightarrow> dict" where
  "to_dict a =
     [(''category'', al_category a),
      (''message'', al_message a),
      (''received_at'', PStr (isoformat (al_received_at a))),
      (''key'', al_key a),
      (''device_name'', al_device_name a),
      (''site'', al_site a),
      (''severity'', PStr (al_severity a))]"

definition from_dict :: "pydatetime \<Rightarrow> pyval \<Rightarrow> exn + UniFiAlert" where
  "from_dict now data = (case data of
       PDict d \<Rightarrow>
         (let received_at = (case dget d ''received_at'' (PStr []) of
                PStr s \<Rightarrow> (case fromisoformat s of Some t \<Rightarrow> t | None \<Rightarrow> now)
              | _ \<Rightarrow> now)
          in Inr \<lparr> al_category = dget d ''category'' (PStr []),
                   al_message = dget d ''message'' (PStr []),
                   al_received_at = received_at,
                   al_raw = dget d ''raw'' (PDict []),
                   al_key = dget d ''key'' (PStr []),
                   al_device_name = dget d ''device_name'' (PStr []),
                   al_site = dget d ''site'' (PStr []),
                   al_severity = take 32 (py_str (dget d ''severity'' (PStr []))) \<rparr>)
     | _ \<Rightarrow> Inl AttributeError)"

subsection \<open>The state of a category\<close>

record CategoryState =
  cs_category :: string
  cs_enabled :: bool
  cs_is_alerting :: bool
  cs_last_alert :: "UniFiAlert option"
  cs_alert_count :: int
  cs_open_count :: int
  cs_filtered_count :: int
  cs_last_cleared_at :: "pydatetime option"
  cs_last_webhook_at :: "pydatetime option"
  cs_last_filtered_at :: "pydatetime option"
  cs_last_alarm_received_at :: "pydatetime option"

definition new_category_state :: "string \<Rightarrow> bool \<Rightarrow> CategoryState" where
  "new_category_state category enabled =
     \<lparr> cs_category = category, cs_enabled = enabled, cs_is_alerting = False,
       cs_last_alert = None, cs_alert_count = 0, cs_open_count = 0, cs_filtered_count = 0,
       cs_last_cleared_at = None, cs_last_webhook_at = None, cs_last_filtered_at = None,
       cs_last_alarm_received_at = None \<rparr>"

text \<open>\<open>m is None or t > m\<close>, the test before a mark is advanced.\<close>

definition newer :: "pydatetime \<Rightarrow> pydatetime option \<Rightarrow> exn + bool" where
  "newer t m = (case m of None \<Rightarrow> Inr True | Some u \<Rightarrow> dt_gt t u)"

definition apply_alert :: "UniFiAlert \<Rightarrow> (CategoryState, unit) act" where
  "apply_alert alert =
     bindS (modifyS (\<lambda>s. s\<lparr>cs_is_alerting := True, cs_last_alert := Some alert,
                            cs_alert_count := cs_alert_count s + 1\<rparr>)) (\<lambda>_.
     (let received_at = ensure_aware (al_received_at alert) in
      bindS (getS cs_last_alarm_received_at) (\<lambda>last.
      bindS (liftS (newer received_at last)) (\<lambda>b.
      whenS b (modifyS (\<lambda>s. s\<lparr>cs_last_alarm_received_at := Some received_at\<rparr>))))))"

definition record_filtered :: "UniFiAlert \<Rightarrow> CategoryState \<Rightarrow> CategoryState" where
  "record_filtered alert s =
     s\<lparr>cs_filtered_count := cs_filtered_count s + 1,
       cs_last_filtered_at := Some (ensure_aware (al_received_at alert))\<rparr>"

definition clear_state :: "pydatetime \<Rightarrow> CategoryState \<Rightarrow> CategoryState" where
  "clear_state now s =
     s\<lparr>cs_is_alerting := False,
       cs_last_cleared_at := (case cs_last_alarm_received_at s of
          Some t \<Rightarrow> Some t | None \<Rightarrow> Some now)\<rparr>"

definition webhook_health :: "pydatetime \<Rightarrow> CategoryState \<Rightarrow> exn + string" where
  "webhook_health now s = (case cs_last_webhook_at s of
       None \<Rightarrow> Inr WEBHOOK_HEALTH_NEVER
     | Some t \<Rightarrow> bindE (dt_sub now t) (\<lambda>us.
         Inr (if us \<le> WEBHOOK_STALE_AFTER_SECONDS * 1000000
              then WEBHOOK_HEALTH_HEALTHY else WEBHOOK_HEALTH_STALE)))"

subsection \<open>What the constructors return\<close>

lemma not_brace_dropWhile: "list_all not_brace s \<Longrightarrow> dropWhile not_brace (s @ t) = dropWhile not_brace t"
  and not_brace_takeWhile: "list_all not_brace s \<Longrightarrow> takeWhile not_brace (s @ t) = s @ takeWhile not_brace t"
  by (induction s) auto

lemma sub_tokens_text: "list_all not_brace s \<Longrightarrow> sub_tokens f (s @ t) = s @ sub_tokens f t"
  by (induction s) (auto simp: not_brace_def)

lemma sub_tokens_token:
  assumes "list_all not_brace k" "k \<noteq> []"
  shows "sub_tokens f (CHR 0x7B # k @ CHR 0x7D # t) = f k @ sub_tokens f t"
proof -
  have "dropWhile not_brace (k @ CHR 0x7D # t) = CHR 0x7D # t"
    and "takeWhile not_brace (k @ CHR 0x7D # t) = k"
    using assms(1) by (simp_all add: not_brace_dropWhile not_brace_takeWhile not_brace_def)
  with assms(2) show ?thesis by simp
qed

text \<open>A template as the controller writes it: text without braces, and tokens.\<close>

datatype segment = Text string | Token string

fun segment_ok :: "segment \<Rightarrow> bool" where
  "segment_ok (Text s) = list_all not_brace s"
| "segment_ok (Token k) = (k \<noteq> [] \<and> list_all not_brace k)"

fun segment_source :: "segment \<Rightarrow> string" where
  "segment_source (Text s) = s"
| "segment_source (Token k) = CHR 0x7B # k @ [CHR 0x7D]"

fun segment_value :: "dict \<Rightarrow> segment \<Rightarrow> string" where
  "segment_value ps (Text s) = s"
| "segment_value ps (Token k) = (case map_of ps k of
     Some v \<Rightarrow> display_value k v | None \<Rightarrow> segment_source (Token k))"

lemma display_map: "map_of (map (\<lambda>(k, v). (k, display_value k v)) ps) k
    = map_option (display_value k) (map_of ps k)"
  by (induction ps) auto

text \<open>Rendering substitutes each placeholder of the template once: the value of a parameter
  appears as it is, with its braces, and is never substituted again; a placeholder without a
  parameter stays, whatever the order of the parameters and even if one key is a prefix of another.\<close>

theorem render_segments:
  assumes "list_all segment_ok segs"
  shows "render_message_raw (PStr (concat (map segment_source segs))) (PDict ps)
    = Inr (concat (map (segment_value ps) segs))"
proof -
  let ?f = "\<lambda>token. case map_option (display_value token) (map_of ps token) of
              Some t \<Rightarrow> t | None \<Rightarrow> CHR 0x7B # token @ [CHR 0x7D]"
  have "sub_tokens ?f (concat (map segment_source segs)) = concat (map (segment_value ps) segs)"
    using assms
  proof (induction segs)
    case (Cons g segs)
    then show ?case
      by (cases g) (auto simp: sub_tokens_text sub_tokens_token simp del: sub_tokens.simps(2)
          split: option.splits)
  qed simp
  then show ?thesis by (simp add: render_message_raw_def display_map)
qed

lemma render_segments_witness:
  "render_message_raw (PStr (concat (map segment_source [Token ''IP'', Text '' -> '', Token ''IP_DST''])))
     (PDict [(''IP'', PDict [(''name'', PStr (segment_source (Token ''IP_DST'')))]), (''IP_DST'', PStr ''7'')])
   = Inr (segment_source (Token ''IP_DST'') @ '' -> 7'')"
  using render_segments [of "[Token ''IP'', Text '' -> '', Token ''IP_DST'']"
      "[(''IP'', PDict [(''name'', PStr (segment_source (Token ''IP_DST'')))]), (''IP_DST'', PStr ''7'')]"]
  by (simp add: not_brace_def display_value_def py_or_def)

text \<open>The limits the constructors put on an alert's texts.\<close>

definition str_within :: "nat \<Rightarrow> pyval \<Rightarrow> bool" where
  "str_within n v = (case v of PStr s \<Rightarrow> length s \<le> n | _ \<Rightarrow> False)"

lemma str_within_take [simp]: "str_within n (PStr (take n s))" "str_within n (PStr [])"
  by (simp_all add: str_within_def)

definition is_str :: "pyval \<Rightarrow> bool" where
  "is_str v = (case v of PStr _ \<Rightarrow> True | _ \<Rightarrow> False)"

definition bounded_alert :: "UniFiAlert \<Rightarrow> bool" where
  "bounded_alert a \<longleftrightarrow> is_str (al_category a) \<and> str_within 255 (al_message a)
     \<and> str_within 64 (al_key a) \<and> str_within 255 (al_device_name a) \<and> is_str (al_site a)
     \<and> length (al_severity a) \<le> 32 \<and> al_raw a = PDict []"

lemma webhook_alert:
  assumes "from_webhook_payload now c p = Inr a"
  shows "bounded_alert a" "al_received_at a = now" "al_category a = PStr c"
proof -
  from assms obtain d where "p = PDict d" by (cases p) (simp_all add: from_webhook_payload_def)
  with assms show "bounded_alert a" "al_received_at a = now" "al_category a = PStr c"
    unfolding from_webhook_payload_def Let_def by (auto simp: bounded_alert_def is_str_def)
qed

lemma webhook_accepts: "(\<exists>a. from_webhook_payload now c p = Inr a) \<longleftrightarrow> (\<exists>d. p = PDict d)"
  by (cases p) (auto simp: from_webhook_payload_def Let_def)

lemma api_alert:
  assumes "from_api_alarm now c p = Inr a"
  shows "bounded_alert a" "al_category a = PStr c"
proof -
  from assms obtain d where "p = PDict d" by (cases p) (simp_all add: from_api_alarm_def)
  with assms show "bounded_alert a" "al_category a = PStr c"
    by (auto simp add: from_api_alarm_def Let_def bindE_eq_Inr bounded_alert_def is_str_def)
qed

lemma system_log_dict:
  assumes "from_system_log_event now p seen = Inr r"
  obtains d where "p = PDict d"
  using assms by (cases p) (simp_all add: from_system_log_event_def)

lemma system_log_alert:
  assumes "from_system_log_event now p seen = Inr (a, seen', w)"
  shows "bounded_alert a"
proof -
  from assms obtain d where "p = PDict d" by (rule system_log_dict)
  with assms show ?thesis
    by (auto simp add: from_system_log_event_def Let_def bindE_eq_Inr bounded_alert_def is_str_def
        simp del: take_all)
qed

text \<open>Whatever JSON the controller sends, an alert built by one of the three ingestion
  constructors has a string category and site, at most 255 characters of message and device name,
  64 of key and 32 of severity, and keeps none of the raw payload.\<close>

theorem ingested_alerts_bounded:
  assumes "from_webhook_payload now c p = Inr a \<or> from_api_alarm now c p = Inr a
     \<or> (\<exists>seen seen' w. from_system_log_event now p seen = Inr (a, seen', w))"
  shows "bounded_alert a"
  using assms webhook_alert(1) api_alert(1) system_log_alert by blast

lemma ingested_alerts_bounded_witness:
  "\<exists>a. from_webhook_payload (from_wall 0 (Some 0)) CATEGORY_POWER (PDict []) = Inr a \<and> bounded_alert a"
proof -
  obtain a where "from_webhook_payload (from_wall 0 (Some 0)) CATEGORY_POWER (PDict []) = Inr a"
    using webhook_accepts by blast
  then show ?thesis using ingested_alerts_bounded by blast
qed

subsection \<open>Timestamps and exceptions\<close>

lemma api_alarm_time_err:
  "api_alarm_time now ts = Inl e
     \<longleftrightarrow> e = OverflowError \<and> (ts = PFloat PosInf \<or> ts = PFloat NegInf)"
proof (cases "py_int ts")
  case (Inl e')
  have "py_int ts = Inl OverflowError \<longleftrightarrow> ts = PFloat PosInf \<or> ts = PFloat NegInf"
    by (cases ts rule: py_int.cases) (auto dest: int_of_str_err)
  with Inl py_int_err [OF Inl] show ?thesis by (auto simp: api_alarm_time_def)
qed (auto simp: api_alarm_time_def)

text \<open>The only exception \<^verbatim>\<open>from_api_alarm\<close> lets out of a JSON object is the
  \<^verbatim>\<open>OverflowError\<close> of \<^verbatim>\<open>int()\<close> on an infinite timestamp, which its
  \<^verbatim>\<open>except\<close> clause does not name.\<close>

theorem from_api_alarm_raises:
  "from_api_alarm now c (PDict p) = Inl e \<longleftrightarrow>
     e = OverflowError \<and>
     (let ts = py_or (dget p ''datetime'' PNone) (dget p ''timestamp'' PNone)
      in ts = PFloat PosInf \<or> ts = PFloat NegInf)"
  by (auto simp: from_api_alarm_def Let_def out_simps api_alarm_time_err)

lemma api_alarm_time_ms:
  "from_ms ms = Some d \<Longrightarrow> ts = PInt ms \<Longrightarrow> api_alarm_time now ts = Inr d"
  by (simp add: api_alarm_time_def)

lemma system_log_time_aware: "is_aware now \<Longrightarrow> is_aware (system_log_time now ts)"
  by (auto simp: system_log_time_def from_ms_aware split: sum.splits option.splits)

lemma system_log_aware:
  assumes "from_system_log_event now p seen = Inr (a, seen', w)" "is_aware now"
  shows "is_aware (al_received_at a)"
proof -
  from assms(1) obtain d where "p = PDict d" by (rule system_log_dict)
  with assms show ?thesis
    by (auto simp add: from_system_log_event_def Let_def bindE_eq_Inr system_log_time_aware)
qed

subsection \<open>Warnings about unknown keys\<close>

lemma system_log_seen:
  assumes "from_system_log_event now p (Some seen) = Inr (a, seen', w)"
  shows "\<exists>k. seen' = Some (if w then seen @ [k] else seen) \<and> (w \<longrightarrow> k \<notin> set seen)"
proof -
  from assms obtain d where "p = PDict d" by (rule system_log_dict)
  with assms show ?thesis
    by (cases w) (auto simp: from_system_log_event_def Let_def bindE_eq_Inr split: if_splits)
qed

text \<open>Parsing a list of events with one shared set, as a poll does; the warnings are counted.\<close>

fun parse_events :: "pydatetime \<Rightarrow> pyval list \<Rightarrow> string list \<Rightarrow> exn + (UniFiAlert list \<times> string list \<times> nat)" where
  "parse_events now [] seen = Inr ([], seen, 0)"
| "parse_events now (p # ps) seen =
     bindE (from_system_log_event now p (Some seen)) (\<lambda>(a, seen', w).
     bindE (parse_events now ps (the seen')) (\<lambda>(as, seen'', n).
     Inr (a # as, seen'', n + (if w then 1 else 0))))"

text \<open>Over any sequence of v2 events parsed with one \<^verbatim>\<open>seen_keys\<close> set, each unrecognised
  key is warned about once: the set stays duplicate-free and grows by exactly the warnings logged.\<close>

theorem system_log_warns_once:
  assumes "parse_events now ps seen = Inr (as, seen', n)" "distinct seen"
  shows "distinct seen' \<and> set seen \<subseteq> set seen' \<and> length seen' = length seen + n"
  using assms
proof (induction ps arbitrary: seen as n)
  case (Cons p ps)
  then obtain a s1 w as1 n1 where 1: "from_system_log_event now p (Some seen) = Inr (a, s1, w)"
    and 2: "parse_events now ps (the s1) = Inr (as1, seen', n1)" and n: "n = n1 + (if w then 1 else 0)"
    by (auto simp: bindE_eq_Inr)
  from system_log_seen [OF 1] obtain k
    where "s1 = Some (if w then seen @ [k] else seen)" "w \<longrightarrow> k \<notin> set seen" by blast
  with Cons.IH [OF 2] Cons.prems(2) n show ?case by (auto split: if_splits)
qed simp

lemma system_log_warns_once_witness:
  "\<exists>as seen'. parse_events (from_wall 0 (Some 0))
      [PDict [(''key'', PStr ''A'')], PDict [(''key'', PStr ''A'')]] [] = Inr (as, seen', 1)
    \<and> distinct seen' \<and> length seen' = 1"
proof -
  have A: "classify_event_key ''A'' [] = []" "classify_event_key [] [] = []" by code_simp+
  have "\<exists>as. parse_events (from_wall 0 (Some 0))
      [PDict [(''key'', PStr ''A'')], PDict [(''key'', PStr ''A'')]] [] = Inr (as, [''A''], 1)"
    by (simp add: from_system_log_event_def Let_def py_or_def classify_key_def classify_enum_def A)
  then obtain as where 1: "parse_events (from_wall 0 (Some 0))
      [PDict [(''key'', PStr ''A'')], PDict [(''key'', PStr ''A'')]] [] = Inr (as, [''A''], 1)" ..
  with system_log_warns_once [OF 1] show ?thesis by auto
qed

subsection \<open>The storage round trip\<close>

lemma from_dict_cases: "(\<exists>a. from_dict now v = Inr a) \<longleftrightarrow> (\<exists>d. v = PDict d)"
  by (cases v) (auto simp: from_dict_def Let_def)

lemma from_to_dict:
  assumes "valid_dt (al_received_at a)" "length (al_severity a) \<le> 32"
  shows "from_dict now (PDict (to_dict a)) = Inr (a\<lparr>al_raw := PDict []\<rparr>)"
proof -
  have "fromisoformat (isoformat (al_received_at a)) = Some (al_received_at a)"
    using assms(1) by (rule iso.roundtrip)
  with assms(2) show ?thesis by (simp add: from_dict_def to_dict_def)
qed

text \<open>An alert written by \<^verbatim>\<open>to_dict\<close> is read back by \<^verbatim>\<open>from_dict\<close> unchanged except
  for the raw payload, which is deliberately not stored; the time comes back to the microsecond with
  its offset, whatever the clock says at the restart.\<close>

theorem alert_storage_roundtrip:
  assumes "valid_dt (al_received_at a)" "bounded_alert a"
  shows "from_dict now (PDict (to_dict a)) = Inr a"
  using assms from_to_dict [of a now] by (simp add: bounded_alert_def)

definition sample_alert :: UniFiAlert where
  "sample_alert = \<lparr> al_category = PStr CATEGORY_POWER, al_message = PStr ''PSU'',
     al_received_at = \<lparr> dt_year = 2024, dt_month = 2, dt_day = 29, dt_hour = 23, dt_minute = 59,
        dt_second = 58, dt_micro = 123456, dt_off = Some (- 19800000000) \<rparr>,
     al_raw = PDict [], al_key = PStr ''POWER_LOSS'', al_device_name = PStr [], al_site = PStr [],
     al_severity = ''HIGH'' \<rparr>"

lemma alert_storage_roundtrip_witness:
  "from_dict (from_wall 0 (Some 0)) (PDict (to_dict sample_alert)) = Inr sample_alert"
proof (rule alert_storage_roundtrip)
  show "valid_dt (al_received_at sample_alert)"
    by (simp add: sample_alert_def valid_dt_def days_in_month_def is_leap_def day_us_def)
  show "bounded_alert sample_alert"
    by (simp add: sample_alert_def bounded_alert_def is_str_def str_within_def)
qed

subsection \<open>The category state\<close>

text \<open>
  The invariant of a state between operations: the newest time seen is aware
  (it is only ever set from \<open>ensure_aware\<close>), so advancing it cannot raise.
\<close>

definition state_ok :: "CategoryState \<Rightarrow> bool" where
  "state_ok s \<longleftrightarrow> (\<forall>t. cs_last_alarm_received_at s = Some t \<longrightarrow> is_aware t)"

lemma newer_aware:
  "is_aware t \<Longrightarrow> (\<And>u. m = Some u \<Longrightarrow> is_aware u) \<Longrightarrow>
     newer t m = Inr (case m of None \<Rightarrow> True | Some u \<Rightarrow> dt_instant t > dt_instant u)"
  by (auto simp: newer_def dt_aware split: option.split)

text \<open>The later of two times by instant, the earlier argument winning ties.\<close>

definition later :: "pydatetime option \<Rightarrow> pydatetime \<Rightarrow> pydatetime" where
  "later m t = (case m of None \<Rightarrow> t | Some u \<Rightarrow> if dt_instant t > dt_instant u then t else u)"

lemma apply_alert_ok:
  assumes "state_ok s"
  shows "apply_alert alert s = (Inr (), s\<lparr>cs_is_alerting := True, cs_last_alert := Some alert,
     cs_alert_count := cs_alert_count s + 1,
     cs_last_alarm_received_at :=
       Some (later (cs_last_alarm_received_at s) (ensure_aware (al_received_at alert)))\<rparr>)"
proof -
  have "newer (ensure_aware (al_received_at alert)) (cs_last_alarm_received_at s) =
    Inr (case cs_last_alarm_received_at s of None \<Rightarrow> True
      | Some u \<Rightarrow> dt_instant (al_received_at alert) > dt_instant u)"
    using assms newer_aware [of "ensure_aware (al_received_at alert)" "cs_last_alarm_received_at s"]
    by (auto simp: state_ok_def split: option.splits)
  then show ?thesis
    by (cases "cs_last_alarm_received_at s") (auto simp: apply_alert_def act_defs later_def Let_def)
qed

lemma later_ok [simp]: "(\<And>u. m = Some u \<Longrightarrow> is_aware u) \<Longrightarrow> is_aware t \<Longrightarrow> is_aware (later m t)"
  by (auto simp: later_def split: option.split)

lemma later_ge: "dt_instant (later m t) \<ge> dt_instant t"
  "m = Some u \<Longrightarrow> dt_instant (later m t) \<ge> dt_instant u"
  by (auto simp: later_def split: option.split)

lemma apply_alert_state_ok: "state_ok s \<Longrightarrow> state_ok (snd (apply_alert a s))"
  by (simp add: apply_alert_ok) (simp add: state_ok_def)

lemma clear_state_ok: "state_ok s \<Longrightarrow> state_ok (clear_state now s)"
  by (simp add: state_ok_def clear_state_def)

lemma new_state_ok [simp]: "state_ok (new_category_state c e)"
  by (simp add: state_ok_def new_category_state_def)

text \<open>An alert that has been applied is acknowledged by the next \<^verbatim>\<open>clear\<close>: the watermark
  \<^verbatim>\<open>last_cleared_at\<close> is taken from the alerts' own timeline, so neither this alert nor any
  earlier one counts as newer than it, however far the host clock is behind.\<close>

theorem clear_covers_applied_alert:
  assumes "state_ok s" "is_aware t" "dt_instant t \<le> dt_instant (al_received_at a)"
  shows "\<exists>w. cs_last_cleared_at (clear_state now (snd (apply_alert a s))) = Some w
           \<and> dt_gt t w = Inr False"
proof -
  let ?w = "later (cs_last_alarm_received_at s) (ensure_aware (al_received_at a))"
  have "is_aware ?w" using assms(1) by (auto simp: state_ok_def)
  moreover have "dt_instant t \<le> dt_instant ?w"
    using assms(3) later_ge(1) [of "ensure_aware (al_received_at a)" "cs_last_alarm_received_at s"] by simp
  ultimately show ?thesis
    using assms(1,2) by (simp add: apply_alert_ok clear_state_def dt_aware)
qed

lemma clear_covers_applied_alert_witness:
  "\<exists>w. cs_last_cleared_at (clear_state (from_wall 0 (Some 0))
         (snd (apply_alert sample_alert (new_category_state CATEGORY_POWER True)))) = Some w
     \<and> dt_gt (al_received_at sample_alert) w = Inr False"
  using clear_covers_applied_alert [of "new_category_state CATEGORY_POWER True"
      "al_received_at sample_alert" sample_alert "from_wall 0 (Some 0)"]
  by (simp add: sample_alert_def is_aware_def)

text \<open>Webhook health of a category whose last webhook is \<open>us\<close> microseconds old: healthy up
  to and including seven days, stale beyond.\<close>

theorem webhook_health_window:
  assumes "is_aware now" "is_aware t" "cs_last_webhook_at s = Some t"
  shows "webhook_health now s = Inr (if dt_instant now - dt_instant t \<le> 7 * day_us
     then WEBHOOK_HEALTH_HEALTHY else WEBHOOK_HEALTH_STALE)"
  using assms by (simp add: webhook_health_def dt_aware WEBHOOK_STALE_AFTER_SECONDS_def day_us_def)

lemma webhook_health_window_witness:
  "webhook_health (from_wall (8 * day_us) (Some 0))
     ((new_category_state CATEGORY_POWER True)\<lparr>cs_last_webhook_at := Some (from_wall 0 (Some 0))\<rparr>)
   = Inr WEBHOOK_HEALTH_STALE"
  using webhook_health_window [of "from_wall (8 * day_us) (Some 0)" "from_wall 0 (Some 0)"
      "(new_category_state CATEGORY_POWER True)\<lparr>cs_last_webhook_at := Some (from_wall 0 (Some 0))\<rparr>"]
  by (simp add: is_aware_def dt_instant_def from_wall_wall day_us_def)

end
