(* ===== verification/Http.thy ===== *)
theory Http
  imports Const
begin

section \<open>HTTP exchanges and API-key authentication\<close>

text \<open>
  The boundary to the controller and \<^verbatim>\<open>unifi_auth.py\<close>. The network is a parameter of
  the model: a function \<open>net\<close> from the requests already sent (newest first) and the
  request to an outcome, so that a controller may answer the same request differently
  at different times. An outcome is a response, a certificate error, another
  \<^verbatim>\<open>aiohttp.ClientError\<close> (with its class name), or the expiry of the total
  timeout, which aiohttp raises as \<^verbatim>\<open>TimeoutError\<close>, not as a \<^verbatim>\<open>ClientError\<close>. Reading
  a body can fail again. What is used of aiohttp is modelled as documented:
  \<^verbatim>\<open>raise_for_status\<close> raises \<^verbatim>\<open>ClientResponseError\<close> from status 400 on, \<^verbatim>\<open>json()\<close>
  raises \<^verbatim>\<open>ContentTypeError\<close> (a \<^verbatim>\<open>ClientResponseError\<close>) for another media type
  unless told not to check it, and returns \<^verbatim>\<open>None\<close> for an empty body.
  An em dash in a message is written as a hyphen.
\<close>

datatype http_method = GET | POST

record request =
  rq_method :: http_method
  rq_url :: string
  rq_headers :: "(string \<times> pyval) list"
  rq_json :: "pyval option"
  rq_ssl :: pyval
  rq_timeout :: nat
  rq_allow_redirects :: bool

datatype body = JsonBody pyval | BadSyntax | BadUtf8 | ReadError string | ReadTimeout

record response =
  rs_status :: int
  rs_json_type :: bool
  rs_body :: body

datatype outcome = Response response | CertificateError | ClientFailure string | TimedOut

type_synonym net = "request list \<Rightarrow> request \<Rightarrow> outcome"

text \<open>What can be raised inside the \<^verbatim>\<open>async with\<close> blocks, before the handlers.\<close>

datatype http_error = CertE | ResponseE string int | ClientE string | Raised exn

definition raised :: "exn + 'a \<Rightarrow> http_error + 'a" where
  "raised r = (case r of Inl e \<Rightarrow> Inl (Raised e) | Inr x \<Rightarrow> Inr x)"

lemma raised_simps [simp]: "raised (Inl e) = Inl (Raised e)" "raised (Inr x) = Inr x"
  by (simp_all add: raised_def)

lemma raised_eq_Inl [out_simps]: "raised r = Inl h \<longleftrightarrow> (\<exists>e. r = Inl e \<and> h = Raised e)"
  by (cases r) auto

lemma raised_eq_Inr [out_simps]: "raised r = Inr x \<longleftrightarrow> r = Inr x"
  by (cases r) auto

definition respond :: "outcome \<Rightarrow> (response \<Rightarrow> http_error + 'a) \<Rightarrow> http_error + 'a" where
  "respond out f = (case out of
       Response r \<Rightarrow> f r
     | CertificateError \<Rightarrow> Inl CertE
     | ClientFailure n \<Rightarrow> Inl (ClientE n)
     | TimedOut \<Rightarrow> Inl (Raised TimeoutError))"

definition raise_for_status :: "response \<Rightarrow> http_error + unit" where
  "raise_for_status r =
     (if rs_status r \<ge> 400 then Inl (ResponseE ''ClientResponseError'' (rs_status r)) else Inr ())"

text \<open>\<open>resp.json()\<close>, and \<open>resp.json(content_type=None)\<close> with \<open>any\<close> set.\<close>

definition resp_json :: "bool \<Rightarrow> response \<Rightarrow> http_error + pyval" where
  "resp_json any r = (case rs_body r of
       ReadError n \<Rightarrow> Inl (ClientE n)
     | ReadTimeout \<Rightarrow> Inl (Raised TimeoutError)
     | b \<Rightarrow>
         if \<not> any \<and> \<not> rs_json_type r then Inl (ResponseE ''ContentTypeError'' (rs_status r))
         else (case b of
             JsonBody v \<Rightarrow> Inr v
           | BadUtf8 \<Rightarrow> Inl (Raised UnicodeDecodeError)
           | _ \<Rightarrow> Inl (Raised JSONDecodeError)))"

text \<open>
  The handlers of the fetch operations: a certificate error becomes
  \<^verbatim>\<open>SslCertificateError\<close>, the other client errors \<^verbatim>\<open>CannotConnectError\<close> (with the
  status of a response error where the code formats it); the integration's own
  exceptions pass, and so does everything that is no \<^verbatim>\<open>ClientError\<close>.
\<close>

fun handle_client_error :: "bool \<Rightarrow> http_error \<Rightarrow> exn" where
  "handle_client_error st CertE = SslCertificateError ''ClientConnectorCertificateError''"
| "handle_client_error st (ResponseE n s) =
     CannotConnectError (if st then n @ '' '' @ int_str s else n)"
| "handle_client_error st (ClientE n) = CannotConnectError n"
| "handle_client_error st (Raised e) = e"

definition handled :: "bool \<Rightarrow> http_error + 'a \<Rightarrow> exn + 'a" where
  "handled st r = (case r of Inl h \<Rightarrow> Inl (handle_client_error st h) | Inr x \<Rightarrow> Inr x)"

lemma handled_simps [simp]:
  "handled st (Inl h) = Inl (handle_client_error st h)" "handled st (Inr x) = Inr x"
  by (simp_all add: handled_def)

lemma handled_eq_Inr [out_simps]: "handled st r = Inr x \<longleftrightarrow> r = Inr x"
  by (cases r) auto

lemma handled_eq_Inl [out_simps]:
  "handled st r = Inl e \<longleftrightarrow> (\<exists>h. r = Inl h \<and> e = handle_client_error st h)"
  by (cases r) auto

definition is_redirect :: "int \<Rightarrow> bool" where
  "is_redirect s \<longleftrightarrow> 300 \<le> s \<and> s < 400"

definition redirect_message :: "int \<Rightarrow> string" where
  "redirect_message s = ''Controller issued a redirect (HTTP '' @ int_str s
     @ '') on an authenticated request; refusing to follow to protect credentials''"

text \<open>\<open>v.get("meta", {}).get(k, d)\<close>.\<close>

definition meta_field :: "pyval \<Rightarrow> string \<Rightarrow> pyval \<Rightarrow> exn + pyval" where
  "meta_field v k d = bindE (py_get v ''meta'' (PDict [])) (\<lambda>m. py_get m k d)"

subsection \<open>Authentication\<close>

definition auth_headers :: "dict \<Rightarrow> (string \<times> pyval) list" where
  "auth_headers config =
     [(''Accept'', PStr ''application/json''), (''X-API-Key'', dget config CONF_API_KEY (PStr []))]"

definition verify_ssl :: "dict \<Rightarrow> pyval" where
  "verify_ssl config = dget config CONF_VERIFY_SSL (PBool DEFAULT_VERIFY_SSL)"

text \<open>An authenticated request: the shape of every call the client makes.\<close>

definition api_get :: "dict \<Rightarrow> string \<Rightarrow> request" where
  "api_get config url = \<lparr> rq_method = GET, rq_url = url, rq_headers = auth_headers config,
     rq_json = None, rq_ssl = verify_ssl config, rq_timeout = 10, rq_allow_redirects = False \<rparr>"

definition api_post :: "dict \<Rightarrow> string \<Rightarrow> pyval \<Rightarrow> nat \<Rightarrow> request" where
  "api_post config url json timeout = \<lparr> rq_method = POST, rq_url = url,
     rq_headers = auth_headers config, rq_json = Some json, rq_ssl = verify_ssl config,
     rq_timeout = timeout, rq_allow_redirects = False \<rparr>"

definition verify_endpoint :: "string \<Rightarrow> string" where
  "verify_endpoint base = base @ UNIFI_OS_NETWORK_PREFIX @ ''/api/s/default/self''"

definition verify_request :: "string \<Rightarrow> dict \<Rightarrow> request" where
  "verify_request base config = \<lparr> rq_method = GET, rq_url = verify_endpoint base,
     rq_headers = [(''X-API-Key'', dget config CONF_API_KEY (PStr [])),
                   (''Accept'', PStr ''application/json'')],
     rq_json = None, rq_ssl = verify_ssl config, rq_timeout = 8, rq_allow_redirects = False \<rparr>"

definition verify_body :: "string \<Rightarrow> pyval \<Rightarrow> exn + unit" where
  "verify_body endpoint body =
     bindE (meta_field body ''rc'' PNone) (\<lambda>rc.
       if rc \<noteq> PStr ''ok''
       then bindE (meta_field body ''msg'' (PStr ''unknown error'')) (\<lambda>msg.
              Inl (InvalidAuthError (''Invalid API key ('' @ py_str msg @ '')'') endpoint))
       else Inr ())"

definition verify_response :: "string \<Rightarrow> response \<Rightarrow> http_error + unit" where
  "verify_response endpoint r =
     (if is_redirect (rs_status r)
      then Inl (Raised (CannotConnectError (redirect_message (rs_status r))))
      else if rs_status r = 404
      then Inl (Raised (CannotConnectError (''API key endpoint not found - check the controller URL ''
             @ ''and that UniFi OS is accessible at this address'')))
      else if rs_status r = 401 \<or> rs_status r = 403
      then Inl (Raised (InvalidAuthError ''Invalid API key'' endpoint))
      else bindE (raise_for_status r) (\<lambda>_.
        bindE (case resp_json True r of
                 Inl (Raised e) \<Rightarrow>
                   if e = JSONDecodeError \<or> e = UnicodeDecodeError then Inr (PDict [])
                   else Inl (Raised e)
               | r' \<Rightarrow> r') (\<lambda>body.
        raised (verify_body endpoint body))))"

text \<open>
  \<open>UniFiAuth._verify_api_key\<close>: no request without a key; otherwise one request. The
  state is the list of requests sent.
\<close>

definition verify_api_key :: "net \<Rightarrow> string \<Rightarrow> dict \<Rightarrow> (request list, unit) act" where
  "verify_api_key net base config sent =
     (if \<not> truthy (dget config CONF_API_KEY (PStr []))
      then (Inl (InvalidAuthError ''No API key provided'' []), sent)
      else (let rq = verify_request base config
            in (handled False (respond (net sent rq) (verify_response (verify_endpoint base))),
                rq # sent)))"

end
