(* ===== verification/Client.thy ===== *)
theory Client
  imports Models Http
begin

section \<open>The controller client\<close>

text \<open>
  \<^verbatim>\<open>unifi_client.py\<close>: the client's state is its connection settings, the alarm-URL
  cache, the record of sites without a legacy endpoint, the keys the last
  \<^verbatim>\<open>categorise_alarms\<close> could not map, the controller version, and (for the
  statements) the requests sent so far, newest first. Every operation is an action on
  this state; the processing of one response is a separate function of the outcome.
  Reading the clock twice in one stretch of code without an \<^verbatim>\<open>await\<close> gives one
  value, the argument \<open>now\<close>.
\<close>

record client =
  cl_base :: string
  cl_config :: dict
  cl_unrecognised :: "(string \<times> int) list"
  cl_alarm_url_cache :: "(string \<times> string) list"
  cl_legacy_unavailable :: "(string \<times> bool) list"
  cl_controller_version :: "string option"
  cl_sent :: "request list"

definition new_client :: "string \<Rightarrow> dict \<Rightarrow> client" where
  "new_client controller_url config =
     \<lparr> cl_base = rstrip_char CHR ''/'' controller_url, cl_config = config, cl_unrecognised = [],
       cl_alarm_url_cache = [], cl_legacy_unavailable = [], cl_controller_version = None,
       cl_sent = [] \<rparr>"

definition send :: "net \<Rightarrow> request \<Rightarrow> (client, outcome) act" where
  "send net rq c = (Inr (net (cl_sent c) rq), c\<lparr>cl_sent := rq # cl_sent c\<rparr>)"

definition api_url :: "client \<Rightarrow> string \<Rightarrow> string" where
  "api_url c path = cl_base c @ UNIFI_OS_NETWORK_PREFIX @ path"

definition discovered_alarm_url :: "string \<Rightarrow> client \<Rightarrow> string option" where
  "discovered_alarm_url site c = map_of (cl_alarm_url_cache c) site"

definition legacy_alarm_endpoint_confirmed_unavailable :: "string \<Rightarrow> client \<Rightarrow> bool" where
  "legacy_alarm_endpoint_confirmed_unavailable site c =
     (case map_of (cl_legacy_unavailable c) site of None \<Rightarrow> False | Some b \<Rightarrow> b)"

subsection \<open>Authentication and version\<close>

definition authenticate :: "net \<Rightarrow> (client, unit) act" where
  "authenticate net c =
     (let (r, sent) = verify_api_key net (cl_base c) (cl_config c) (cl_sent c)
      in (r, c\<lparr>cl_sent := sent\<rparr>))"

text \<open>\<open>v[0]\<close> for a truthy value.\<close>

fun py_first :: "pyval \<Rightarrow> exn + pyval" where
  "py_first (PList (x # xs)) = Inr x"
| "py_first (PStr (c # cs)) = Inr (PStr [c])"
| "py_first (PDict d) = Inl KeyError"
| "py_first _ = Inl TypeError"

text \<open>
  \<open>fetch_controller_version\<close>: \<open>Inr None\<close> of \<open>version_body\<close> means that the
  request failed in a way the code swallows.
\<close>

definition version_body :: "outcome \<Rightarrow> exn + pyval option" where
  "version_body out =
     (case respond out (\<lambda>r. if rs_status r \<noteq> 200 then Inr None
                            else bindE (resp_json True r) (\<lambda>v. Inr (Some v))) of
        Inr v \<Rightarrow> Inr v
      | Inl (Raised e) \<Rightarrow> if e = JSONDecodeError \<or> e = UnicodeDecodeError then Inr None else Inl e
      | Inl _ \<Rightarrow> Inr None)"

definition version_of_body :: "pyval \<Rightarrow> exn + pyval" where
  "version_of_body body =
     bindE (py_get body ''data'' PNone) (\<lambda>d.
     (let data = py_or d (PList [])
      in if truthy data then bindE (py_first data) (\<lambda>x. py_get x ''version'' PNone) else Inr PNone))"

definition fetch_controller_version :: "net \<Rightarrow> string \<Rightarrow> (client, string option) act" where
  "fetch_controller_version net site =
     bindS (getS (\<lambda>c. api_get (cl_config c) (api_url c (''/api/s/'' @ site @ ''/stat/sysinfo'')))) (\<lambda>rq.
     bindS (send net rq) (\<lambda>out.
     bindS (liftS (version_body out)) (\<lambda>body.
       case body of
         None \<Rightarrow> getS cl_controller_version
       | Some v \<Rightarrow>
           bindS (liftS (version_of_body v)) (\<lambda>version.
           bindS (whenS (truthy version)
                    (modifyS (\<lambda>c. c\<lparr>cl_controller_version := Some (py_str version)\<rparr>))) (\<lambda>_.
           getS cl_controller_version)))))"

subsection \<open>Legacy alarms\<close>

definition quoted :: "string \<Rightarrow> string" where
  "quoted s = CHR 0x27 # s @ [CHR 0x27]"

text \<open>
  \<open>_parse_unifi_error_msg\<close>: a body that is no JSON gives the empty message, other
  errors of reading it pass to the handlers of the caller.
\<close>

definition parse_unifi_error_msg :: "response \<Rightarrow> http_error + string" where
  "parse_unifi_error_msg r =
     (case bindE (resp_json True r) (\<lambda>body. raised (meta_field body ''msg'' (PStr []))) of
        Inr v \<Rightarrow> Inr (py_str v)
      | Inl (Raised e) \<Rightarrow>
          if e = JSONDecodeError \<or> e = UnicodeDecodeError then Inr [] else Inl (Raised e)
      | Inl h \<Rightarrow> Inl h)"

definition is_missing_alarm_path :: "string \<Rightarrow> bool" where
  "is_missing_alarm_path unifi_msg \<longleftrightarrow> unifi_msg = ''api.err.InvalidObject''"

definition unarchived :: "pyval \<Rightarrow> exn + pyval list" where
  "unarchived data =
     bindE (py_get data ''data'' (PList [])) (\<lambda>d.
     bindE (py_iter d) (\<lambda>xs.
     filterE (\<lambda>a. bindE (py_get a ''archived'' (PBool False)) (\<lambda>v. Inr (\<not> truthy v))) xs))"

definition alarms_response :: "string \<Rightarrow> response \<Rightarrow> http_error + pyval list option" where
  "alarms_response site r =
     (let s = rs_status r in
      if is_redirect s then Inl (Raised (CannotConnectError (redirect_message s)))
      else if s = 401 then
        bindE (parse_unifi_error_msg r) (\<lambda>unifi_msg.
          if unifi_msg = ''api.err.NoSiteContext''
          then Inl (Raised (InvalidSiteError (''Site '' @ quoted site
                 @ '' does not exist on the controller (api.err.NoSiteContext)'')))
          else Inl (Raised (InvalidAuthError ''API key rejected (HTTP 401)'' [])))
      else if s = 404 then Inr None
      else if s = 400 then
        bindE (parse_unifi_error_msg r) (\<lambda>unifi_msg.
          if is_missing_alarm_path unifi_msg then Inr None
          else Inl (Raised (CannotConnectError (''Alarm endpoint rejected the request (HTTP 400''
                 @ (if unifi_msg \<noteq> [] then '' ('' @ unifi_msg @ '')'' else [])
                 @ ''). Check that the site name '' @ quoted site @ '' exists on the controller.''))))
      else
        bindE (raise_for_status r) (\<lambda>_.
        bindE (resp_json False r) (\<lambda>data.
        bindE (raised (meta_field data ''rc'' PNone)) (\<lambda>rc.
          if rc \<noteq> PStr ''ok''
          then bindE (raised (meta_field data ''msg'' (PStr ''unknown error''))) (\<lambda>msg.
                 Inl (Raised (CannotConnectError (''UniFi API error: '' @ py_str msg))))
          else bindE (raised (unarchived data)) (\<lambda>alarms. Inr (Some alarms))))))"


definition try_fetch_alarms :: "net \<Rightarrow> string \<Rightarrow> string \<Rightarrow> (client, pyval list option) act" where
  "try_fetch_alarms net url site =
     bindS (getS (\<lambda>c. api_get (cl_config c) url)) (\<lambda>rq.
     bindS (send net rq) (\<lambda>out.
     liftS (handled True (respond out (alarms_response site)))))"

definition alarm_paths :: "client \<Rightarrow> string \<Rightarrow> string list" where
  "alarm_paths c site =
     map (\<lambda>p. api_url c (''/api/s/'' @ site @ p)) [''/list/alarm'', ''/alarm'', ''/stat/alarm'']"

text \<open>\<open>_discover_alarm_url\<close>: the loop over the candidate paths, and what follows it.\<close>

fun probe_paths :: "net \<Rightarrow> string \<Rightarrow> string list \<Rightarrow> (client, pyval list option) act" where
  "probe_paths net site [] = returnS None"
| "probe_paths net site (path # paths) =
     bindS (try_fetch_alarms net path site) (\<lambda>result.
       case result of
         Some alarms \<Rightarrow>
           bindS (modifyS (\<lambda>c. c\<lparr>cl_alarm_url_cache := AList.update site path (cl_alarm_url_cache c)\<rparr>))
             (\<lambda>_. returnS (Some alarms))
       | None \<Rightarrow> probe_paths net site paths)"

definition no_legacy_message :: "client \<Rightarrow> string \<Rightarrow> string" where
  "no_legacy_message c site = ''No legacy alarm endpoint found for site '' @ quoted site
     @ ''. This firmware has removed all legacy alarm paths (UniFi Network 10.6+); the integration ''
     @ ''needs the v2 system-log API instead. Tried: '' @ join_str '', '' (alarm_paths c site)"

definition discover_alarm_url :: "net \<Rightarrow> string \<Rightarrow> (client, pyval list) act" where
  "discover_alarm_url net site =
     bindS (getS (\<lambda>c. alarm_paths c site)) (\<lambda>paths.
     bindS (probe_paths net site paths) (\<lambda>result.
       case result of
         Some alarms \<Rightarrow> returnS alarms
       | None \<Rightarrow>
           bindS (modifyS (\<lambda>c. c\<lparr>cl_legacy_unavailable :=
                                   AList.update site True (cl_legacy_unavailable c)\<rparr>)) (\<lambda>_.
           bindS (getS (\<lambda>c. no_legacy_message c site)) (\<lambda>m.
           raiseS (AlarmEndpointUnavailableError m)))))"

definition fetch_alarms :: "net \<Rightarrow> string \<Rightarrow> (client, pyval list) act" where
  "fetch_alarms net site =
     bindS (getS (discovered_alarm_url site)) (\<lambda>cached_url.
       case cached_url of
         None \<Rightarrow> discover_alarm_url net site
       | Some url \<Rightarrow>
           bindS (try_fetch_alarms net url site) (\<lambda>result.
             case result of
               Some alarms \<Rightarrow> returnS alarms
             | None \<Rightarrow>
                 bindS (modifyS (\<lambda>c. c\<lparr>cl_alarm_url_cache := AList.delete site (cl_alarm_url_cache c)\<rparr>))
                   (\<lambda>_. discover_alarm_url net site)))"

subsection \<open>Categorising legacy alarms\<close>

text \<open>\<open>_classify\<close>: \<open>None\<close> for an alarm whose key has no category.\<close>

definition classify_alarm :: "pyval \<Rightarrow> exn + string option" where
  "classify_alarm alarm =
     bindE (py_get alarm ''key'' (PStr [])) (\<lambda>key.
     bindE (classify_key key) (\<lambda>category.
     Inr (if category = [] then None else Some category)))"

definition group_append :: "'k \<Rightarrow> 'v \<Rightarrow> ('k \<times> 'v list) list \<Rightarrow> ('k \<times> 'v list) list" where
  "group_append k v d = AList.update k ((case map_of d k of None \<Rightarrow> [] | Some vs \<Rightarrow> vs) @ [v]) d"

type_synonym categorised = "(string \<times> UniFiAlert list) list"

fun categorise_loop :: "pydatetime \<Rightarrow> pyval list \<Rightarrow> categorised \<Rightarrow> (client, categorised) act" where
  "categorise_loop now [] result = returnS result"
| "categorise_loop now (alarm # alarms) result =
     bindS (liftS (classify_alarm alarm)) (\<lambda>category.
       case category of
         None \<Rightarrow>
           bindS (liftS (py_get alarm ''key'' (PStr []))) (\<lambda>key.
           bindS (whenS (truthy key) (modifyS (\<lambda>c. c\<lparr>cl_unrecognised :=
                    dict_bump (py_str key) 1 (cl_unrecognised c)\<rparr>))) (\<lambda>_.
           categorise_loop now alarms result))
       | Some cat \<Rightarrow>
           bindS (liftS (from_api_alarm now cat alarm)) (\<lambda>alert.
           categorise_loop now alarms (group_append cat alert result)))"

definition categorise_alarms :: "net \<Rightarrow> pydatetime \<Rightarrow> string \<Rightarrow> (client, categorised) act" where
  "categorise_alarms net now site =
     bindS (fetch_alarms net site) (\<lambda>raw.
     bindS (modifyS (\<lambda>c. c\<lparr>cl_unrecognised := []\<rparr>)) (\<lambda>_.
     categorise_loop now raw []))"

subsection \<open>The v2 system log\<close>

text \<open>\<open>probe_system_log_endpoint\<close>: \<open>Some True\<close>, \<open>Some False\<close> (404) or \<open>None\<close>.\<close>

definition probe_outcome :: "outcome \<Rightarrow> exn + bool option" where
  "probe_outcome out =
     (case respond out (\<lambda>r. Inr (if rs_status r = 200 then Some True
                                 else if rs_status r = 404 then Some False else None)) of
        Inr v \<Rightarrow> Inr v
      | Inl (Raised e) \<Rightarrow> Inl e
      | Inl _ \<Rightarrow> Inr None)"

definition system_log_url :: "client \<Rightarrow> string \<Rightarrow> string \<Rightarrow> string" where
  "system_log_url c site what = api_url c (''/v2/api/site/'' @ site @ ''/system-log/'' @ what)"

definition probe_system_log_endpoint :: "net \<Rightarrow> string \<Rightarrow> (client, bool option) act" where
  "probe_system_log_endpoint net site =
     bindS (getS (\<lambda>c. api_post (cl_config c) (system_log_url c site ''count'') (PDict []) 10)) (\<lambda>rq.
     bindS (send net rq) (\<lambda>out.
     liftS (probe_outcome out)))"

definition page_response :: "response \<Rightarrow> http_error + pyval" where
  "page_response r =
     (let s = rs_status r in
      if is_redirect s then Inl (Raised (CannotConnectError (redirect_message s)))
      else if s = 401
      then Inl (Raised (InvalidAuthError ''API key rejected during system-log fetch (HTTP 401)'' []))
      else bindE (raise_for_status r) (\<lambda>_. resp_json False r))"

definition page_body :: "int \<Rightarrow> int \<Rightarrow> nat \<Rightarrow> pyval" where
  "page_body timestamp_from timestamp_to page =
     PDict [(''timestampFrom'', PInt timestamp_from), (''timestampTo'', PInt timestamp_to),
            (''pageNumber'', PInt (int page)), (''pageSize'', PInt SYSTEM_LOG_PAGE_SIZE)]"

text \<open>The new events of a page, and whether it is the last one.\<close>

definition page_events :: "nat \<Rightarrow> pyval \<Rightarrow> exn + pyval list \<times> bool" where
  "page_events page data =
     bindE (py_get data ''data'' PNone) (\<lambda>d.
     (let page_data = py_or d (PList []) in
      bindE (py_iter page_data) (\<lambda>es.
      bindE (filterE (\<lambda>e. bindE (py_get e ''status'' PNone) (\<lambda>v. Inr (v = PStr ''NEW''))) es) (\<lambda>new_events.
      bindE (py_get data ''total_page_count'' (PInt 1)) (\<lambda>total_pages.
      bindE (py_int_ge (int page + 1) total_pages) (\<lambda>last.
      Inr (new_events, last \<or> \<not> truthy page_data)))))))"

fun fetch_pages :: "net \<Rightarrow> string \<Rightarrow> int \<Rightarrow> int \<Rightarrow> nat list \<Rightarrow> pyval list \<Rightarrow> (client, pyval list) act" where
  "fetch_pages net site t0 t1 [] results = returnS results"
| "fetch_pages net site t0 t1 (page # pages) results =
     bindS (getS (\<lambda>c. api_post (cl_config c) (system_log_url c site ''all'') (page_body t0 t1 page) 15)) (\<lambda>rq.
     bindS (send net rq) (\<lambda>out.
     bindS (liftS (handled True (respond out page_response))) (\<lambda>data.
     bindS (liftS (page_events page data)) (\<lambda>(new_events, stop).
       if stop then returnS (results @ new_events)
       else fetch_pages net site t0 t1 pages (results @ new_events)))))"

definition fetch_system_log_alarms ::
    "net \<Rightarrow> pydatetime \<Rightarrow> string \<Rightarrow> pydatetime option \<Rightarrow> (client, pyval list) act" where
  "fetch_system_log_alarms net now site since =
     (let from_dt = (case since of Some t \<Rightarrow> t
            | None \<Rightarrow> dt_add now (- (DEFAULT_SYSTEM_LOG_LOOKBACK_HOURS * 3600000000)))
      in fetch_pages net site (to_ms from_dt) (to_ms now) [0..<MAX_SYSTEM_LOG_PAGES] [])"

subsection \<open>Setup-time validation\<close>

text \<open>\<open>any(entry.get("name") == site for entry in sites)\<close>, which stops at the first match.\<close>

fun any_named :: "string \<Rightarrow> pyval list \<Rightarrow> exn + bool" where
  "any_named site [] = Inr False"
| "any_named site (e # es) =
     bindE (py_get e ''name'' PNone) (\<lambda>v. if v = PStr site then Inr True else any_named site es)"

definition site_listed :: "string \<Rightarrow> outcome \<Rightarrow> exn + bool" where
  "site_listed site out =
     (case respond out (\<lambda>r. if rs_status r \<noteq> 200 then Inr None
                            else bindE (resp_json False r) (\<lambda>v. Inr (Some v))) of
        Inr None \<Rightarrow> Inr True
      | Inr (Some data) \<Rightarrow>
          bindE (py_get data ''data'' (PList [])) (\<lambda>d.
          bindE (py_iter d) (\<lambda>sites. any_named site sites))
      | Inl (Raised e) \<Rightarrow> if e = JSONDecodeError then Inr True else Inl e
      | Inl _ \<Rightarrow> Inr True)"

definition site_exists :: "net \<Rightarrow> string \<Rightarrow> (client, bool) act" where
  "site_exists net site =
     bindS (getS (\<lambda>c. api_get (cl_config c) (api_url c ''/api/self/sites''))) (\<lambda>rq.
     bindS (send net rq) (\<lambda>out.
     liftS (site_listed site out)))"

definition validate_connectivity :: "net \<Rightarrow> string \<Rightarrow> (client, string) act" where
  "validate_connectivity net site =
     bindS (probe_system_log_endpoint net site) (\<lambda>v2.
       if v2 = Some True then returnS ''v2''
       else (\<lambda>c. case fetch_alarms net site c of
           (Inr alarms, c') \<Rightarrow> (Inr ''legacy'', c')
         | (Inl e, c') \<Rightarrow>
             (case e of
                AlarmEndpointUnavailableError m \<Rightarrow>
                  bindS (site_exists net site) (\<lambda>known.
                    if known then raiseS (AlarmEndpointUnavailableError m)
                    else raiseS (InvalidSiteError
                           (''Site '' @ quoted site @ '' not found on the controller.''))) c'
              | _ \<Rightarrow> (Inl e, c'))))"

end
