(* ===== verification/Coordinator.thy ===== *)
theory Coordinator
  imports Client
begin

section \<open>The coordinator\<close>

text \<open>
  \<^verbatim>\<open>coordinator.py\<close>: the long-lived category states, the polling path with its probe
  cache and backoff, the webhook push path with its duplicate window, the clear
  operations and the background auto-clear timers, and the stored watermarks.

  The state \<open>coord\<close> has one field per attribute. Background tasks are kept by
  number in \<open>co_tasks\<close>: a task sleeps until a due time of the monotonic clock
  (\<open>Sleeping\<close>), waits for the store (\<open>Saving\<close>) or is done; \<open>co_clear_tasks\<close> is
  the attribute \<^verbatim>\<open>_clear_tasks\<close>, from categories to task numbers. What the
  coordinator asks of Home Assistant is logged in \<open>co_effects\<close>, newest first. A
  method without an \<^verbatim>\<open>await\<close> is one action; a coroutine is split at its awaits on the
  event loop (sleeping, saving), so that other operations can run in between. The
  monotonic clock counts microseconds; host clock readings are arguments, one for
  each stretch of code between two awaits.
\<close>

datatype task = Sleeping string int | Saving | Finished | Cancelled | Failed

datatype effect =
  Notified | DelaySaveRequested | SaveRequested dict | IssueCreated string | IssueDeleted string

record coord =
  co_client :: client
  co_config :: dict
  co_poll_interval :: int
  co_clear_timeout :: int
  co_site :: string
  co_entry_id :: string
  co_states :: "(string \<times> CategoryState) list"
  co_clear_tasks :: "(string \<times> nat) list"
  co_tasks :: "task list"
  co_seen_unknown :: "string list"
  co_last_push_at :: "((string \<times> pyval) \<times> int) list"
  co_unrecognised :: "(string \<times> int) list"
  co_has_system_log :: "bool option"
  co_probe_fail_count :: nat
  co_probe_backoff_until :: "pydatetime option"
  co_effects :: "effect list"

definition PROBE_FAIL_LIMIT :: nat where "PROBE_FAIL_LIMIT = 5"

text \<open>One hour, in microseconds.\<close>

definition PROBE_RETRY_AFTER :: int where "PROBE_RETRY_AFTER = 3600000000"

text \<open>
  The constructor, for a configuration whose numeric settings are integers, whose
  enabled categories are a list and whose site is a string, as the config flow stores
  them; \<open>None\<close> for another shape.
\<close>

definition new_coordinator :: "client \<Rightarrow> dict \<Rightarrow> string \<Rightarrow> coord option" where
  "new_coordinator client config entry_id =
     (case dget config CONF_POLL_INTERVAL (PInt DEFAULT_POLL_INTERVAL) of PInt poll_interval \<Rightarrow>
      (case dget config CONF_CLEAR_TIMEOUT (PInt DEFAULT_CLEAR_TIMEOUT) of PInt clear_timeout \<Rightarrow>
      (case dget config CONF_ENABLED_CATEGORIES (PList (map PStr ALL_CATEGORIES)) of PList enabled \<Rightarrow>
      (case dget config CONF_SITE (PStr DEFAULT_SITE) of PStr site \<Rightarrow>
         Some \<lparr> co_client = client, co_config = config, co_poll_interval = poll_interval,
                co_clear_timeout = clear_timeout, co_site = site, co_entry_id = entry_id,
                co_states = map (\<lambda>cat. (cat, new_category_state cat (PStr cat \<in> set enabled))) ALL_CATEGORIES,
                co_clear_tasks = [], co_tasks = [], co_seen_unknown = [], co_last_push_at = [],
                co_unrecognised = [], co_has_system_log = None, co_probe_fail_count = 0,
                co_probe_backoff_until = None, co_effects = [] \<rparr>
       | _ \<Rightarrow> None) | _ \<Rightarrow> None) | _ \<Rightarrow> None) | _ \<Rightarrow> None)"

definition emit :: "effect \<Rightarrow> coord \<Rightarrow> coord" where
  "emit e s = s\<lparr>co_effects := e # co_effects s\<rparr>"

definition get_category_state :: "string \<Rightarrow> coord \<Rightarrow> CategoryState option" where
  "get_category_state cat s = map_of (co_states s) cat"

text \<open>Working on the client, and on one category state in place.\<close>

definition on_client :: "(client, 'a) act \<Rightarrow> (coord, 'a) act" where
  "on_client m s = (case m (co_client s) of (r, c) \<Rightarrow> (r, s\<lparr>co_client := c\<rparr>))"

definition on_state :: "string \<Rightarrow> 'a \<Rightarrow> (CategoryState, 'a) act \<Rightarrow> (coord, 'a) act" where
  "on_state cat d m s = (case map_of (co_states s) cat of
       None \<Rightarrow> (Inr d, s)
     | Some st \<Rightarrow> (case m st of (r, st') \<Rightarrow> (r, s\<lparr>co_states := AList.update cat st' (co_states s)\<rparr>)))"

definition tryS :: "('s, 'a) act \<Rightarrow> (exn \<Rightarrow> ('s, 'a) act) \<Rightarrow> ('s, 'a) act" where
  "tryS m h s = (case m s of (Inl e, s') \<Rightarrow> h e s' | (Inr x, s') \<Rightarrow> (Inr x, s'))"

subsection \<open>Auto-clear timers\<close>

fun task_done :: "task \<Rightarrow> bool" where
  "task_done (Sleeping cat due) = False"
| "task_done Saving = False"
| "task_done _ = True"

text \<open>\<open>existing.cancel()\<close> unless it is done.\<close>

definition cancel_task :: "nat \<Rightarrow> coord \<Rightarrow> coord" where
  "cancel_task i s =
     (if i < length (co_tasks s) \<and> \<not> task_done (co_tasks s ! i)
      then s\<lparr>co_tasks := (co_tasks s)[i := Cancelled]\<rparr> else s)"

definition schedule_clear :: "int \<Rightarrow> string \<Rightarrow> coord \<Rightarrow> coord" where
  "schedule_clear tick category s =
     (let s = (case map_of (co_clear_tasks s) category of None \<Rightarrow> s | Some i \<Rightarrow> cancel_task i s);
          delay = co_clear_timeout s * 60
      in s\<lparr>co_clear_tasks := AList.update category (length (co_tasks s)) (co_clear_tasks s),
           co_tasks := co_tasks s @ [Sleeping category (tick + delay * 1000000)]\<rparr>)"

definition cancel_clear :: "string \<Rightarrow> coord \<Rightarrow> coord" where
  "cancel_clear category s =
     (case map_of (co_clear_tasks s) category of
        None \<Rightarrow> s
      | Some i \<Rightarrow> cancel_task i (s\<lparr>co_clear_tasks := AList.delete category (co_clear_tasks s)\<rparr>))"

definition shutdown :: "coord \<Rightarrow> coord" where
  "shutdown s = (fold (\<lambda>(cat, i). cancel_task i) (co_clear_tasks s) s)\<lparr>co_clear_tasks := []\<rparr>"

definition schedule_persist :: "coord \<Rightarrow> coord" where
  "schedule_persist s = emit DelaySaveRequested s"

subsection \<open>The stored form of the category states\<close>

definition persist_entry :: "CategoryState \<Rightarrow> dict" where
  "persist_entry st =
     (case cs_last_cleared_at st of None \<Rightarrow> [] | Some t \<Rightarrow> [(''last_cleared_at'', PStr (isoformat t))])
     @ [(''alert_count'', PInt (cs_alert_count st)),
        (''last_alert'', case cs_last_alert st of None \<Rightarrow> PNone | Some a \<Rightarrow> PDict (to_dict a))]
     @ (case cs_last_webhook_at st of None \<Rightarrow> [] | Some t \<Rightarrow> [(''last_webhook_at'', PStr (isoformat t))])"

definition build_persist_data :: "coord \<Rightarrow> dict" where
  "build_persist_data s = map (\<lambda>(cat, st). (cat, PDict (persist_entry st))) (co_states s)"

text \<open>\<open>datetime.fromisoformat(v)\<close> with \<^verbatim>\<open>ValueError\<close> and \<^verbatim>\<open>TypeError\<close> caught.\<close>

definition parse_stored_time :: "pyval \<Rightarrow> pydatetime option" where
  "parse_stored_time v = (case v of PStr s \<Rightarrow> fromisoformat s | _ \<Rightarrow> None)"

definition restore_cleared :: "pyval \<Rightarrow> CategoryState \<Rightarrow> CategoryState" where
  "restore_cleared v st = (case parse_stored_time v of
       None \<Rightarrow> st | Some t \<Rightarrow> st\<lparr>cs_last_cleared_at := Some t\<rparr>)"

definition restore_entry :: "pydatetime \<Rightarrow> pyval \<Rightarrow> (CategoryState, unit) act" where
  "restore_entry now entry = (case entry of
       PStr s \<Rightarrow> modifyS (restore_cleared (PStr s))
     | PDict d \<Rightarrow>
         (let ts_str = dget d ''last_cleared_at'' PNone;
              raw_alert = dget d ''last_alert'' PNone;
              webhook_ts = dget d ''last_webhook_at'' PNone
          in bindS (whenS (ts_str \<noteq> PNone) (modifyS (restore_cleared ts_str))) (\<lambda>_.
             bindS (liftS (py_int (dget d ''alert_count'' (PInt 0)))) (\<lambda>n.
             bindS (modifyS (\<lambda>st. st\<lparr>cs_alert_count := n\<rparr>)) (\<lambda>_.
             bindS (whenS (raw_alert \<noteq> PNone)
                (case from_dict now raw_alert of
                   Inr a \<Rightarrow> modifyS (\<lambda>st. st\<lparr>cs_last_alert := Some a\<rparr>)
                 | Inl e \<Rightarrow> if e = KeyError \<or> e = TypeError \<or> e = ValueError
                           then returnS () else raiseS e)) (\<lambda>_.
             whenS (webhook_ts \<noteq> PNone)
                (case parse_stored_time webhook_ts of
                   None \<Rightarrow> returnS ()
                 | Some t \<Rightarrow> modifyS (\<lambda>st. st\<lparr>cs_last_webhook_at := Some t\<rparr>)))))))
     | _ \<Rightarrow> returnS ())"

text \<open>\<open>data\<close> is what \<^verbatim>\<open>Store.async_load\<close> returned.\<close>

definition restore_watermarks :: "pydatetime \<Rightarrow> pyval \<Rightarrow> (coord, unit) act" where
  "restore_watermarks now data =
     (if \<not> truthy data then returnS ()
      else (case data of
          PDict d \<Rightarrow> forS d (\<lambda>(cat, entry). on_state cat () (restore_entry now entry))
        | _ \<Rightarrow> raiseS AttributeError))"

subsection \<open>The system-log probe\<close>

text \<open>
  \<open>t0\<close> is the clock before the probe request, \<open>t1\<close> after it. The cache answers
  unless it is empty or a backoff has expired, which empties it.
\<close>

definition probe_cache :: "pydatetime \<Rightarrow> (coord, bool option) act" where
  "probe_cache t0 s =
     (case co_has_system_log s of
        None \<Rightarrow> (Inr None, s)
      | Some b \<Rightarrow>
          (case (b, co_probe_backoff_until s) of
             (False, Some until) \<Rightarrow>
               (case dt_ge t0 until of
                  Inl e \<Rightarrow> (Inl e, s)
                | Inr True \<Rightarrow> (Inr None, s\<lparr>co_has_system_log := None, co_probe_fail_count := 0,
                                        co_probe_backoff_until := None\<rparr>)
                | Inr False \<Rightarrow> (Inr (Some False), s))
           | _ \<Rightarrow> (Inr (Some b), s)))"

definition probe_record :: "pydatetime \<Rightarrow> bool option \<Rightarrow> (coord, bool) act" where
  "probe_record t1 result s =
     (case result of
        Some True \<Rightarrow> (Inr True, s\<lparr>co_has_system_log := Some True, co_probe_fail_count := 0,
                              co_probe_backoff_until := None\<rparr>)
      | Some False \<Rightarrow> (Inr False, s\<lparr>co_has_system_log := Some False, co_probe_fail_count := 0\<rparr>)
      | None \<Rightarrow>
          (let n = Suc (co_probe_fail_count s)
           in (Inr False,
               if n \<ge> PROBE_FAIL_LIMIT
               then s\<lparr>co_probe_fail_count := n, co_has_system_log := Some False,
                      co_probe_backoff_until := Some (dt_add t1 PROBE_RETRY_AFTER)\<rparr>
               else s\<lparr>co_probe_fail_count := n\<rparr>)))"

definition probe_has_system_log :: "net \<Rightarrow> pydatetime \<Rightarrow> pydatetime \<Rightarrow> (coord, bool) act" where
  "probe_has_system_log net t0 t1 =
     bindS (probe_cache t0) (\<lambda>cached.
       case cached of
         Some b \<Rightarrow> returnS b
       | None \<Rightarrow>
           bindS (getS co_site) (\<lambda>site.
           bindS (on_client (probe_system_log_endpoint net site)) (\<lambda>result.
           probe_record t1 result)))"

subsection \<open>Polling\<close>

text \<open>\<open>min(xs)\<close> of datetimes, non-empty.\<close>

fun min_dt :: "pydatetime \<Rightarrow> pydatetime list \<Rightarrow> exn + pydatetime" where
  "min_dt m [] = Inr m"
| "min_dt m (x # xs) = bindE (dt_gt m x) (\<lambda>b. min_dt (if b then x else m) xs)"

text \<open>
  The start of the fetch window: the oldest watermark of the enabled categories, no
  older than the lookback; \<open>None\<close> when no category has been cleared.
\<close>

definition fetch_since :: "pydatetime \<Rightarrow> (string \<times> CategoryState) list \<Rightarrow> exn + pydatetime option" where
  "fetch_since now states =
     (case List.map_filter (\<lambda>(cat, st). if cs_enabled st then cs_last_cleared_at st else None) states of
        [] \<Rightarrow> Inr None
      | w # ws \<Rightarrow>
          (let lookback_floor = dt_add now (- (DEFAULT_SYSTEM_LOG_LOOKBACK_HOURS * 3600000000))
           in bindE (min_dt w ws) (\<lambda>oldest.
              bindE (dt_gt lookback_floor oldest) (\<lambda>b.
              Inr (Some (if b then lookback_floor else oldest))))))"

text \<open>Parsing the fetched events into groups; an event without a category is counted by its key.\<close>

fun parse_loop :: "pydatetime \<Rightarrow> pyval list \<Rightarrow> categorised \<Rightarrow> (coord, categorised) act" where
  "parse_loop now [] result = returnS result"
| "parse_loop now (event # events) result = (\<lambda>s.
     (case from_system_log_event now event (Some (co_seen_unknown s)) of
        Inl e \<Rightarrow> (Inl e, s)
      | Inr (alert, seen, warned) \<Rightarrow>
          (let s = s\<lparr>co_seen_unknown := the seen\<rparr>;
               category = py_str (al_category alert)
           in if category = []
              then (case py_get event ''key'' (PStr []) of
                  Inl e \<Rightarrow> (Inl e, s)
                | Inr key \<Rightarrow> parse_loop now events result
                    (if truthy key
                     then s\<lparr>co_unrecognised := dict_bump (py_str key) 1 (co_unrecognised s)\<rparr> else s))
              else parse_loop now events (group_append category alert result) s)))"

definition fetch_v2 :: "net \<Rightarrow> pydatetime \<Rightarrow> pydatetime \<Rightarrow> (coord, categorised) act" where
  "fetch_v2 net t1 t2 =
     bindS (getS co_states) (\<lambda>states.
     bindS (liftS (fetch_since t1 states)) (\<lambda>since.
     bindS (getS co_site) (\<lambda>site.
     bindS (on_client (fetch_system_log_alarms net t1 site since)) (\<lambda>raw_events.
     parse_loop t2 raw_events []))))"

text \<open>The legacy counts are added to the coordinator's own.\<close>

definition accumulate_unrecognised :: "coord \<Rightarrow> coord" where
  "accumulate_unrecognised s =
     s\<lparr>co_unrecognised :=
        fold (\<lambda>(key, count). dict_bump key count) (cl_unrecognised (co_client s)) (co_unrecognised s)\<rparr>"

definition fetch_categorised ::
    "net \<Rightarrow> pydatetime \<Rightarrow> pydatetime \<Rightarrow> pydatetime \<Rightarrow> (coord, categorised) act" where
  "fetch_categorised net t0 t1 t2 =
     bindS (tryS (probe_has_system_log net t0 t1)
              (\<lambda>e. if is_invalid_auth e \<or> is_cannot_connect e then returnS False else raiseS e)) (\<lambda>has_v2.
     bindS (getS (\<lambda>s. \<not> has_v2
              \<and> \<not> legacy_alarm_endpoint_confirmed_unavailable (co_site s) (co_client s))) (\<lambda>use_legacy.
       if use_legacy then (\<lambda>s.
         (case on_client (categorise_alarms net t2 (co_site s)) s of
            (Inr result, s') \<Rightarrow> (Inr result, accumulate_unrecognised s')
          | (Inl e, s') \<Rightarrow>
              (case e of
                 AlarmEndpointUnavailableError m \<Rightarrow> fetch_v2 net t1 t2 s'
               | _ \<Rightarrow> (Inl e, s'))))
       else fetch_v2 net t1 t2))"

text \<open>\<open>_track_newest_seen\<close>.\<close>

definition track_newest_seen :: "UniFiAlert list \<Rightarrow> (CategoryState, unit) act" where
  "track_newest_seen alerts =
     (if alerts = [] then returnS ()
      else bindS (liftS (py_max id (map (ensure_aware \<circ> al_received_at) alerts))) (\<lambda>newest_seen.
           bindS (getS cs_last_alarm_received_at) (\<lambda>last.
           bindS (liftS (newer newest_seen last)) (\<lambda>b.
           whenS b (modifyS (\<lambda>st. st\<lparr>cs_last_alarm_received_at := Some newest_seen\<rparr>))))))"

text \<open>
  The part of the update loop that concerns one category; the result says whether the
  auto-clear timer is to be started.
\<close>

definition poll_state :: "string \<Rightarrow> UniFiAlert list \<Rightarrow> (CategoryState, bool) act" where
  "poll_state minimum alerts =
     bindS (liftS (filterE (\<lambda>a. meets_minimum (severity_level a) minimum) alerts)) (\<lambda>eligible.
     bindS (track_newest_seen eligible) (\<lambda>_.
     bindS (getS cs_last_cleared_at) (\<lambda>watermark.
     bindS (liftS (case watermark of
               None \<Rightarrow> Inr eligible
             | Some w \<Rightarrow> filterE (\<lambda>a. dt_gt (al_received_at a) w) eligible)) (\<lambda>counted.
     bindS (modifyS (\<lambda>st. st\<lparr>cs_open_count := int (length counted)\<rparr>)) (\<lambda>_.
     bindS (getS cs_is_alerting) (\<lambda>alerting.
       if counted \<noteq> [] \<and> \<not> alerting
       then bindS (liftS (py_max al_received_at counted)) (\<lambda>most_recent.
            bindS (modifyS (\<lambda>st. st\<lparr>cs_is_alerting := True, cs_last_alert := Some most_recent\<rparr>)) (\<lambda>_.
            returnS True))
       else returnS False))))))"

definition poll_category :: "int \<Rightarrow> string \<times> UniFiAlert list \<Rightarrow> (coord, unit) act" where
  "poll_category tick entry = (case entry of (cat, alerts) \<Rightarrow>
     (\<lambda>s. case map_of (co_states s) cat of
        None \<Rightarrow> (Inr (), s)
      | Some st \<Rightarrow>
          if \<not> cs_enabled st then (Inr (), s)
          else bindS (on_state cat False
                       (poll_state (get_effective_min_severity (co_config s) cat) alerts)) (\<lambda>b.
               whenS b (modifyS (schedule_clear tick cat))) s))"

definition zero_unpolled :: "string list \<Rightarrow> coord \<Rightarrow> coord" where
  "zero_unpolled polled s =
     s\<lparr>co_states := map (\<lambda>(cat, st). (cat,
         if cs_enabled st \<and> cat \<notin> set polled then st\<lparr>cs_open_count := 0\<rparr> else st)) (co_states s)\<rparr>"

text \<open>
  \<open>_async_update_data\<close>: the clock before the probe, before the fetch and after it, and
  the monotonic clock at the end.
\<close>

definition update_data ::
    "net \<Rightarrow> pydatetime \<Rightarrow> pydatetime \<Rightarrow> pydatetime \<Rightarrow> int \<Rightarrow> (coord, unit) act" where
  "update_data net t0 t1 t2 tick =
     bindS (tryS (fetch_categorised net t0 t1 t2) (\<lambda>err.
              if is_invalid_auth err
              then raiseS (ConfigEntryAuthFailed (''UniFi controller rejected the API key: '' @ exn_text err))
              else if is_cannot_connect err
              then raiseS (UpdateFailed (''Cannot reach UniFi controller: '' @ exn_text err))
              else raiseS err)) (\<lambda>categorised.
     bindS (forS categorised (poll_category tick)) (\<lambda>_.
     modifyS (zero_unpolled (map fst categorised))))"

subsection \<open>Webhook pushes\<close>

text \<open>
  The duplicate window: \<open>None\<close> when the push is suppressed, otherwise the table with
  expired entries dropped and the new entry recorded.
\<close>

definition dedup ::
    "string \<Rightarrow> pyval \<Rightarrow> int \<Rightarrow> ((string \<times> pyval) \<times> int) list \<Rightarrow> ((string \<times> pyval) \<times> int) list option" where
  "dedup category key now table =
     (if \<not> truthy key then Some table
      else case map_of table (category, key) of
          Some prev \<Rightarrow> if now - prev < WEBHOOK_DEDUP_WINDOW then None
            else Some (AList.update (category, key) now
                        (filter (\<lambda>kt. snd kt \<ge> now - WEBHOOK_DEDUP_WINDOW) table))
        | None \<Rightarrow> Some (AList.update (category, key) now
                        (filter (\<lambda>kt. snd kt \<ge> now - WEBHOOK_DEDUP_WINDOW) table)))"

text \<open>What an accepted push does to its category, up to the optimistic count.\<close>

definition push_state :: "UniFiAlert \<Rightarrow> (CategoryState, unit) act" where
  "push_state alert =
     bindS (apply_alert alert) (\<lambda>_.
     bindS (modifyS (\<lambda>st. st\<lparr>cs_last_webhook_at := Some (al_received_at alert)\<rparr>)) (\<lambda>_.
     bindS (getS cs_last_cleared_at) (\<lambda>watermark.
     bindS (liftS (newer (al_received_at alert) watermark)) (\<lambda>b.
     whenS b (modifyS (\<lambda>st. st\<lparr>cs_open_count := cs_open_count st + 1\<rparr>))))))"

definition push_alert :: "int \<Rightarrow> string \<Rightarrow> UniFiAlert \<Rightarrow> (coord, unit) act" where
  "push_alert tick category alert s =
     (case map_of (co_states s) category of
        None \<Rightarrow> (Inr (), s)
      | Some st \<Rightarrow>
          if \<not> cs_enabled st then (Inr (), s)
          else (case meets_minimum (severity_level alert)
                       (get_effective_min_severity (co_config s) category) of
              Inl e \<Rightarrow> (Inl e, s)
            | Inr False \<Rightarrow>
                bindS (on_state category ()
                   (modifyS (\<lambda>st. (record_filtered alert st)\<lparr>cs_last_webhook_at := Some (al_received_at alert)\<rparr>))) (\<lambda>_.
                modifyS schedule_persist) s
            | Inr True \<Rightarrow>
                (case dedup category (al_key alert) tick (co_last_push_at s) of
                   None \<Rightarrow> (Inr (), s)
                 | Some table \<Rightarrow>
                     bindS (modifyS (\<lambda>s. s\<lparr>co_last_push_at := table\<rparr>)) (\<lambda>_.
                     bindS (on_state category () (push_state alert)) (\<lambda>_.
                     bindS (modifyS schedule_persist) (\<lambda>_.
                     bindS (modifyS (schedule_clear tick category)) (\<lambda>_.
                     modifyS (emit Notified))))) s)))"

subsection \<open>Clearing\<close>

text \<open>
  \<open>_async_persist_watermarks\<close> is split at its await: \<open>start_save\<close> hands the snapshot
  to the store, \<open>finish_save\<close> is the continuation once the store has answered, for the
  task that waits. The caller of an explicit clear is a task of its own.
\<close>

definition persist_failed_issue :: "coord \<Rightarrow> string" where
  "persist_failed_issue s = ISSUE_ID_PERSIST_FAILED @ ''_'' @ co_entry_id s"

definition start_save :: "coord \<Rightarrow> coord" where
  "start_save s = emit (SaveRequested (build_persist_data s)) s"

definition clear_one :: "pydatetime \<Rightarrow> string \<Rightarrow> coord \<Rightarrow> coord" where
  "clear_one now category s =
     (let s = cancel_clear category s
      in s\<lparr>co_states := dict_modify category (clear_state now) (co_states s)\<rparr>)"

definition clear_category :: "pydatetime \<Rightarrow> string \<Rightarrow> coord \<Rightarrow> coord" where
  "clear_category now category s =
     (if map_of (co_states s) category = None then s
      else (let s = start_save (clear_one now category s)
            in s\<lparr>co_tasks := co_tasks s @ [Saving]\<rparr>))"

definition clear_all :: "pydatetime \<Rightarrow> coord \<Rightarrow> coord" where
  "clear_all now s =
     (let s = start_save (fold (clear_one now)
                (map fst (filter (\<lambda>(cat, st). cs_enabled st) (co_states s))) s)
      in s\<lparr>co_tasks := co_tasks s @ [Saving]\<rparr>)"

text \<open>\<open>_auto_clear\<close> when its sleep ends; it only runs on if the category still alerts.\<close>

definition wake :: "pydatetime \<Rightarrow> nat \<Rightarrow> coord \<Rightarrow> coord" where
  "wake now i s =
     (case co_tasks s ! i of
        Sleeping category due \<Rightarrow>
          (case map_of (co_states s) category of
             Some st \<Rightarrow>
               if cs_is_alerting st
               then start_save (s\<lparr>co_states := dict_modify category (clear_state now) (co_states s),
                                  co_tasks := (co_tasks s)[i := Saving]\<rparr>)
               else s\<lparr>co_tasks := (co_tasks s)[i := Finished]\<rparr>
           | None \<Rightarrow> s\<lparr>co_tasks := (co_tasks s)[i := Finished]\<rparr>)
      | _ \<Rightarrow> s)"

definition finish_save :: "bool \<Rightarrow> nat \<Rightarrow> coord \<Rightarrow> coord" where
  "finish_save ok i s =
     (case co_tasks s ! i of
        Saving \<Rightarrow>
          if ok
          then emit Notified (emit (IssueDeleted (persist_failed_issue s))
                 (s\<lparr>co_tasks := (co_tasks s)[i := Finished]\<rparr>))
          else emit (IssueCreated (persist_failed_issue s)) (s\<lparr>co_tasks := (co_tasks s)[i := Failed]\<rparr>)
      | _ \<Rightarrow> s)"

subsection \<open>Rollups\<close>

definition enabled_states :: "coord \<Rightarrow> CategoryState list" where
  "enabled_states s = filter cs_enabled (map snd (co_states s))"

definition any_alerting :: "coord \<Rightarrow> bool" where
  "any_alerting s = list_ex cs_is_alerting (enabled_states s)"

definition rollup_alert_count :: "coord \<Rightarrow> int" where
  "rollup_alert_count s = sum_list (map cs_alert_count (enabled_states s))"

definition rollup_open_count :: "coord \<Rightarrow> int" where
  "rollup_open_count s = sum_list (map cs_open_count (enabled_states s))"

definition resolved_transport :: "coord \<Rightarrow> string" where
  "resolved_transport s =
     (if co_has_system_log s = Some True then ''v2''
      else if discovered_alarm_url (co_site s) (co_client s) \<noteq> None then ''legacy''
      else ''unknown'')"

definition rollup_last_alert :: "coord \<Rightarrow> exn + UniFiAlert option" where
  "rollup_last_alert s =
     (case List.map_filter cs_last_alert (enabled_states s) of
        [] \<Rightarrow> Inr None
      | a # as \<Rightarrow> bindE (py_max al_received_at (a # as)) (\<lambda>m. Inr (Some m)))"

end
