(* ===== verification/EventKeys.thy ===== *)
theory EventKeys
  imports Const "HOL-Library.Sublist"
begin

section \<open>Properties of the event-key tables and the webhook identifiers\<close>

text \<open>
  The lemmas about \<open>classify_event_key\<close> and \<open>webhook_id_for_category\<close> of the theory
  \<open>Const\<close>: the tables name only known categories, the order of the legacy prefix
  table does not matter, numeric key variants classify as their base key, and
  webhook identifiers do not collide.
\<close>

subsection \<open>The tables\<close>

lemma all_categories_distinct: "distinct ALL_CATEGORIES"
  by code_simp

lemma tables_in_categories:
  "list_all (\<lambda>kc. snd kc \<in> set ALL_CATEGORIES)
     (SYSTEM_LOG_KEY_TO_CATEGORY @ UNIFI_KEY_TO_CATEGORY @ SYSTEM_LOG_CATEGORY_FALLBACK)"
  by code_simp

lemma table_category:
  assumes "kc \<in> set SYSTEM_LOG_KEY_TO_CATEGORY \<or> kc \<in> set UNIFI_KEY_TO_CATEGORY
             \<or> kc \<in> set SYSTEM_LOG_CATEGORY_FALLBACK"
  shows "snd kc \<in> set ALL_CATEGORIES"
  using tables_in_categories assms by (auto simp: list_all_iff)

lemma categories_nonempty: "c \<in> set ALL_CATEGORIES \<Longrightarrow> c \<noteq> []"
proof -
  have "list_all (\<lambda>c. c \<noteq> []) ALL_CATEGORIES" by code_simp
  then show "c \<in> set ALL_CATEGORIES \<Longrightarrow> c \<noteq> []" by (auto simp: list_all_iff)
qed

lemma system_log_category:
  "map_of SYSTEM_LOG_KEY_TO_CATEGORY k = Some c \<Longrightarrow> c \<in> set ALL_CATEGORIES"
  using table_category [of "(k, c)"] by (auto dest: map_of_SomeD)

lemma get_nonempty_table:
  "get_nonempty SYSTEM_LOG_KEY_TO_CATEGORY k = map_of SYSTEM_LOG_KEY_TO_CATEGORY k"
  using system_log_category [of k] categories_nonempty
  by (auto simp: get_nonempty_def split: option.splits)

lemma legacy_entry:
  assumes "legacy_category k = Some c"
  obtains p where "(p, c) \<in> set UNIFI_KEY_TO_CATEGORY" "startswith k p"
proof -
  from assms obtain pc where pc: "List.find (\<lambda>pc. startswith k (fst pc)) UNIFI_KEY_TO_CATEGORY = Some pc"
    and c: "c = snd pc" by (auto simp: legacy_category_def)
  from pc have "pc \<in> set UNIFI_KEY_TO_CATEGORY" "startswith k (fst pc)"
    by (auto simp: find_Some_iff intro: nth_mem)
  with c that show ?thesis by (metis prod.collapse)
qed

lemma legacy_category_found:
  assumes "legacy_category k = Some c"
  shows "c \<in> set ALL_CATEGORIES"
proof -
  from assms obtain p where "(p, c) \<in> set UNIFI_KEY_TO_CATEGORY" by (rule legacy_entry)
  then show ?thesis using table_category [of "(p, c)"] by simp
qed

lemma fallback_category:
  "map_of SYSTEM_LOG_CATEGORY_FALLBACK e = Some c \<Longrightarrow> c \<in> set ALL_CATEGORIES"
  using table_category [of "(e, c)"] by (auto dest: map_of_SomeD)

definition prefix_agree :: "string \<times> string \<Rightarrow> string \<times> string \<Rightarrow> bool" where
  "prefix_agree pc qd = (if prefix (fst pc) (fst qd) then snd pc = snd qd else True)"

lemma prefixes_agree_front:
  "list_all (\<lambda>pc. list_all (prefix_agree pc) UNIFI_KEY_TO_CATEGORY) (take 32 UNIFI_KEY_TO_CATEGORY)"
  by (simp add: UNIFI_KEY_TO_CATEGORY_def prefix_agree_def)

lemma prefixes_agree_back:
  "list_all (\<lambda>pc. list_all (prefix_agree pc) UNIFI_KEY_TO_CATEGORY) (drop 32 UNIFI_KEY_TO_CATEGORY)"
  by (simp add: UNIFI_KEY_TO_CATEGORY_def prefix_agree_def)

lemma prefixes_agree:
  assumes "(p, c) \<in> set UNIFI_KEY_TO_CATEGORY" "(q, d) \<in> set UNIFI_KEY_TO_CATEGORY"
    "prefix p s" "prefix q s"
  shows "c = d"
proof -
  have agree: "a = b" if "(x, a) \<in> set UNIFI_KEY_TO_CATEGORY" "(y, b) \<in> set UNIFI_KEY_TO_CATEGORY"
    "prefix x y" for x a y b
  proof -
    have "list_all (\<lambda>pc. list_all (prefix_agree pc) UNIFI_KEY_TO_CATEGORY)
            (take 32 UNIFI_KEY_TO_CATEGORY @ drop 32 UNIFI_KEY_TO_CATEGORY)"
      unfolding list_all_append using prefixes_agree_front prefixes_agree_back by blast
    then have "prefix_agree (x, a) (y, b)" using that by (auto simp: list_all_iff)
    with that show ?thesis by (simp add: prefix_agree_def)
  qed
  from assms have "prefix p q \<or> prefix q p" using prefix_same_cases by blast
  with assms agree show ?thesis by blast
qed

subsection \<open>Classification\<close>

lemma classify_range: "classify_event_key k e \<in> insert [] (set ALL_CATEGORIES)"
  unfolding classify_event_key_def Let_def get_nonempty_table
  using system_log_category legacy_category_found fallback_category
  by (auto split: option.splits)

text \<open>Every result of \<^verbatim>\<open>classify_event_key\<close> is one of the seven categories or the empty
  string, whatever the key and the enum.\<close>

theorem classify_event_key_range: "classify_event_key k e \<in> insert [] (set ALL_CATEGORIES)"
  by (rule classify_range)

text \<open>The legacy prefix table is unambiguous: \<^verbatim>\<open>legacy_category\<close> returns the category of
  every table prefix the key starts with, so the order of the table is irrelevant.\<close>

theorem legacy_category_order_independent:
  "legacy_category k = Some c
     \<longleftrightarrow> (\<exists>p. (p, c) \<in> set UNIFI_KEY_TO_CATEGORY \<and> startswith k p)"
proof
  assume "legacy_category k = Some c"
  then show "\<exists>p. (p, c) \<in> set UNIFI_KEY_TO_CATEGORY \<and> startswith k p"
    using legacy_entry by blast
next
  assume "\<exists>p. (p, c) \<in> set UNIFI_KEY_TO_CATEGORY \<and> startswith k p"
  then obtain p where p: "(p, c) \<in> set UNIFI_KEY_TO_CATEGORY" "startswith k p" by blast
  show "legacy_category k = Some c"
  proof (cases "List.find (\<lambda>pc. startswith k (fst pc)) UNIFI_KEY_TO_CATEGORY")
    case None
    with p show ?thesis by (auto simp: find_None_iff)
  next
    case (Some qd)
    then have "qd \<in> set UNIFI_KEY_TO_CATEGORY" "startswith k (fst qd)"
      by (auto simp: find_Some_iff)
    with p prefixes_agree [of p c "fst qd" "snd qd" k] Some show ?thesis
      by (auto simp: legacy_category_def startswith_iff prefix_def)
  qed
qed

lemma table_keys_end:
  "list_all (\<lambda>kc. fst kc \<noteq> [] \<and> \<not> is_digit (last (fst kc))) SYSTEM_LOG_KEY_TO_CATEGORY"
  by code_simp

lemma strip_digits_numeric:
  assumes "ds \<noteq> []" "list_all is_digit ds"
  shows "strip_digits (k @ ''_'' @ ds) = Some k"
proof -
  have ds: "\<forall>x \<in> set (rev ds). is_digit x" using assms by (simp add: list_all_iff)
  have us: "\<not> is_digit CHR ''_''" by (simp add: is_digit_def)
  have "takeWhile is_digit (rev ds @ CHR ''_'' # rev k) = rev ds"
    and "dropWhile is_digit (rev ds @ CHR ''_'' # rev k) = CHR ''_'' # rev k"
    by (subst takeWhile_append2 dropWhile_append2; use ds us in simp)+
  with assms(1) show ?thesis by (simp add: strip_digits_def Let_def)
qed

lemma strip_numeric_suffix_numeric:
  assumes "ds \<noteq> []" "list_all is_digit ds"
  shows "strip_numeric_suffix (k @ ''_'' @ ds) = k"
proof -
  have "is_digit (last ds)" using assms by (simp add: list_all_iff)
  then have "last (k @ ''_'' @ ds) \<noteq> char_of (10 :: nat)"
    using assms(1) by (auto simp: is_digit_def)
  with strip_digits_numeric [OF assms] show ?thesis
    by (simp only: strip_numeric_suffix_def Let_def) simp
qed

text \<open>A key of the v2 table with a numeric suffix (\<^verbatim>\<open>WAN_FAILOVER_2\<close>) classifies as the
  key itself, for every number and whatever the enum.\<close>

theorem classify_numeric_variant:
  assumes "map_of SYSTEM_LOG_KEY_TO_CATEGORY k = Some c"
  shows "classify_event_key (k @ ''_'' @ nat_str n) e = c"
proof -
  let ?v = "k @ ''_'' @ nat_str n"
  have "is_digit (last ?v)" using nat_str_digits [of n] by (simp add: list_all_iff)
  then have "map_of SYSTEM_LOG_KEY_TO_CATEGORY ?v = None"
    using table_keys_end by (force simp: list_all_iff map_of_eq_None_iff)
  moreover have "strip_numeric_suffix ?v = k"
    using strip_numeric_suffix_numeric nat_str_digits by simp
  ultimately show ?thesis
    using assms by (simp add: classify_event_key_def get_nonempty_table)
qed

lemma classify_numeric_variant_witness:
  "classify_event_key (''WAN_FAILOVER'' @ ''_'' @ nat_str 2) [] = CATEGORY_NETWORK_WAN"
  using classify_numeric_variant [of "''WAN_FAILOVER''" CATEGORY_NETWORK_WAN 2 "[]"]
  by (simp add: SYSTEM_LOG_KEY_TO_CATEGORY_def)

subsection \<open>Webhook identifiers\<close>

text \<open>\<^verbatim>\<open>secrets.token_hex(4)\<close>: eight lower-case hexadecimal digits; a legacy entry has no suffix.\<close>

definition is_hex :: "char \<Rightarrow> bool" where
  "is_hex c \<longleftrightarrow> is_digit c \<or> c \<in> set ''abcdef''"

definition entry_suffix :: "string \<Rightarrow> bool" where
  "entry_suffix s \<longleftrightarrow> s = [] \<or> (length s = 8 \<and> list_all is_hex s)"

lemma categories_not_hex: "list_all (\<lambda>c. list_ex (\<lambda>d. \<not> is_hex d) (take 8 c)) ALL_CATEGORIES"
  by code_simp

lemma category_no_suffix:
  assumes "c \<in> set ALL_CATEGORIES" "length s = 8" "list_all is_hex s"
  shows "c \<noteq> s @ t"
proof
  assume "c = s @ t"
  with assms(2) have "take 8 c = s" by simp
  with categories_not_hex assms(1,3) show False by (auto simp: list_all_iff list_ex_iff)
qed

text \<open>Two webhook identifiers are equal only for the same category and the same entry
  suffix: legacy entries (no suffix) and entries with a suffix never share an identifier.\<close>

theorem webhook_id_inject:
  assumes "c \<in> set ALL_CATEGORIES" "c' \<in> set ALL_CATEGORIES" "entry_suffix s" "entry_suffix s'"
  shows "webhook_id_for_category c s = webhook_id_for_category c' s' \<longleftrightarrow> c = c' \<and> s = s'"
  using assms category_no_suffix [of c s' "''_'' @ c'"] category_no_suffix [of c' s "''_'' @ c"]
  by (auto simp: webhook_id_for_category_def entry_suffix_def)

lemma webhook_id_inject_witness:
  "webhook_id_for_category CATEGORY_POWER [] \<noteq> webhook_id_for_category CATEGORY_POWER ''0a1b2c3d''"
  using webhook_id_inject [of CATEGORY_POWER CATEGORY_POWER "[]" "''0a1b2c3d''"]
  by (simp add: ALL_CATEGORIES_def entry_suffix_def is_hex_def is_digit_def)

end
