(* ===== verification/ClientProps.thy ===== *)
theory ClientProps
  imports Client EventKeys
begin

section \<open>Properties of the controller client\<close>

text \<open>
  What the client promises: the discipline of every request it sends (an invariant of
  all its operations, run in any order), the verdict of the authentication, the probe
  order and cache of the alarm endpoints, the bounds on requests and pages, and the
  accounting of the categorised alarms.
\<close>

subsection \<open>Requests\<close>

text \<open>
  The discipline of a request for a client with base URL \<open>b\<close> and configuration
  \<open>cfg\<close>: addressed below the network prefix of the controller, carrying the API
  key, with the configured certificate check, never following a redirect.
\<close>

definition disciplined :: "string \<Rightarrow> dict \<Rightarrow> request \<Rightarrow> bool" where
  "disciplined b cfg rq \<longleftrightarrow>
     startswith (rq_url rq) (b @ UNIFI_OS_NETWORK_PREFIX) \<and>
     map_of (rq_headers rq) ''X-API-Key'' = Some (dget cfg CONF_API_KEY (PStr [])) \<and>
     rq_ssl rq = verify_ssl cfg \<and> \<not> rq_allow_redirects rq \<and> rq_timeout rq \<le> 15"

definition client_ok :: "string \<Rightarrow> dict \<Rightarrow> client \<Rightarrow> bool" where
  "client_ok b cfg c \<longleftrightarrow> cl_base c = b \<and> cl_config c = cfg
     \<and> (\<forall>rq \<in> set (cl_sent c). disciplined b cfg rq)
     \<and> (\<forall>url \<in> snd ` set (cl_alarm_url_cache c). startswith url (b @ UNIFI_OS_NETWORK_PREFIX))"

lemma startswith_app [simp]: "startswith (b @ p @ s) (b @ p)"
  using startswith_append [of "b @ p" s] by simp

lemma api_url_ok: "cl_base c = b \<Longrightarrow> startswith (api_url c p) (b @ UNIFI_OS_NETWORK_PREFIX)"
  by (auto simp: api_url_def)

lemma disciplined_get:
  "startswith url (b @ UNIFI_OS_NETWORK_PREFIX) \<Longrightarrow> disciplined b cfg (api_get cfg url)"
  by (simp add: disciplined_def api_get_def auth_headers_def)

lemma disciplined_post:
  "startswith url (b @ UNIFI_OS_NETWORK_PREFIX) \<Longrightarrow> t \<le> 15 \<Longrightarrow> disciplined b cfg (api_post cfg url j t)"
  by (simp add: disciplined_def api_post_def auth_headers_def)

lemma disciplined_verify: "disciplined b cfg (verify_request b cfg)"
  by (simp add: disciplined_def verify_request_def verify_endpoint_def)

text \<open>Sending a request computed from the state keeps the discipline.\<close>

lemma keeps_request:
  assumes "\<And>c. client_ok b cfg c \<Longrightarrow> disciplined b cfg (f c)"
    and "\<And>out. keepsS (client_ok b cfg) (g out)"
  shows "keepsS (client_ok b cfg) (bindS (getS f) (\<lambda>rq. bindS (send net rq) g))"
proof -
  have "client_ok b cfg (snd (g (net (cl_sent c) (f c)) (c\<lparr>cl_sent := f c # cl_sent c\<rparr>)))"
    if "client_ok b cfg c" for c
    using assms(2) by (rule keepsS_D) (use assms(1) [OF that] that in \<open>simp add: client_ok_def\<close>)
  then show ?thesis by (simp add: keepsS_def act_defs send_def)
qed

lemma keeps_try_fetch:
  assumes "startswith url (b @ UNIFI_OS_NETWORK_PREFIX)"
  shows "keepsS (client_ok b cfg) (try_fetch_alarms net url site)"
  unfolding try_fetch_alarms_def
  by (rule keeps_request) (use assms in \<open>auto simp: client_ok_def intro!: disciplined_get\<close>)

lemma alarm_paths_ok:
  "client_ok b cfg c \<Longrightarrow> path \<in> set (alarm_paths c site) \<Longrightarrow> startswith path (b @ UNIFI_OS_NETWORK_PREFIX)"
  by (auto simp: alarm_paths_def client_ok_def api_url_ok)

lemma update_values: "snd ` set (AList.update k v d) \<subseteq> insert v (snd ` set d)"
  by (induction d) auto

lemma keeps_probe_paths:
  "\<forall>path \<in> set paths. startswith path (b @ UNIFI_OS_NETWORK_PREFIX) \<Longrightarrow>
     keepsS (client_ok b cfg) (probe_paths net site paths)"
proof (induction paths)
  case (Cons path paths)
  have "keepsS (client_ok b cfg) (modifyS (\<lambda>c. c\<lparr>cl_alarm_url_cache :=
          AList.update site path (cl_alarm_url_cache c)\<rparr>))"
    using Cons.prems update_values [of site path]
    by (intro keepsS_modify) (fastforce simp: client_ok_def)
  with Cons show ?case
    by (auto intro!: keepsS_bind keeps_try_fetch split: option.split)
qed auto

lemma keeps_discover: "keepsS (client_ok b cfg) (discover_alarm_url net site)"
proof -
  have "client_ok b cfg (snd (discover_alarm_url net site c))" if ok: "client_ok b cfg c" for c
  proof -
    let ?g = "\<lambda>result. case result of Some alarms \<Rightarrow> returnS alarms
       | None \<Rightarrow> bindS (modifyS (\<lambda>c. c\<lparr>cl_legacy_unavailable :=
                                   AList.update site True (cl_legacy_unavailable c)\<rparr>)) (\<lambda>_.
           bindS (getS (\<lambda>c. no_legacy_message c site)) (\<lambda>m.
           raiseS (AlarmEndpointUnavailableError m)))"
    have "keepsS (client_ok b cfg) (bindS (probe_paths net site (alarm_paths c site)) ?g)"
      using alarm_paths_ok [OF ok]
      by (auto intro!: keepsS_bind keeps_probe_paths keepsS_modify split: option.split
          simp: client_ok_def)
    from keepsS_D [OF this ok] show ?thesis
      by (simp add: discover_alarm_url_def bindS_def [of "getS _"] getS_def)
  qed
  then show ?thesis by (simp add: keepsS_def)
qed

lemma delete_subset: "set (AList.delete k d) \<subseteq> set d"
  by (simp add: AList.delete_eq filter_is_subset)

lemma keeps_fetch_alarms: "keepsS (client_ok b cfg) (fetch_alarms net site)"
proof -
  have "client_ok b cfg (snd (fetch_alarms net site c))" if ok: "client_ok b cfg c" for c
  proof (cases "discovered_alarm_url site c")
    case None
    then show ?thesis
      using keepsS_D [OF keeps_discover ok] by (simp add: fetch_alarms_def act_defs)
  next
    case (Some url)
    then have "startswith url (b @ UNIFI_OS_NETWORK_PREFIX)"
      using ok by (force simp: client_ok_def discovered_alarm_url_def dest: map_of_SomeD)
    moreover have "keepsS (client_ok b cfg) (modifyS (\<lambda>c. c\<lparr>cl_alarm_url_cache :=
        AList.delete site (cl_alarm_url_cache c)\<rparr>))"
      by (rule keepsS_modify) (use delete_subset in \<open>fastforce simp: client_ok_def\<close>)
    ultimately have "keepsS (client_ok b cfg) (bindS (try_fetch_alarms net url site) (\<lambda>result.
             case result of
               Some alarms \<Rightarrow> returnS alarms
             | None \<Rightarrow>
                 bindS (modifyS (\<lambda>c. c\<lparr>cl_alarm_url_cache := AList.delete site (cl_alarm_url_cache c)\<rparr>))
                   (\<lambda>_. discover_alarm_url net site)))"
      by (auto intro!: keepsS_bind keeps_try_fetch keeps_discover split: option.split)
    from keepsS_D [OF this ok] Some show ?thesis
      by (simp add: fetch_alarms_def bindS_def [of "getS _"] getS_def)
  qed
  then show ?thesis by (simp add: keepsS_def)
qed

lemma keeps_categorise: "keepsS (client_ok b cfg) (categorise_alarms net now site)"
proof -
  have "keepsS (client_ok b cfg) (categorise_loop now alarms result)" for alarms result
    by (induction alarms arbitrary: result)
      (auto intro!: keepsS_bind keepsS_when keepsS_modify simp: client_ok_def split: option.split)
  then show ?thesis
    unfolding categorise_alarms_def
    by (auto intro!: keepsS_bind keeps_fetch_alarms keepsS_modify simp: client_ok_def)
qed

lemma keeps_probe: "keepsS (client_ok b cfg) (probe_system_log_endpoint net site)"
  unfolding probe_system_log_endpoint_def
  by (rule keeps_request)
    (auto simp: client_ok_def system_log_url_def intro!: disciplined_post api_url_ok)

lemma keeps_pages: "keepsS (client_ok b cfg) (fetch_pages net site t0 t1 pages results)"
proof (induction pages arbitrary: results)
  case (Cons page pages)
  have "client_ok b cfg c \<Longrightarrow> disciplined b cfg
      (api_post (cl_config c) (system_log_url c site ''all'') (page_body t0 t1 page) 15)" for c
    by (auto simp: client_ok_def system_log_url_def intro!: disciplined_post api_url_ok)
  then show ?case
    unfolding fetch_pages.simps using Cons.IH by (intro keeps_request) (auto intro!: keepsS_bind)
qed auto

lemma keeps_system_log: "keepsS (client_ok b cfg) (fetch_system_log_alarms net now site since)"
  by (simp add: fetch_system_log_alarms_def keeps_pages)

lemma keeps_version: "keepsS (client_ok b cfg) (fetch_controller_version net site)"
  unfolding fetch_controller_version_def
  by (rule keeps_request)
    (auto simp: client_ok_def intro!: disciplined_get api_url_ok keepsS_bind keepsS_when keepsS_modify
      split: option.split)

lemma keeps_authenticate: "keepsS (client_ok b cfg) (authenticate net)"
  by (auto simp: keepsS_def authenticate_def client_ok_def verify_api_key_def Let_def
      intro: disciplined_verify split: prod.splits)

lemma keeps_validate: "keepsS (client_ok b cfg) (validate_connectivity net site)"
proof -
  have se: "keepsS (client_ok b cfg) (site_exists net site)"
    unfolding site_exists_def
    by (rule keeps_request) (auto simp: client_ok_def intro!: disciplined_get api_url_ok)
  have "keepsS (client_ok b cfg) (\<lambda>c. case fetch_alarms net site c of
           (Inr alarms, c') \<Rightarrow> (Inr ''legacy'', c')
         | (Inl e, c') \<Rightarrow>
             (case e of
                AlarmEndpointUnavailableError m \<Rightarrow>
                  bindS (site_exists net site) (\<lambda>known.
                    if known then raiseS (AlarmEndpointUnavailableError m)
                    else raiseS (InvalidSiteError
                           (''Site '' @ quoted site @ '' not found on the controller.''))) c'
              | _ \<Rightarrow> (Inl e, c')))" (is "keepsS _ ?m")
  proof -
    have "client_ok b cfg (snd (?m c))" if "client_ok b cfg c" for c
    proof -
      obtain r c' where f: "fetch_alarms net site c = (r, c')" by (cases "fetch_alarms net site c")
      then have "client_ok b cfg c'" using keepsS_D [OF keeps_fetch_alarms that] by (metis snd_conv)
      moreover have "keepsS (client_ok b cfg) (bindS (site_exists net site) (\<lambda>known.
                    if known then raiseS (AlarmEndpointUnavailableError m)
                    else raiseS (InvalidSiteError
                           (''Site '' @ quoted site @ '' not found on the controller.''))))" for m
        using se by (auto intro!: keepsS_bind)
      ultimately show ?thesis
        by (auto simp: f intro: keepsS_D split: sum.split exn.split)
    qed
    then show ?thesis by (simp add: keepsS_def)
  qed
  then show ?thesis
    unfolding validate_connectivity_def by (auto intro!: keepsS_bind keeps_probe)
qed

text \<open>The operations of a client, run in any order against any controller.\<close>

datatype client_op =
    Authenticate | FetchVersion string | Validate string | FetchAlarms string
  | Categorise pydatetime string | Probe string | FetchSystemLog pydatetime string "pydatetime option"

fun run_client :: "net \<Rightarrow> client \<Rightarrow> client_op \<Rightarrow> client" where
  "run_client net c Authenticate = snd (authenticate net c)"
| "run_client net c (FetchVersion site) = snd (fetch_controller_version net site c)"
| "run_client net c (Validate site) = snd (validate_connectivity net site c)"
| "run_client net c (FetchAlarms site) = snd (fetch_alarms net site c)"
| "run_client net c (Categorise now site) = snd (categorise_alarms net now site c)"
| "run_client net c (Probe site) = snd (probe_system_log_endpoint net site c)"
| "run_client net c (FetchSystemLog now site since) = snd (fetch_system_log_alarms net now site since c)"

interpretation client_runs: event_machine "run_client net" "client_ok b cfg" for net b cfg
proof
  show "client_ok b cfg (run_client net c op)" if "client_ok b cfg c" for c op
    using that by (cases op)
      (simp_all add: keepsS_D keeps_authenticate keeps_version keeps_validate keeps_fetch_alarms
        keeps_categorise keeps_probe keeps_system_log)
qed

lemma new_client_ok: "client_ok (rstrip_char CHR ''/'' url) cfg (new_client url cfg)"
  by (simp add: client_ok_def new_client_def)

text \<open>C27: whatever the controller answers and in whatever order the client's operations run,
  every request it sends goes below the controller's network prefix, carries the configured API key
  and certificate setting, times out within 15 seconds and refuses redirects.\<close>

theorem every_request_disciplined:
  "list_all (disciplined (rstrip_char CHR ''/'' url) cfg)
     (cl_sent (foldl (run_client net) (new_client url cfg) ops))"
  using client_runs.run_inv [OF new_client_ok [of url cfg], where net = net and es = ops]
  by (simp add: client_ok_def list_all_iff)

subsection \<open>Authentication\<close>

lemma verify_body_ok: "verify_body ep v = Inr () \<longleftrightarrow>
    (\<exists>d m. v = PDict d \<and> dget d ''meta'' (PDict []) = PDict m \<and> dget m ''rc'' PNone = PStr ''ok'')"
  by (auto simp: verify_body_def meta_field_def out_simps)

lemma resp_json_any: "resp_json True r = Inr v \<longleftrightarrow> rs_body r = JsonBody v"
  by (auto simp: resp_json_def split: body.splits)

lemma verify_response_ok:
  "verify_response ep r = Inr () \<longleftrightarrow> rs_status r < 400 \<and> \<not> is_redirect (rs_status r)
     \<and> (\<exists>v. rs_body r = JsonBody v \<and> verify_body ep v = Inr ())"
proof -
  have "verify_body ep (PDict []) \<noteq> Inr ()" by (simp add: verify_body_ok)
  then show ?thesis
    by (cases "rs_body r") (auto simp: verify_response_def raise_for_status_def resp_json_def out_simps)
qed

text \<open>C28: authentication succeeds exactly when a key is configured and the controller answers
  the single request without a redirect and below status 400 with a JSON envelope whose
  \<^verbatim>\<open>meta.rc\<close> is \<^verbatim>\<open>ok\<close>: HTTP 200 alone is not enough.\<close>

theorem authenticate_verdict:
  "fst (authenticate net c) = Inr () \<longleftrightarrow>
     truthy (dget (cl_config c) CONF_API_KEY (PStr [])) \<and>
     (\<exists>r d m. net (cl_sent c) (verify_request (cl_base c) (cl_config c)) = Response r
        \<and> rs_status r < 400 \<and> \<not> is_redirect (rs_status r) \<and> rs_body r = JsonBody (PDict d)
        \<and> dget d ''meta'' (PDict []) = PDict m \<and> dget m ''rc'' PNone = PStr ''ok'')"
  by (auto simp: authenticate_def verify_api_key_def Let_def out_simps respond_def verify_response_ok
      verify_body_ok split: outcome.splits)

subsection \<open>Endpoint discovery\<close>

lemma parse_msg_nonempty: "parse_unifi_error_msg r = Inr m \<Longrightarrow> m \<noteq> [] \<Longrightarrow> \<exists>v. rs_body r = JsonBody v"
  by (auto simp: parse_unifi_error_msg_def out_simps resp_json_any split: sum.splits http_error.splits if_splits)

text \<open>A candidate alarm path is skipped exactly when the controller answers 404, or 400 with
  \<^verbatim>\<open>api.err.InvalidObject\<close> in its error envelope; every other answer ends the discovery.\<close>

theorem path_skipped_iff:
  "handled True (respond out (alarms_response site)) = Inr None \<longleftrightarrow>
     (\<exists>r. out = Response r \<and> (rs_status r = 404 \<or>
        (rs_status r = 400 \<and> parse_unifi_error_msg r = Inr ''api.err.InvalidObject'')))"
  by (auto simp: respond_def alarms_response_def Let_def out_simps is_redirect_def
      is_missing_alarm_path_def raise_for_status_def split: outcome.splits if_splits)

lemma try_fetch_alarms_eq:
  "try_fetch_alarms net url site c =
     (handled True (respond (net (cl_sent c) (api_get (cl_config c) url)) (alarms_response site)),
      c\<lparr>cl_sent := api_get (cl_config c) url # cl_sent c\<rparr>)"
  by (simp add: try_fetch_alarms_def act_defs send_def)

lemma probe_paths_found:
  "probe_paths net site paths c = (Inr (Some alarms), c') \<Longrightarrow>
     \<exists>i < length paths. c' = c\<lparr>cl_sent := rev (map (api_get (cl_config c)) (take (Suc i) paths)) @ cl_sent c,
        cl_alarm_url_cache := AList.update site (paths ! i) (cl_alarm_url_cache c)\<rparr>"
proof (induction paths arbitrary: c)
  case (Cons path paths)
  let ?c = "c\<lparr>cl_sent := api_get (cl_config c) path # cl_sent c\<rparr>"
  show ?case
  proof (cases "handled True (respond (net (cl_sent c) (api_get (cl_config c) path)) (alarms_response site))")
    case (Inr res)
    show ?thesis
    proof (cases res)
      case None
      with Inr Cons.prems have "probe_paths net site paths ?c = (Inr (Some alarms), c')"
        by (simp add: bindS_def try_fetch_alarms_eq)
      from Cons.IH [OF this] obtain i where "i < length paths"
        "c' = ?c\<lparr>cl_sent := rev (map (api_get (cl_config c)) (take (Suc i) paths)) @ cl_sent ?c,
           cl_alarm_url_cache := AList.update site (paths ! i) (cl_alarm_url_cache c)\<rparr>" by auto
      then show ?thesis by (intro exI [of _ "Suc i"]) simp
    next
      case (Some a)
      with Inr Cons.prems show ?thesis
        by (intro exI [of _ 0]) (simp add: bindS_def try_fetch_alarms_eq modifyS_def returnS_def)
    qed
  qed (use Cons.prems in \<open>simp add: bindS_def try_fetch_alarms_eq\<close>)
qed (simp add: returnS_def)

lemma probe_paths_none:
  "probe_paths net site paths c = (Inr None, c') \<Longrightarrow>
     c' = c\<lparr>cl_sent := rev (map (api_get (cl_config c)) paths) @ cl_sent c\<rparr>"
proof (induction paths arbitrary: c)
  case (Cons path paths)
  let ?c = "c\<lparr>cl_sent := api_get (cl_config c) path # cl_sent c\<rparr>"
  from Cons.prems have "probe_paths net site paths ?c = (Inr None, c')"
    by (auto simp: bindS_def try_fetch_alarms_eq modifyS_def returnS_def split: sum.splits option.splits)
  from Cons.IH [OF this] show ?case by simp
qed (simp add: returnS_def)

lemma length_alarm_paths [simp]: "length (alarm_paths c site) = 3"
  by (simp add: alarm_paths_def)

lemma discover_cases:
  assumes "discover_alarm_url net site c = (r, c')"
  shows "(\<exists>i < 3. \<exists>alarms. r = Inr alarms \<and>
            c' = c\<lparr>cl_sent := rev (map (api_get (cl_config c)) (take (Suc i) (alarm_paths c site))) @ cl_sent c,
                   cl_alarm_url_cache := AList.update site (alarm_paths c site ! i) (cl_alarm_url_cache c)\<rparr>)
       \<or> (r = Inl (AlarmEndpointUnavailableError (no_legacy_message c site)) \<and>
            c' = c\<lparr>cl_sent := rev (map (api_get (cl_config c)) (alarm_paths c site)) @ cl_sent c,
                   cl_legacy_unavailable := AList.update site True (cl_legacy_unavailable c)\<rparr>)
       \<or> (\<exists>e. r = Inl e \<and> probe_paths net site (alarm_paths c site) c = (Inl e, c'))"
proof -
  obtain q c1 where p: "probe_paths net site (alarm_paths c site) c = (q, c1)"
    by (cases "probe_paths net site (alarm_paths c site) c")
  show ?thesis
  proof (cases q)
    case (Inl e)
    with assms p show ?thesis by (simp add: discover_alarm_url_def act_defs)
  next
    case (Inr res)
    show ?thesis
    proof (cases res)
      case None
      with p Inr have "c1 = c\<lparr>cl_sent := rev (map (api_get (cl_config c)) (alarm_paths c site)) @ cl_sent c\<rparr>"
        by (simp add: probe_paths_none)
      with assms p Inr None show ?thesis
        by (simp add: discover_alarm_url_def act_defs no_legacy_message_def alarm_paths_def api_url_def)
    next
      case (Some alarms)
      with p Inr probe_paths_found [of net site "alarm_paths c site" c alarms c1]
      obtain i where "i < 3"
        "c1 = c\<lparr>cl_sent := rev (map (api_get (cl_config c)) (take (Suc i) (alarm_paths c site))) @ cl_sent c,
           cl_alarm_url_cache := AList.update site (alarm_paths c site ! i) (cl_alarm_url_cache c)\<rparr>"
        by auto
      with assms p Inr Some show ?thesis by (auto simp: discover_alarm_url_def act_defs)
    qed
  qed
qed

lemma handle_unavailable:
  "AlarmEndpointUnavailableError m = handle_client_error st h
     \<longleftrightarrow> h = Raised (AlarmEndpointUnavailableError m)"
  by (cases h) auto

lemma try_fetch_never_unavailable:
  "handled True (respond out (alarms_response site)) \<noteq> Inl (AlarmEndpointUnavailableError m)"
proof -
  have "alarms_response site r \<noteq> Inl (Raised (AlarmEndpointUnavailableError m))" for r
    by (auto simp: alarms_response_def Let_def out_simps parse_unifi_error_msg_def raise_for_status_def
        resp_json_def meta_field_def unarchived_def is_missing_alarm_path_def
        dest!: py_get_err py_iter_err filterE_raises_only split: if_splits sum.splits http_error.splits body.splits)
  then show ?thesis by (auto simp: respond_def out_simps handle_unavailable split: outcome.splits)
qed

lemma probe_paths_never_unavailable:
  "fst (probe_paths net site paths c) \<noteq> Inl (AlarmEndpointUnavailableError m)"
proof (induction paths arbitrary: c)
  case (Cons path paths)
  then show ?case
    using try_fetch_never_unavailable
    by (auto simp: bindS_def try_fetch_alarms_eq modifyS_def returnS_def split: sum.split option.split)
qed (simp add: returnS_def)



subsection \<open>Steady state\<close>

lemma fetch_alarms_cached:
  "discovered_alarm_url site c = Some url \<Longrightarrow>
   fetch_alarms net site c = (case try_fetch_alarms net url site c of
       (Inl e, c') \<Rightarrow> (Inl e, c')
     | (Inr (Some alarms), c') \<Rightarrow> (Inr alarms, c')
     | (Inr None, c') \<Rightarrow>
         discover_alarm_url net site (c'\<lparr>cl_alarm_url_cache := AList.delete site (cl_alarm_url_cache c')\<rparr>))"
  by (auto simp: fetch_alarms_def act_defs split: prod.split sum.split option.split)

lemma fetch_alarms_uncached:
  "discovered_alarm_url site c = None \<Longrightarrow> fetch_alarms net site c = discover_alarm_url net site c"
  by (simp add: fetch_alarms_def act_defs)

text \<open>Once the endpoint of a site is known and still resolves, a poll is one request: the
  alarms come from the cached URL, and neither the cache nor anything else but the request log
  changes.\<close>

theorem steady_state_single_request:
  assumes "discovered_alarm_url site c = Some url"
    and "handled True (respond (net (cl_sent c) (api_get (cl_config c) url)) (alarms_response site))
           = Inr (Some alarms)"
  shows "fetch_alarms net site c = (Inr alarms, c\<lparr>cl_sent := api_get (cl_config c) url # cl_sent c\<rparr>)"
  using assms by (simp add: fetch_alarms_cached try_fetch_alarms_eq)

definition empty_ok :: response where
  "empty_ok = \<lparr>rs_status = 200, rs_json_type = True,
     rs_body = JsonBody (PDict [(''meta'', PDict [(''rc'', PStr ''ok'')]), (''data'', PList [])])\<rparr>"

lemma steady_state_single_request_witness:
  "fst (fetch_alarms (\<lambda>_ _. Response empty_ok) ''s''
     ((new_client ''https://u'' [])\<lparr>cl_alarm_url_cache := [(''s'', ''https://u/x'')]\<rparr>)) = Inr []"
  using steady_state_single_request [of "''s''"
      "(new_client ''https://u'' [])\<lparr>cl_alarm_url_cache := [(''s'', ''https://u/x'')]\<rparr>" "''https://u/x''"
      "\<lambda>_ _. Response empty_ok" "[]"]
  by (simp add: discovered_alarm_url_def respond_def alarms_response_def empty_ok_def is_redirect_def
      raise_for_status_def resp_json_def meta_field_def unarchived_def)

subsection \<open>Bounds on requests\<close>

lemma probe_paths_requests:
  "length (cl_sent (snd (probe_paths net site paths c))) \<le> length (cl_sent c) + length paths"
proof (induction paths arbitrary: c)
  case (Cons path paths)
  show ?case
    using Cons.IH [of "c\<lparr>cl_sent := api_get (cl_config c) path # cl_sent c\<rparr>"]
    by (auto simp: bindS_def try_fetch_alarms_eq modifyS_def returnS_def split: sum.split option.split)
qed (simp add: returnS_def)

lemma discover_requests:
  "length (cl_sent (snd (discover_alarm_url net site c))) \<le> length (cl_sent c) + 3"
  using probe_paths_requests [of net site "alarm_paths c site" c]
  by (auto simp: discover_alarm_url_def act_defs split: prod.splits sum.splits option.splits)

text \<open>Fetching the alarms costs at most four requests, whatever the controller answers: one
  to a cached URL that no longer resolves and one to each of the three candidate paths.\<close>

theorem fetch_alarms_requests:
  "length (cl_sent (snd (fetch_alarms net site c))) \<le> length (cl_sent c) + 4"
proof (cases "discovered_alarm_url site c")
  case None
  then show ?thesis using discover_requests [of net site c] by (simp add: fetch_alarms_uncached)
next
  case (Some url)
  let ?c = "c\<lparr>cl_sent := api_get (cl_config c) url # cl_sent c,
              cl_alarm_url_cache := AList.delete site (cl_alarm_url_cache c)\<rparr>"
  from Some show ?thesis
    using discover_requests [of net site ?c]
    by (auto simp: fetch_alarms_cached try_fetch_alarms_eq split: sum.split option.split)
qed

definition page_request :: "client \<Rightarrow> string \<Rightarrow> int \<Rightarrow> int \<Rightarrow> nat \<Rightarrow> request" where
  "page_request c site t0 t1 page =
     api_post (cl_config c) (system_log_url c site ''all'') (page_body t0 t1 page) 15"

definition is_new_event :: "pyval \<Rightarrow> bool" where
  "is_new_event e = (case e of PDict d \<Rightarrow> dget d ''status'' PNone = PStr ''NEW'' | _ \<Rightarrow> False)"

lemma filterE_holds: "filterE p xs = Inr ys \<Longrightarrow> y \<in> set ys \<Longrightarrow> p y = Inr True"
  by (induction xs arbitrary: ys) (auto simp: out_simps split: if_splits)

lemma page_events_new:
  assumes "page_events page data = Inr (es, stop)" "e \<in> set es"
  shows "is_new_event e"
proof -
  from assms(1) obtain xs where "filterE (\<lambda>e. bindE (py_get e ''status'' PNone) (\<lambda>v. Inr (v = PStr ''NEW''))) xs = Inr es"
    by (auto simp: page_events_def Let_def out_simps)
  from filterE_holds [OF this assms(2)] show ?thesis
    by (auto simp: out_simps is_new_event_def)
qed

lemma fetch_pages_step:
  "fetch_pages net site t0 t1 (page # pages) results c =
     (let rq = page_request c site t0 t1 page; c' = c\<lparr>cl_sent := rq # cl_sent c\<rparr> in
      case bindE (handled True (respond (net (cl_sent c) rq) page_response)) (page_events page) of
        Inl e \<Rightarrow> (Inl e, c')
      | Inr (es, stop) \<Rightarrow>
          if stop then (Inr (results @ es), c')
          else fetch_pages net site t0 t1 pages (results @ es) c')"
proof (cases "handled True (respond (net (cl_sent c) (page_request c site t0 t1 page)) page_response)")
  case (Inr data)
  then show ?thesis
    by (cases "page_events page data")
      (auto simp: bindS_def [of "getS _"] bindS_def [of "send _ _"] bindS_def [of "liftS _"] getS_def
        send_def liftS_def page_request_def Let_def returnS_def)
qed (simp add: bindS_def getS_def send_def liftS_def page_request_def)

lemma fetch_pages_prefix:
  assumes "fetch_pages net site t0 t1 pages results c = (r, c')" "pages \<noteq> []"
    "\<forall>e \<in> set results. is_new_event e"
  shows "\<exists>k. 1 \<le> k \<and> k \<le> length pages \<and>
     c' = c\<lparr>cl_sent := rev (map (page_request c site t0 t1) (take k pages)) @ cl_sent c\<rparr> \<and>
     (\<forall>es. r = Inr es \<longrightarrow> (\<forall>e \<in> set es. is_new_event e))"
  using assms
proof (induction pages arbitrary: results c)
  case (Cons page pages)
  let ?rq = "page_request c site t0 t1 page"
  let ?c = "c\<lparr>cl_sent := ?rq # cl_sent c\<rparr>"
  have pr: "page_request ?c = page_request c"
    by (simp add: fun_eq_iff page_request_def system_log_url_def api_url_def)
  show ?case
  proof (cases "bindE (handled True (respond (net (cl_sent c) ?rq) page_response)) (page_events page)")
    case (Inl e)
    with Cons.prems(1) show ?thesis by (intro exI [of _ 1]) (auto simp: fetch_pages_step Let_def simp del: fetch_pages.simps(2))
  next
    case (Inr es_stop)
    obtain es stop where es: "es_stop = (es, stop)" by (cases es_stop)
    with Inr have "\<forall>e \<in> set es. is_new_event e" by (auto simp: out_simps dest: page_events_new)
    with Cons.prems(3) have new: "\<forall>e \<in> set (results @ es). is_new_event e" by auto
    show ?thesis
    proof (cases "stop \<or> pages = []")
      case True
      with Cons.prems(1) Inr es new show ?thesis
        by (intro exI [of _ 1])
          (auto simp: fetch_pages_step Let_def returnS_def simp del: fetch_pages.simps(2) split: if_splits)
    next
      case False
      with Cons.prems(1) Inr es have "fetch_pages net site t0 t1 pages (results @ es) ?c = (r, c')"
        by (simp add: fetch_pages_step Let_def del: fetch_pages.simps(2))
      from Cons.IH [OF this _ new] False obtain k where "1 \<le> k" "k \<le> length pages"
        "c' = ?c\<lparr>cl_sent := rev (map (page_request c site t0 t1) (take k pages)) @ cl_sent ?c\<rparr>"
        "\<forall>es. r = Inr es \<longrightarrow> (\<forall>e \<in> set es. is_new_event e)"
        by (auto simp: pr)
      then show ?thesis by (intro exI [of _ "Suc k"]) simp
    qed
  qed
qed simp

text \<open>C26: fetching the system log always ends: it asks for the pages 0, 1, 2, \<open>...\<close> in order,
  at least one and at most ten, with one time window, touches nothing but the request log, and
  returns only events whose status is \<^verbatim>\<open>NEW\<close>.\<close>

theorem system_log_pages_bounded:
  "\<exists>k t0. 1 \<le> k \<and> k \<le> MAX_SYSTEM_LOG_PAGES \<and>
     snd (fetch_system_log_alarms net now site since c) =
       c\<lparr>cl_sent := rev (map (page_request c site t0 (to_ms now)) [0..<k]) @ cl_sent c\<rparr> \<and>
     (case fst (fetch_system_log_alarms net now site since c) of
        Inl e \<Rightarrow> True | Inr es \<Rightarrow> list_all is_new_event es)"
proof -
  let ?t = "to_ms (case since of Some t \<Rightarrow> t
            | None \<Rightarrow> dt_add now (- (DEFAULT_SYSTEM_LOG_LOOKBACK_HOURS * 3600000000)))"
  obtain r c' where f: "fetch_pages net site ?t (to_ms now) [0..<MAX_SYSTEM_LOG_PAGES] [] c = (r, c')"
    by (cases "fetch_pages net site ?t (to_ms now) [0..<MAX_SYSTEM_LOG_PAGES] [] c")
  have "[0..<MAX_SYSTEM_LOG_PAGES] \<noteq> []" by (simp add: MAX_SYSTEM_LOG_PAGES_def)
  from fetch_pages_prefix [OF f this] obtain k where k: "1 \<le> k" "k \<le> MAX_SYSTEM_LOG_PAGES"
    and c': "c' = c\<lparr>cl_sent := rev (map (page_request c site ?t (to_ms now)) (take k [0..<MAX_SYSTEM_LOG_PAGES])) @ cl_sent c\<rparr>"
    and new: "\<forall>es. r = Inr es \<longrightarrow> (\<forall>e \<in> set es. is_new_event e)" by auto
  show ?thesis
    using k new f
    by (intro exI [of _ k] exI [of _ ?t])
      (auto simp: fetch_system_log_alarms_def Let_def c' take_upt list_all_iff split: sum.split)
qed

subsection \<open>Accounting of the categorised alarms\<close>

definition group_total :: "('k \<times> 'v list) list \<Rightarrow> nat" where
  "group_total d = sum_list (map (length \<circ> snd) d)"

lemma group_total_update:
  "group_total (AList.update k vs d) + (case map_of d k of None \<Rightarrow> 0 | Some ws \<Rightarrow> length ws)
     = group_total d + length vs"
  by (induction d) (auto simp: group_total_def split: option.splits)

lemma group_total_append [simp]: "group_total (group_append k v d) = Suc (group_total d)"
  using group_total_update [of k "(case map_of d k of None \<Rightarrow> [] | Some vs \<Rightarrow> vs) @ [v]" d]
  by (auto simp: group_append_def split: option.splits)

lemma map_of_group_append:
  "map_of (group_append k v d) j =
     (if j = k then Some ((case map_of d k of None \<Rightarrow> [] | Some vs \<Rightarrow> vs) @ [v]) else map_of d j)"
  by (auto simp: group_append_def dict.lookup_put)

lemma group_append_distinct [simp]:
  "distinct (map fst d) \<Longrightarrow> distinct (map fst (group_append k v d))"
  by (simp add: group_append_def dict.distinct_put)

text \<open>A grouping whose keys are categories and whose members carry the category of their group.\<close>

definition groups_ok :: "categorised \<Rightarrow> bool" where
  "groups_ok d \<longleftrightarrow> distinct (map fst d) \<and> (\<forall>(cat, alerts) \<in> set d. cat \<in> set ALL_CATEGORIES
      \<and> alerts \<noteq> [] \<and> (\<forall>a \<in> set alerts. al_category a = PStr cat \<and> bounded_alert a))"

lemma groups_ok_iff: "groups_ok d \<longleftrightarrow> distinct (map fst d) \<and>
    (\<forall>cat alerts. map_of d cat = Some alerts \<longrightarrow> cat \<in> set ALL_CATEGORIES
      \<and> alerts \<noteq> [] \<and> (\<forall>a \<in> set alerts. al_category a = PStr cat \<and> bounded_alert a))"
  by (fastforce simp: groups_ok_def split_beta)

lemma groups_ok_append:
  assumes "groups_ok d" "cat \<in> set ALL_CATEGORIES" "al_category a = PStr cat" "bounded_alert a"
  shows "groups_ok (group_append cat a d)"
  using assms unfolding groups_ok_iff
  by (auto simp: map_of_group_append split: option.splits if_splits)

lemma groups_ok_Nil [simp]: "groups_ok []"
  by (simp add: groups_ok_def)

definition keyless :: "pyval \<Rightarrow> bool" where
  "keyless alarm = (case alarm of PDict d \<Rightarrow> \<not> truthy (dget d ''key'' (PStr [])) | _ \<Rightarrow> False)"

lemma classify_empty: "classify_event_key [] [] = []"
  by code_simp

lemma classify_alarm_cases:
  assumes "classify_alarm alarm = Inr category"
  obtains d k where "alarm = PDict d" "dget d ''key'' (PStr []) = PStr k"
    "category = (if classify_event_key k [] = [] then None else Some (classify_event_key k []))"
proof -
  from assms obtain d v cat where "alarm = PDict d" and v: "dget d ''key'' (PStr []) = v"
    and cat: "classify_key v = Inr cat" "category = (if cat = [] then None else Some cat)"
    by (auto simp: classify_alarm_def out_simps)
  moreover from cat(1) obtain k where "v = PStr k" "cat = classify_event_key k []"
    by (cases v) (auto simp: classify_key_def)
  ultimately show ?thesis using that by blast
qed

lemma categorise_loop_account:
  assumes "categorise_loop now alarms result c = (Inr res, c')"
    "groups_ok result" "distinct (map fst (cl_unrecognised c))"
  shows "groups_ok res \<and> distinct (map fst (cl_unrecognised c')) \<and>
    int (group_total res) + dict_total (cl_unrecognised c')
      = int (group_total result) + dict_total (cl_unrecognised c)
        + int (length (filter (\<lambda>a. \<not> keyless a) alarms))"
  using assms
proof (induction alarms arbitrary: result c)
  case Nil
  then show ?case by (simp add: returnS_def)
next
  case (Cons alarm alarms)
  from Cons.prems(1) obtain category where cl: "classify_alarm alarm = Inr category"
    by (cases "classify_alarm alarm") (auto simp: bindS_def liftS_def)
  obtain d k where d: "alarm = PDict d" and k: "dget d ''key'' (PStr []) = PStr k"
    and cat: "category = (if classify_event_key k [] = [] then None else Some (classify_event_key k []))"
    by (rule classify_alarm_cases [OF cl])
  have kl: "keyless alarm \<longleftrightarrow> k = []" by (simp add: keyless_def d k)
  show ?case
  proof (cases category)
    case None
    let ?c = "if k = [] then c else c\<lparr>cl_unrecognised := dict_bump k 1 (cl_unrecognised c)\<rparr>"
    from Cons.prems(1) cl None d k have "categorise_loop now alarms result ?c = (Inr res, c')"
      by (auto simp: bindS_def liftS_def whenS_def modifyS_def returnS_def split: if_splits)
    from Cons.IH [OF this Cons.prems(2)] Cons.prems(3) kl show ?thesis
      by (auto split: if_splits)
  next
    case (Some c1)
    with Cons.prems(1) cl obtain alert where al: "from_api_alarm now c1 alarm = Inr alert"
      and rest: "categorise_loop now alarms (group_append c1 alert result) c = (Inr res, c')"
      by (cases "from_api_alarm now c1 alarm") (auto simp: bindS_def liftS_def)
    from cat Some have c1: "c1 = classify_event_key k []" "c1 \<noteq> []" by (auto split: if_splits)
    with classify_range [of k "[]"] have "c1 \<in> set ALL_CATEGORIES" by auto
    then have "groups_ok (group_append c1 alert result)"
      using Cons.prems(2) api_alert [OF al] by (simp add: groups_ok_append)
    moreover from c1 classify_empty have "k \<noteq> []" by auto
    ultimately show ?thesis using Cons.IH [OF rest _ Cons.prems(3)] kl by auto
  qed
qed



subsection \<open>Errors\<close>

text \<open>
  A tame answer: not a total timeout, and a body that either is an envelope (an object
  with an object \<^verbatim>\<open>meta\<close> and a list of objects \<^verbatim>\<open>data\<close>) or is not parsed as one.
\<close>

definition is_dict :: "pyval \<Rightarrow> bool" where
  "is_dict v = (case v of PDict _ \<Rightarrow> True | _ \<Rightarrow> False)"

definition envelope :: "pyval \<Rightarrow> bool" where
  "envelope v = (case v of
       PDict d \<Rightarrow> is_dict (dget d ''meta'' (PDict [])) \<and>
         (case dget d ''data'' (PList []) of PList xs \<Rightarrow> list_all is_dict xs | _ \<Rightarrow> False)
     | _ \<Rightarrow> False)"

definition tame :: "outcome \<Rightarrow> bool" where
  "tame out = (case out of
       Response r \<Rightarrow> (case rs_body r of
           JsonBody v \<Rightarrow> envelope v
         | ReadError n \<Rightarrow> True
         | ReadTimeout \<Rightarrow> False
         | _ \<Rightarrow> rs_status r \<ge> 400 \<or> \<not> rs_json_type r)
     | TimedOut \<Rightarrow> False
     | _ \<Rightarrow> True)"

definition transport_error :: "exn \<Rightarrow> bool" where
  "transport_error e \<longleftrightarrow> is_cannot_connect e \<or> is_invalid_auth e"

lemma transport_error_simps [simp]:
  "transport_error (CannotConnectError m)" "transport_error (SslCertificateError m)"
  "transport_error (InvalidSiteError m)" "transport_error (AlarmEndpointUnavailableError m)"
  "transport_error (InvalidAuthError m u)"
  by (simp_all add: transport_error_def)

lemma is_dict_iff: "is_dict v \<longleftrightarrow> (\<exists>d. v = PDict d)"
  by (cases v) (auto simp: is_dict_def)

lemma meta_field_envelope: "envelope v \<Longrightarrow> \<exists>x. meta_field v k d = Inr x"
  by (auto simp: envelope_def is_dict_iff meta_field_def out_simps split: pyval.splits)

lemma unarchived_envelope: "envelope v \<Longrightarrow> \<exists>xs. unarchived v = Inr xs"
proof -
  assume "envelope v"
  then obtain d xs where v: "v = PDict d" "dget d ''data'' (PList []) = PList xs" "list_all is_dict xs"
    by (auto simp: envelope_def split: pyval.splits)
  have "filterE (\<lambda>a. bindE (py_get a ''archived'' (PBool False)) (\<lambda>v. Inr (\<not> truthy v))) xs =
     Inr (filter (\<lambda>a. case a of PDict e \<Rightarrow> \<not> truthy (dget e ''archived'' (PBool False)) | _ \<Rightarrow> False) xs)"
    using v(3) by (intro filterE_total) (auto simp: list_all_iff is_dict_iff)
  with v show ?thesis by (simp add: unarchived_def)
qed

lemma parse_msg_tame:
  assumes "tame (Response r)" "parse_unifi_error_msg r = Inl h"
  shows "\<exists>n. h = ClientE n"
proof (cases "rs_body r")
  case (JsonBody v)
  with assms(1) have "envelope v" by (simp add: tame_def)
  then obtain x where "meta_field v ''msg'' (PStr []) = Inr x" using meta_field_envelope by blast
  with JsonBody assms(2) show ?thesis by (simp add: parse_unifi_error_msg_def resp_json_def)
qed (use assms in \<open>auto simp: parse_unifi_error_msg_def resp_json_def tame_def split: if_splits\<close>)

lemma alarms_response_tame:
  assumes "tame (Response r)" "alarms_response site r = Inl h"
  shows "transport_error (handle_client_error True h)"
proof (cases "is_redirect (rs_status r) \<or> rs_status r \<in> {401, 404, 400} \<or> rs_status r \<ge> 400")
  case True
  with assms(2) show ?thesis
    by (auto simp: alarms_response_def Let_def out_simps raise_for_status_def
        dest!: parse_msg_tame [OF assms(1)] split: if_splits)
next
  case False
  show ?thesis
  proof (cases "rs_body r")
    case (JsonBody v)
    with assms(1) have v: "envelope v" by (simp add: tame_def)
    obtain a b xs where "meta_field v ''rc'' PNone = Inr a"
      "meta_field v ''msg'' (PStr ''unknown error'') = Inr b" "unarchived v = Inr xs"
      using meta_field_envelope [OF v] unarchived_envelope [OF v] by metis
    with JsonBody False assms(2) show ?thesis
      by (auto simp: alarms_response_def Let_def raise_for_status_def resp_json_def split: if_splits)
  qed (use False assms in \<open>auto simp: alarms_response_def Let_def raise_for_status_def resp_json_def
      tame_def split: if_splits\<close>)
qed

lemma try_fetch_tame:
  "tame out \<Longrightarrow> handled True (respond out (alarms_response site)) = Inl e \<Longrightarrow> transport_error e"
  by (cases out) (auto simp: respond_def out_simps alarms_response_tame tame_def [of TimedOut])

lemma probe_paths_tame:
  assumes "\<And>h rq. tame (net h rq)"
  shows "fst (probe_paths net site paths c) = Inl e \<Longrightarrow> transport_error e"
proof (induction paths arbitrary: c)
  case (Cons path paths)
  then show ?case
    by (auto simp: bindS_def try_fetch_alarms_eq modifyS_def returnS_def
        intro: try_fetch_tame [OF assms] split: sum.splits option.splits)
qed (simp add: returnS_def)

lemma discover_tame:
  assumes "\<And>h rq. tame (net h rq)" "fst (discover_alarm_url net site c) = Inl e"
  shows "transport_error e"
proof -
  obtain c' where d: "discover_alarm_url net site c = (Inl e, c')"
    using assms(2) by (metis prod.collapse)
  have "probe_paths net site (alarm_paths c site) c = (Inl e, c') \<Longrightarrow> transport_error e"
    using probe_paths_tame [of net site "alarm_paths c site" c e] assms(1) by simp
  with discover_cases [OF d] show ?thesis by auto
qed

text \<open>A controller that answers in time with well-formed envelopes (or fails with an HTTP
  status, a client error or a body that is not JSON) never makes \<^verbatim>\<open>fetch_alarms\<close> raise anything
  but the integration's own \<^verbatim>\<open>InvalidAuthError\<close> and \<^verbatim>\<open>CannotConnectError\<close> family, which are
  the exceptions the poll handles.\<close>

theorem fetch_alarms_tame:
  assumes "\<And>h rq. tame (net h rq)" "fst (fetch_alarms net site c) = Inl e"
  shows "transport_error e"
proof (cases "discovered_alarm_url site c")
  case None
  with assms show ?thesis by (auto simp: fetch_alarms_uncached intro: discover_tame)
next
  case (Some url)
  show ?thesis
  proof (cases "handled True (respond (net (cl_sent c) (api_get (cl_config c) url)) (alarms_response site))")
    case (Inl e')
    with Some assms try_fetch_tame show ?thesis by (simp add: fetch_alarms_cached try_fetch_alarms_eq) blast
  next
    case (Inr res)
    with Some assms show ?thesis
      by (cases res) (auto simp: fetch_alarms_cached try_fetch_alarms_eq intro: discover_tame [OF assms(1)])
  qed
qed

lemma fetch_alarms_tame_witness:
  "transport_error (CannotConnectError ''ClientResponseError 500'') \<and>
   fst (fetch_alarms (\<lambda>_ _. Response \<lparr>rs_status = 500, rs_json_type = False, rs_body = BadSyntax\<rparr>) ''s''
     (new_client ''https://u'' [])) = Inl (CannotConnectError (''ClientResponseError '' @ int_str 500))"
proof -
  let ?net = "\<lambda>_ _. Response \<lparr>rs_status = 500, rs_json_type = False, rs_body = BadSyntax\<rparr>"
  have "fst (fetch_alarms ?net ''s'' (new_client ''https://u'' []))
      = Inl (CannotConnectError (''ClientResponseError '' @ int_str 500))"
    by (simp add: fetch_alarms_def discover_alarm_url_def alarm_paths_def bindS_def getS_def
        try_fetch_alarms_eq respond_def alarms_response_def is_redirect_def
        raise_for_status_def discovered_alarm_url_def new_client_def)
  with fetch_alarms_tame [of ?net "''s''" "new_client ''https://u'' []"] show ?thesis
    by (simp add: tame_def)
qed

text \<open>The controller-version lookup, which setup awaits unguarded, does not swallow every
  failure: when its request runs into the total timeout, \<^verbatim>\<open>TimeoutError\<close> escapes, whatever the
  client, although certificate and client errors and error statuses are turned into the cached value.\<close>

theorem fetch_controller_version_errors:
  "fst (fetch_controller_version (\<lambda>_ _. TimedOut) site c) = Inl TimeoutError \<and>
   fst (fetch_controller_version (\<lambda>_ _. CertificateError) site c) = Inr (cl_controller_version c) \<and>
   fst (fetch_controller_version (\<lambda>_ _. ClientFailure n) site c) = Inr (cl_controller_version c) \<and>
   fst (fetch_controller_version (\<lambda>_ _. Response \<lparr>rs_status = 503, rs_json_type = j, rs_body = b\<rparr>) site c)
     = Inr (cl_controller_version c)"
  by (simp add: fetch_controller_version_def bindS_def getS_def send_def liftS_def version_body_def
      respond_def)

end
