(* ===== verification/CoordInv.thy ===== *)
theory CoordInv
  imports Coordinator ClientProps
begin

section \<open>The invariant of the coordinator\<close>

text \<open>
  What holds between any two operations of the coordinator: the category table is
  complete, its watermarks are comparable, every sleeping timer is the registered one
  of its category (so no category has two), and every alerting category has one. Each
  operation is shown to keep it; the runs are an instance of \<open>event_machine\<close>.
\<close>

subsection \<open>The invariant\<close>

definition cat_ok :: "CategoryState \<Rightarrow> bool" where
  "cat_ok st \<longleftrightarrow> state_ok st \<and> (\<forall>t. cs_last_cleared_at st = Some t \<longrightarrow> is_aware t)"

definition states_ok :: "coord \<Rightarrow> bool" where
  "states_ok s \<longleftrightarrow> map fst (co_states s) = ALL_CATEGORIES
     \<and> (\<forall>cat st. map_of (co_states s) cat = Some st \<longrightarrow> cat_ok st)"

text \<open>A live timer of a category: registered for it and still sleeping.\<close>

definition live_timer :: "coord \<Rightarrow> string \<Rightarrow> nat \<Rightarrow> bool" where
  "live_timer s cat i \<longleftrightarrow> map_of (co_clear_tasks s) cat = Some i \<and> i < length (co_tasks s)
     \<and> (\<exists>due. co_tasks s ! i = Sleeping cat due)"

definition timers_ok :: "coord \<Rightarrow> bool" where
  "timers_ok s \<longleftrightarrow> distinct (map fst (co_clear_tasks s))
     \<and> (\<forall>cat i. map_of (co_clear_tasks s) cat = Some i \<longrightarrow> i < length (co_tasks s)
          \<and> (\<forall>c due. co_tasks s ! i = Sleeping c due \<longrightarrow> c = cat))
     \<and> (\<forall>i cat due. i < length (co_tasks s) \<longrightarrow> co_tasks s ! i = Sleeping cat due
          \<longrightarrow> map_of (co_clear_tasks s) cat = Some i)"

definition alerting_ok :: "coord \<Rightarrow> bool" where
  "alerting_ok s \<longleftrightarrow> (\<forall>cat st. map_of (co_states s) cat = Some st \<longrightarrow> cs_is_alerting st
      \<longrightarrow> (\<exists>i. live_timer s cat i))"

definition coord_ok :: "coord \<Rightarrow> bool" where
  "coord_ok s \<longleftrightarrow> states_ok s \<and> timers_ok s \<and> alerting_ok s"

subsection \<open>Timers\<close>

lemma cancel_task_simps [simp]:
  "co_states (cancel_task i s) = co_states s" "co_clear_tasks (cancel_task i s) = co_clear_tasks s"
  "length (co_tasks (cancel_task i s)) = length (co_tasks s)"
  "co_clear_timeout (cancel_task i s) = co_clear_timeout s" "co_config (cancel_task i s) = co_config s"
  by (simp_all add: cancel_task_def)

lemma cancel_task_nth:
  "j < length (co_tasks s) \<Longrightarrow> co_tasks (cancel_task i s) ! j =
     (if j = i \<and> \<not> task_done (co_tasks s ! i) then Cancelled else co_tasks s ! j)"
  by (auto simp: cancel_task_def nth_list_update)

lemma cancel_task_sleeping:
  "j < length (co_tasks s) \<Longrightarrow> co_tasks (cancel_task i s) ! j = Sleeping c due
     \<longleftrightarrow> j \<noteq> i \<and> co_tasks s ! j = Sleeping c due"
  by (auto simp: cancel_task_nth)

lemma map_of_delete: "map_of (AList.delete k d) j = (if j = k then None else map_of d j)"
  by (simp add: delete_conv')

lemma schedule_clear_states [simp]: "co_states (schedule_clear tick cat s) = co_states s"
  by (simp add: schedule_clear_def Let_def split: option.split)

lemma schedule_clear_tasks:
  "co_clear_tasks (schedule_clear tick cat s) = AList.update cat (length (co_tasks s)) (co_clear_tasks s)"
  "length (co_tasks (schedule_clear tick cat s)) = Suc (length (co_tasks s))"
  "co_tasks (schedule_clear tick cat s) ! length (co_tasks s)
     = Sleeping cat (tick + co_clear_timeout s * 60 * 1000000)"
  by (simp_all add: schedule_clear_def Let_def nth_append split: option.split)

lemma schedule_clear_sleeping:
  assumes "j < length (co_tasks s)"
  shows "co_tasks (schedule_clear tick cat s) ! j = Sleeping c due
     \<longleftrightarrow> map_of (co_clear_tasks s) cat \<noteq> Some j \<and> co_tasks s ! j = Sleeping c due"
  using assms
  by (auto simp: schedule_clear_def Let_def nth_append cancel_task_sleeping split: option.split)

lemma timers_okI:
  assumes "distinct (map fst (co_clear_tasks s))"
    and "\<And>cat i. map_of (co_clear_tasks s) cat = Some i \<Longrightarrow> i < length (co_tasks s)"
    and "\<And>cat i c due. map_of (co_clear_tasks s) cat = Some i \<Longrightarrow> co_tasks s ! i = Sleeping c due \<Longrightarrow> c = cat"
    and "\<And>i cat due. i < length (co_tasks s) \<Longrightarrow> co_tasks s ! i = Sleeping cat due
           \<Longrightarrow> map_of (co_clear_tasks s) cat = Some i"
  shows "timers_ok s"
  using assms unfolding timers_ok_def by blast

lemma timers_okD:
  assumes "timers_ok s"
  shows timers_distinct: "distinct (map fst (co_clear_tasks s))"
    and timers_in_range: "map_of (co_clear_tasks s) cat = Some i \<Longrightarrow> i < length (co_tasks s)"
    and timers_own: "map_of (co_clear_tasks s) cat = Some i \<Longrightarrow> co_tasks s ! i = Sleeping c due \<Longrightarrow> c = cat"
    and timers_registered: "i < length (co_tasks s) \<Longrightarrow> co_tasks s ! i = Sleeping cat due
           \<Longrightarrow> map_of (co_clear_tasks s) cat = Some i"
  using assms unfolding timers_ok_def by blast+

lemma timers_ok_schedule:
  assumes "timers_ok s"
  shows "timers_ok (schedule_clear tick cat s)"
proof (rule timers_okI)
  let ?s = "schedule_clear tick cat s" and ?n = "length (co_tasks s)"
  note tn = timers_okD [OF assms]
  show "distinct (map fst (co_clear_tasks ?s))"
    by (simp add: schedule_clear_tasks dict.distinct_put tn(1))
  have reg: "map_of (co_clear_tasks ?s) c = (if c = cat then Some ?n else map_of (co_clear_tasks s) c)" for c
    by (simp add: schedule_clear_tasks dict.lookup_put)
  show "i < length (co_tasks ?s)" if "map_of (co_clear_tasks ?s) c = Some i" for c i
    using that tn(2) [of c i] by (auto simp: reg schedule_clear_tasks(2) split: if_splits)
  show "c' = c" if m: "map_of (co_clear_tasks ?s) c = Some i" and t: "co_tasks ?s ! i = Sleeping c' due"
    for c i c' due
  proof (cases "c = cat")
    case True
    with m t show ?thesis using schedule_clear_tasks(3) [of tick cat s] by (auto simp: reg)
  next
    case False
    with m have c: "map_of (co_clear_tasks s) c = Some i" by (simp add: reg)
    with t have "co_tasks s ! i = Sleeping c' due" using tn(2) schedule_clear_sleeping by blast
    with c show ?thesis by (rule tn(3))
  qed
  show "map_of (co_clear_tasks ?s) c = Some i"
    if i: "i < length (co_tasks ?s)" and t: "co_tasks ?s ! i = Sleeping c due" for i c due
  proof (cases "i = ?n")
    case True
    with t schedule_clear_tasks(3) [of tick cat s] have "c = cat" by simp
    with True show ?thesis by (simp add: reg)
  next
    case False
    with i have "i < ?n" by (simp add: schedule_clear_tasks)
    with t have "map_of (co_clear_tasks s) cat \<noteq> Some i" "co_tasks s ! i = Sleeping c due"
      using schedule_clear_sleeping by blast+
    with tn(4) [OF \<open>i < ?n\<close>] show ?thesis by (auto simp: reg)
  qed
qed

lemma schedule_clear_live [simp]: "live_timer (schedule_clear tick cat s) cat (length (co_tasks s))"
  by (simp add: live_timer_def schedule_clear_tasks dict.lookup_put)

lemma live_not_shared:
  assumes "timers_ok s" "live_timer s c i" "c \<noteq> cat"
  shows "map_of (co_clear_tasks s) cat \<noteq> Some i"
  using assms timers_own [OF assms(1)] unfolding live_timer_def by blast

lemma schedule_clear_live_other:
  assumes "timers_ok s" "live_timer s c i" "c \<noteq> cat"
  shows "live_timer (schedule_clear tick cat s) c i"
  using live_not_shared [OF assms] assms(2,3)
  by (auto simp: live_timer_def schedule_clear_tasks schedule_clear_sleeping dict.lookup_put)

lemma cancel_clear_simps [simp]:
  "co_states (cancel_clear cat s) = co_states s"
  "length (co_tasks (cancel_clear cat s)) = length (co_tasks s)"
  "co_clear_timeout (cancel_clear cat s) = co_clear_timeout s"
  "co_config (cancel_clear cat s) = co_config s"
  by (simp_all add: cancel_clear_def split: option.split)

lemma cancel_clear_tasks:
  "map_of (co_clear_tasks (cancel_clear cat s)) c = (if c = cat then None else map_of (co_clear_tasks s) c)"
  by (auto simp: cancel_clear_def map_of_delete split: option.split)

lemma cancel_clear_sleeping:
  assumes "j < length (co_tasks s)"
  shows "co_tasks (cancel_clear cat s) ! j = Sleeping c due
     \<longleftrightarrow> map_of (co_clear_tasks s) cat \<noteq> Some j \<and> co_tasks s ! j = Sleeping c due"
  using assms by (auto simp: cancel_clear_def cancel_task_sleeping split: option.split)

lemma cancel_clear_distinct:
  "distinct (map fst (co_clear_tasks s)) \<Longrightarrow> distinct (map fst (co_clear_tasks (cancel_clear cat s)))"
  by (auto simp: cancel_clear_def distinct_delete split: option.split)

lemma timers_ok_cancel:
  assumes "timers_ok s"
  shows "timers_ok (cancel_clear cat s)"
proof (rule timers_okI)
  let ?s = "cancel_clear cat s"
  note tn = timers_okD [OF assms]
  show "distinct (map fst (co_clear_tasks ?s))"
    using tn(1) by (rule cancel_clear_distinct)
  show r: "i < length (co_tasks ?s)" if "map_of (co_clear_tasks ?s) c = Some i" for c i
    using that tn(2) [of c i] by (auto simp: cancel_clear_tasks split: if_splits)
  show "c' = c" if "map_of (co_clear_tasks ?s) c = Some i" "co_tasks ?s ! i = Sleeping c' due" for c i c' due
    using that r [OF that(1)] tn(3) [of c i c' due]
    by (auto simp: cancel_clear_tasks cancel_clear_sleeping split: if_splits)
  show "map_of (co_clear_tasks ?s) c = Some i"
    if "i < length (co_tasks ?s)" "co_tasks ?s ! i = Sleeping c due" for i c due
    using that tn(4) [of i c due] by (auto simp: cancel_clear_tasks cancel_clear_sleeping)
qed

lemma cancel_clear_live:
  assumes "timers_ok s" "live_timer s c i" "c \<noteq> cat"
  shows "live_timer (cancel_clear cat s) c i"
  using live_not_shared [OF assms] assms(2,3)
  by (auto simp: live_timer_def cancel_clear_tasks cancel_clear_sleeping)

subsection \<open>Operations on one category\<close>

lemma cat_ok_update [simp]:
  "cat_ok (st\<lparr>cs_open_count := n\<rparr>) = cat_ok st"
  "cat_ok (st\<lparr>cs_is_alerting := b\<rparr>) = cat_ok st"
  "cat_ok (st\<lparr>cs_is_alerting := b, cs_last_alert := a\<rparr>) = cat_ok st"
  "cat_ok (st\<lparr>cs_last_webhook_at := w\<rparr>) = cat_ok st"
  "cat_ok (st\<lparr>cs_alert_count := n\<rparr>) = cat_ok st"
  "cat_ok (st\<lparr>cs_last_alert := a\<rparr>) = cat_ok st"
  "cat_ok (record_filtered al st) = cat_ok st"
  by (simp_all add: cat_ok_def state_ok_def record_filtered_def)

lemma cat_ok_new [simp]: "cat_ok (new_category_state cat e)"
  by (simp add: cat_ok_def new_category_state_def state_ok_def)

lemma cat_ok_clear: "cat_ok st \<Longrightarrow> is_aware now \<Longrightarrow> cat_ok (clear_state now st)"
  by (auto simp: cat_ok_def state_ok_def clear_state_def split: option.splits)

lemma keeps_track_newest: "keepsS cat_ok (track_newest_seen alerts)"
proof -
  have "keepsS cat_ok (bindS (liftS (py_max id (map (ensure_aware \<circ> al_received_at) alerts))) (\<lambda>newest.
           bindS (getS cs_last_alarm_received_at) (\<lambda>last.
           bindS (liftS (newer newest last)) (\<lambda>b.
           whenS b (modifyS (\<lambda>st. st\<lparr>cs_last_alarm_received_at := Some newest\<rparr>))))))"
  proof (cases "py_max id (map (ensure_aware \<circ> al_received_at) alerts)")
    case (Inr m)
    then have "m \<in> set (map (ensure_aware \<circ> al_received_at) alerts)" by (rule py_max_in)
    then have "is_aware m" by auto
    then have "keepsS cat_ok (modifyS (\<lambda>st. st\<lparr>cs_last_alarm_received_at := Some m\<rparr>))"
      by (auto simp: keepsS_def modifyS_def cat_ok_def state_ok_def)
    then have "keepsS cat_ok (bindS (getS cs_last_alarm_received_at) (\<lambda>last.
           bindS (liftS (newer m last)) (\<lambda>b.
           whenS b (modifyS (\<lambda>st. st\<lparr>cs_last_alarm_received_at := Some m\<rparr>)))))"
      by (auto intro!: keepsS_bind keepsS_when)
    with Inr show ?thesis by (simp add: keepsS_def bindS_def [of "liftS _"] liftS_def)
  qed (simp add: keepsS_def bindS_def liftS_def)
  then show ?thesis by (auto simp: track_newest_seen_def)
qed

lemma keeps_poll_state: "keepsS cat_ok (poll_state minimum alerts)"
  unfolding poll_state_def
  by (intro keepsS_bind keepsS_basic keeps_track_newest keepsS_modify)
    (auto intro!: keepsS_bind keepsS_modify)

lemma apply_alert_cat_ok: "cat_ok st \<Longrightarrow> cat_ok (snd (apply_alert a st))"
  using apply_alert_state_ok [of st a] by (simp add: cat_ok_def apply_alert_ok)

lemma newer_cleared:
  "cat_ok st \<Longrightarrow> is_aware t \<Longrightarrow> newer t (cs_last_cleared_at st)
     = Inr (case cs_last_cleared_at st of None \<Rightarrow> True | Some w \<Rightarrow> dt_instant t > dt_instant w)"
  by (rule newer_aware) (auto simp: cat_ok_def)

text \<open>An accepted push never raises; it counts unless the watermark already covers the alert.\<close>

lemma push_state_ok:
  assumes "cat_ok st" "is_aware (al_received_at a)"
  shows "push_state a st = (Inr (), (snd (apply_alert a st))
    \<lparr>cs_last_webhook_at := Some (al_received_at a),
     cs_open_count := cs_open_count st
       + (if (case cs_last_cleared_at st of None \<Rightarrow> True
              | Some w \<Rightarrow> dt_instant (al_received_at a) > dt_instant w) then 1 else 0)\<rparr>)"
proof -
  have ok: "state_ok st" using assms by (simp add: cat_ok_def)
  show ?thesis
    using newer_cleared [OF assms]
    by (simp add: push_state_def bindS_def modifyS_def getS_def liftS_def apply_alert_ok [OF ok]
        whenS_def returnS_def)
qed

lemma push_state_cat_ok:
  "cat_ok st \<Longrightarrow> is_aware (al_received_at a) \<Longrightarrow> cat_ok (snd (push_state a st))"
  using apply_alert_cat_ok [of st a] by (simp add: push_state_ok cat_ok_def state_ok_def)

subsection \<open>Operations of the coordinator\<close>

lemma states_okD: "states_ok s \<Longrightarrow> map_of (co_states s) cat = Some st \<Longrightarrow> cat_ok st"
  by (simp add: states_ok_def)

lemma states_ok_update:
  assumes "states_ok s" "map_of (co_states s) cat = Some st" "cat_ok st'"
  shows "states_ok (s\<lparr>co_states := AList.update cat st' (co_states s)\<rparr>)"
  using assms by (simp add: states_ok_def dict.keys_put_present dict.lookup_put)

text \<open>The part of the state the invariant reads, and the actions that leave it alone.\<close>

definition same_core :: "coord \<Rightarrow> coord \<Rightarrow> bool" where
  "same_core s s' \<longleftrightarrow> co_states s' = co_states s \<and> co_clear_tasks s' = co_clear_tasks s
     \<and> co_tasks s' = co_tasks s \<and> co_config s' = co_config s \<and> co_effects s' = co_effects s
     \<and> co_clear_timeout s' = co_clear_timeout s \<and> co_last_push_at s' = co_last_push_at s
     \<and> co_entry_id s' = co_entry_id s \<and> co_site s' = co_site s"

lemma same_core_refl [simp]: "same_core s s"
  by (simp add: same_core_def)

lemma coord_ok_cong:
  assumes "co_states s' = co_states s" "co_clear_tasks s' = co_clear_tasks s" "co_tasks s' = co_tasks s"
  shows "coord_ok s' = coord_ok s"
  unfolding coord_ok_def states_ok_def timers_ok_def alerting_ok_def live_timer_def assms ..

lemma coord_ok_core: "same_core s s' \<Longrightarrow> coord_ok s \<Longrightarrow> coord_ok s'"
  using coord_ok_cong [of s' s] by (simp add: same_core_def)

lemma core_on_client: "keepsS (same_core s) (on_client m)"
  by (auto simp: keepsS_def on_client_def same_core_def split: prod.splits)

lemma core_probe: "keepsS (same_core s) (probe_has_system_log net t0 t1)"
proof -
  have 1: "keepsS (same_core s) (probe_cache t0)"
    by (auto simp: keepsS_def probe_cache_def same_core_def split: option.split bool.split sum.split)
  have 2: "keepsS (same_core s) (probe_record t1 r)" for r
    by (auto simp: keepsS_def probe_record_def same_core_def Let_def split: option.split bool.split)
  show ?thesis
    unfolding probe_has_system_log_def
    by (auto intro!: keepsS_bind 1 2 core_on_client split: option.split)
qed

lemma core_parse_loop: "keepsS (same_core s) (parse_loop now events result)"
proof -
  have "same_core s x \<Longrightarrow> same_core s (snd (parse_loop now events result x))" for x
  proof (induction events arbitrary: result x)
    case (Cons e es)
    then have "same_core s (x\<lparr>co_seen_unknown := u, co_unrecognised := v\<rparr>)"
      and "same_core s (x\<lparr>co_seen_unknown := u\<rparr>)" for u v
      by (simp_all add: same_core_def)
    with Cons show ?case by (auto simp: Let_def split: sum.split prod.split)
  qed (simp add: returnS_def)
  then show ?thesis by (simp add: keepsS_def)
qed

lemma core_fetch_v2: "keepsS (same_core s) (fetch_v2 net t1 t2)"
  unfolding fetch_v2_def by (auto intro!: keepsS_bind core_on_client core_parse_loop)

lemma keepsS_try:
  "keepsS P m \<Longrightarrow> (\<And>e. keepsS P (h e)) \<Longrightarrow> keepsS P (tryS m h)"
  by (fastforce simp: keepsS_def tryS_def split: prod.splits sum.splits)

lemma core_fetch: "keepsS (same_core s) (fetch_categorised net t0 t1 t2)"
proof -
  have "keepsS (same_core s) (\<lambda>s.
         (case on_client (categorise_alarms net t2 (co_site s)) s of
            (Inr result, s') \<Rightarrow> (Inr result, accumulate_unrecognised s')
          | (Inl e, s') \<Rightarrow>
              (case e of
                 AlarmEndpointUnavailableError m \<Rightarrow> fetch_v2 net t1 t2 s'
               | _ \<Rightarrow> (Inl e, s'))))" (is "keepsS _ ?m")
  proof -
    have "same_core s (snd (?m x))" if x: "same_core s x" for x
    proof -
      obtain r x' where c: "on_client (categorise_alarms net t2 (co_site x)) x = (r, x')"
        by (cases "on_client (categorise_alarms net t2 (co_site x)) x")
      have x': "same_core s x'"
        using keepsS_D [OF core_on_client x, of "categorise_alarms net t2 (co_site x)"] c by simp
      then have "same_core s (accumulate_unrecognised x')"
        by (simp add: same_core_def accumulate_unrecognised_def)
      with x' c keepsS_D [OF core_fetch_v2 x'] show ?thesis
        by (auto split: sum.split exn.split)
    qed
    then show ?thesis by (simp add: keepsS_def)
  qed
  then show ?thesis
    unfolding fetch_categorised_def
    by (auto intro!: keepsS_bind keepsS_try core_probe core_fetch_v2)
qed

subsection \<open>Every operation keeps the invariant\<close>

lemma coord_okD:
  assumes "coord_ok s"
  shows coord_states: "states_ok s" and coord_timers: "timers_ok s" and coord_alerting: "alerting_ok s"
  using assms by (simp_all add: coord_ok_def)

lemma alerting_okD:
  "alerting_ok s \<Longrightarrow> map_of (co_states s) cat = Some st \<Longrightarrow> cs_is_alerting st \<Longrightarrow> \<exists>i. live_timer s cat i"
  unfolding alerting_ok_def by blast

lemma live_timer_states [simp]: "live_timer (s\<lparr>co_states := x\<rparr>) = live_timer s"
  by (simp add: live_timer_def fun_eq_iff)

lemma timers_ok_states [simp]: "timers_ok (s\<lparr>co_states := x\<rparr>) = timers_ok s"
  by (simp add: timers_ok_def)

lemma coord_ok_update:
  assumes "coord_ok s" "map_of (co_states s) cat = Some st" "cat_ok st'"
    "cs_is_alerting st' \<Longrightarrow> cs_is_alerting st"
  shows "coord_ok (s\<lparr>co_states := AList.update cat st' (co_states s)\<rparr>)"
proof -
  note ok = coord_okD [OF assms(1)]
  have "alerting_ok (s\<lparr>co_states := AList.update cat st' (co_states s)\<rparr>)"
    using alerting_okD [OF ok(3)] assms(2,4)
    by (auto simp: alerting_ok_def dict.lookup_put split: if_splits)
  with ok states_ok_update [OF ok(1) assms(2,3)] show ?thesis by (simp add: coord_ok_def)
qed

lemma coord_ok_schedule:
  assumes "states_ok s" "timers_ok s"
    and "\<And>c st. map_of (co_states s) c = Some st \<Longrightarrow> cs_is_alerting st \<Longrightarrow> c \<noteq> cat \<Longrightarrow> \<exists>i. live_timer s c i"
  shows "coord_ok (schedule_clear tick cat s)"
proof -
  have "\<exists>i. live_timer (schedule_clear tick cat s) c i"
    if "map_of (co_states s) c = Some st" "cs_is_alerting st" for c st
  proof (cases "c = cat")
    case False
    with that assms(3) obtain i where "live_timer s c i" by blast
    with schedule_clear_live_other [OF assms(2) _ False] show ?thesis by blast
  qed (use schedule_clear_live in blast)
  then show ?thesis
    using assms(1) timers_ok_schedule [OF assms(2)]
    by (simp add: coord_ok_def states_ok_def alerting_ok_def)
qed

lemma coord_ok_alert:
  assumes "coord_ok s" "map_of (co_states s) cat = Some st" "cat_ok st'"
  shows "coord_ok (schedule_clear tick cat (s\<lparr>co_states := AList.update cat st' (co_states s)\<rparr>))"
proof (rule coord_ok_schedule)
  note ok = coord_okD [OF assms(1)]
  show "states_ok (s\<lparr>co_states := AList.update cat st' (co_states s)\<rparr>)"
    using ok(1) assms(2,3) by (rule states_ok_update)
  show "timers_ok (s\<lparr>co_states := AList.update cat st' (co_states s)\<rparr>)" using ok(2) by simp
  show "\<exists>i. live_timer (s\<lparr>co_states := AList.update cat st' (co_states s)\<rparr>) c i"
    if "map_of (co_states (s\<lparr>co_states := AList.update cat st' (co_states s)\<rparr>)) c = Some sc"
      "cs_is_alerting sc" "c \<noteq> cat" for c sc
    using alerting_okD [OF ok(3), of c sc] that by (simp add: dict.lookup_put)
qed

lemma coord_ok_emit [simp]: "coord_ok (emit e s) = coord_ok s"
  by (rule coord_ok_cong) (simp_all add: emit_def)

lemma coord_ok_persist [simp]: "coord_ok (schedule_persist s) = coord_ok s" "coord_ok (start_save s) = coord_ok s"
  by (simp_all add: schedule_persist_def start_save_def)

lemma track_newest_frame:
  "track_newest_seen es st = (r, st') \<Longrightarrow> \<exists>t. st' = st\<lparr>cs_last_alarm_received_at := t\<rparr>"
  by (auto simp: track_newest_seen_def act_defs split: sum.splits if_splits
      intro: exI [of _ "cs_last_alarm_received_at st"])

lemma poll_state_alerting:
  "poll_state minimum alerts st = (r, st') \<Longrightarrow> r = Inr True \<or> cs_is_alerting st' = cs_is_alerting st"
  by (auto simp: poll_state_def act_defs dest!: track_newest_frame
      split: sum.splits if_splits prod.splits)

lemma coord_ok_poll_category:
  assumes "coord_ok s"
  shows "coord_ok (snd (poll_category tick (cat, alerts) s))"
proof (cases "map_of (co_states s) cat")
  case (Some st)
  let ?m = "poll_state (get_effective_min_severity (co_config s) cat) alerts"
  obtain r st' where p: "?m st = (r, st')" by (cases "?m st")
  have ok: "cat_ok st'"
    using keepsS_D [OF keeps_poll_state states_okD [OF coord_states [OF assms] Some]] p by (metis snd_conv)
  let ?s = "s\<lparr>co_states := AList.update cat st' (co_states s)\<rparr>"
  show ?thesis
  proof (cases "r = Inr True")
    case True
    with coord_ok_alert [OF assms Some ok] assms Some p show ?thesis
      by (simp add: poll_category_def on_state_def bindS_def whenS_def modifyS_def)
  next
    case False
    with poll_state_alerting [OF p] have "coord_ok ?s"
      by (auto intro: coord_ok_update [OF assms Some ok])
    with assms Some p False show ?thesis
      by (auto simp: poll_category_def on_state_def bindS_def whenS_def modifyS_def returnS_def split: sum.split)
  qed
qed (use assms in \<open>simp add: poll_category_def\<close>)

lemma coord_ok_zero:
  assumes "coord_ok s"
  shows "coord_ok (zero_unpolled polled s)"
proof -
  let ?f = "\<lambda>cat st. if cs_enabled st \<and> cat \<notin> set polled then st\<lparr>cs_open_count := 0\<rparr> else st"
  have m: "map_of (map (\<lambda>(cat, st). (cat, ?f cat st)) d) c = map_option (?f c) (map_of d c)" for d c
    by (induction d) auto
  have k: "map (fst \<circ> (\<lambda>(cat, st). (cat, ?f cat st))) d = map fst d" for d
    by (induction d) auto
  note ok = coord_okD [OF assms]
  have "states_ok (zero_unpolled polled s)"
    using ok(1) unfolding states_ok_def zero_unpolled_def by (auto simp: m k)
  moreover have "alerting_ok (zero_unpolled polled s)"
    using alerting_okD [OF ok(3)] by (fastforce simp: alerting_ok_def zero_unpolled_def m)
  ultimately show ?thesis using ok(2) by (simp add: coord_ok_def zero_unpolled_def)
qed

lemma coord_ok_update_data:
  assumes "coord_ok s"
  shows "coord_ok (snd (update_data net t0 t1 t2 tick s))"
proof -
  have "keepsS coord_ok (poll_category tick entry)" for entry
    using coord_ok_poll_category by (cases entry) (simp add: keepsS_def)
  moreover have "keepsS coord_ok (fetch_categorised net t0 t1 t2)"
    unfolding keepsS_def using keepsS_D [OF core_fetch same_core_refl] coord_ok_core by blast
  ultimately have "keepsS coord_ok (update_data net t0 t1 t2 tick)"
    unfolding update_data_def
    by (auto intro!: keepsS_bind keepsS_try keepsS_for keepsS_modify coord_ok_zero)
  then show ?thesis using assms by (rule keepsS_D)
qed

lemma coord_ok_last_push: "coord_ok (s\<lparr>co_last_push_at := x\<rparr>) = coord_ok s"
  by (rule coord_ok_cong) simp_all

lemma meets_effective:
  "\<exists>b. meets_minimum (severity_level a) (get_effective_min_severity config cat) = Inr b"
  unfolding severity_level_def by (rule gate_total_at)

text \<open>The four outcomes of a push.\<close>

lemma push_alert_cases:
  assumes "coord_ok s" "is_aware (al_received_at a)"
  shows "(case map_of (co_states s) cat of None \<Rightarrow> True | Some st \<Rightarrow> \<not> cs_enabled st) \<and>
            push_alert tick cat a s = (Inr (), s)
     \<or> (\<exists>st. map_of (co_states s) cat = Some st \<and> cs_enabled st \<and>
          (meets_minimum (severity_level a) (get_effective_min_severity (co_config s) cat) = Inr False \<and>
             push_alert tick cat a s = (Inr (), schedule_persist (s\<lparr>co_states := AList.update cat
               ((record_filtered a st)\<lparr>cs_last_webhook_at := Some (al_received_at a)\<rparr>) (co_states s)\<rparr>))
         \<or> meets_minimum (severity_level a) (get_effective_min_severity (co_config s) cat) = Inr True \<and>
             (dedup cat (al_key a) tick (co_last_push_at s) = None \<and> push_alert tick cat a s = (Inr (), s)
            \<or> (\<exists>table. dedup cat (al_key a) tick (co_last_push_at s) = Some table \<and>
                 push_alert tick cat a s = (Inr (), emit Notified (schedule_clear tick cat (schedule_persist
                   (s\<lparr>co_last_push_at := table,
                      co_states := AList.update cat (snd (push_state a st)) (co_states s)\<rparr>))))))))"
proof (cases "map_of (co_states s) cat")
  case (Some st)
  obtain b where b: "meets_minimum (severity_level a) (get_effective_min_severity (co_config s) cat) = Inr b"
    using meets_effective by blast
  have st: "cat_ok st" using states_okD [OF coord_states [OF assms(1)] Some] .
  obtain st' where p: "push_state a st = (Inr (), st')"
    using push_state_ok [OF st assms(2)] by blast
  show ?thesis
  proof (cases "cs_enabled st")
    case False
    with Some show ?thesis by (simp add: push_alert_def)
  next
    case True
    show ?thesis
    proof (cases b)
      case True': True
      have "dedup cat (al_key a) tick (co_last_push_at s) = Some table \<Longrightarrow>
          push_alert tick cat a s = (Inr (), emit Notified (schedule_clear tick cat (schedule_persist
                   (s\<lparr>co_last_push_at := table,
                      co_states := AList.update cat (snd (push_state a st)) (co_states s)\<rparr>))))" for table
        using Some True b True' p
        by (simp add: push_alert_def bindS_def modifyS_def on_state_def)
      moreover have "dedup cat (al_key a) tick (co_last_push_at s) = None \<Longrightarrow>
          push_alert tick cat a s = (Inr (), s)"
        using Some True b True' by (simp add: push_alert_def)
      ultimately show ?thesis
        using Some True b True' by (cases "dedup cat (al_key a) tick (co_last_push_at s)") auto
    next
      case False
      with Some True b show ?thesis
        by (simp add: push_alert_def bindS_def on_state_def modifyS_def)
    qed
  qed
qed (simp add: push_alert_def)

lemma coord_ok_push:
  assumes "coord_ok s" "is_aware (al_received_at a)"
  shows "coord_ok (snd (push_alert tick cat a s))"
proof -
  have filtered: "coord_ok (s\<lparr>co_states := AList.update cat
       ((record_filtered a st)\<lparr>cs_last_webhook_at := Some (al_received_at a)\<rparr>) (co_states s)\<rparr>)"
    if st: "map_of (co_states s) cat = Some st" for st
    using states_okD [OF coord_states [OF assms(1)] st]
    by (auto intro!: coord_ok_update [OF assms(1) st] simp: record_filtered_def
        cat_ok_def state_ok_def)
  have applied: "coord_ok (schedule_clear tick cat (schedule_persist (s\<lparr>co_last_push_at := table,
       co_states := AList.update cat (snd (push_state a st)) (co_states s)\<rparr>)))"
    if st: "map_of (co_states s) cat = Some st" for st table
  proof -
    let ?s = "schedule_persist (s\<lparr>co_last_push_at := table\<rparr>)"
    have "coord_ok ?s" using assms(1) by (simp add: coord_ok_last_push)
    moreover have "map_of (co_states ?s) cat = Some st" using st by (simp add: schedule_persist_def emit_def)
    moreover have "cat_ok (snd (push_state a st))"
      using states_okD [OF coord_states [OF assms(1)] st] assms(2) by (rule push_state_cat_ok)
    ultimately have "coord_ok (schedule_clear tick cat
        (?s\<lparr>co_states := AList.update cat (snd (push_state a st)) (co_states ?s)\<rparr>))"
      by (rule coord_ok_alert)
    moreover have "?s\<lparr>co_states := AList.update cat (snd (push_state a st)) (co_states ?s)\<rparr>
        = schedule_persist (s\<lparr>co_last_push_at := table,
            co_states := AList.update cat (snd (push_state a st)) (co_states s)\<rparr>)"
      by (simp add: schedule_persist_def emit_def)
    ultimately show ?thesis by simp
  qed
  from push_alert_cases [OF assms, of cat tick] filtered applied assms(1) show ?thesis by auto
qed

lemma coord_okI: "states_ok s \<Longrightarrow> timers_ok s \<Longrightarrow> alerting_ok s \<Longrightarrow> coord_ok s"
  by (simp add: coord_ok_def)

lemma modify_clear_states:
  assumes "states_ok s" "is_aware now"
  shows "states_ok (s\<lparr>co_states := dict_modify cat (clear_state now) (co_states s)\<rparr>)"
  using assms by (auto simp: states_ok_def intro: cat_ok_clear split: if_splits)

lemma clear_state_not_alerting [simp]: "\<not> cs_is_alerting (clear_state now st)"
  by (simp add: clear_state_def)

lemma clear_state_enabled [simp]: "cs_enabled (clear_state now st) = cs_enabled st"
  by (simp add: clear_state_def)

lemma clear_one_ok:
  assumes "coord_ok s" "is_aware now"
  shows "coord_ok (clear_one now cat s)"
proof (rule coord_okI)
  note ok = coord_okD [OF assms(1)]
  have "states_ok (cancel_clear cat s)" using ok(1) by (simp add: states_ok_def)
  from modify_clear_states [OF this assms(2), of cat] show "states_ok (clear_one now cat s)"
    by (simp add: clear_one_def Let_def)
  show "timers_ok (clear_one now cat s)"
    using timers_ok_cancel [OF ok(2)] by (simp add: clear_one_def Let_def)
  have "\<exists>i. live_timer (cancel_clear cat s) c i"
    if "map_of (co_states s) c = Some st" "cs_is_alerting st" "c \<noteq> cat" for c st
    using alerting_okD [OF ok(3) that(1,2)] cancel_clear_live [OF ok(2) _ that(3)] by blast
  then show "alerting_ok (clear_one now cat s)"
    by (auto simp: alerting_ok_def clear_one_def Let_def split: if_splits)
qed

lemma live_timer_append:
  "live_timer (s\<lparr>co_tasks := co_tasks s @ [Saving]\<rparr>) cat i = live_timer s cat i \<or> i = length (co_tasks s)"
  by (auto simp: live_timer_def nth_append)

lemma coord_ok_append_saving:
  assumes "coord_ok s"
  shows "coord_ok (s\<lparr>co_tasks := co_tasks s @ [Saving]\<rparr>)"
proof (rule coord_okI)
  note ok = coord_okD [OF assms]
  note tn = timers_okD [OF ok(2)]
  let ?s = "s\<lparr>co_tasks := co_tasks s @ [Saving]\<rparr>"
  show "states_ok ?s" using ok(1) by (simp add: states_ok_def)
  have old: "co_tasks ?s ! i = Sleeping c due \<Longrightarrow> i < length (co_tasks ?s)
      \<Longrightarrow> i < length (co_tasks s) \<and> co_tasks s ! i = Sleeping c due" for i c due
    by (auto simp: nth_append less_Suc_eq split: if_splits)
  show "timers_ok ?s"
  proof (rule timers_okI)
    show "distinct (map fst (co_clear_tasks ?s))" using tn(1) by simp
    show lt: "i < length (co_tasks ?s)" if "map_of (co_clear_tasks ?s) c = Some i" for c i
      using tn(2) [of c i] that by simp
    show "c' = c" if "map_of (co_clear_tasks ?s) c = Some i" "co_tasks ?s ! i = Sleeping c' due" for c i c' due
      using tn(3) [of c i c' due] that old [OF that(2) lt [OF that(1)]] by simp
    show "map_of (co_clear_tasks ?s) c = Some i"
      if "i < length (co_tasks ?s)" "co_tasks ?s ! i = Sleeping c due" for i c due
      using tn(4) [of i c due] old [OF that(2,1)] by simp
  qed
  have "live_timer ?s c i" if "live_timer s c i" for c i
    using that by (auto simp: live_timer_def nth_append)
  then show "alerting_ok ?s"
    using alerting_okD [OF ok(3)] by (fastforce simp: alerting_ok_def)
qed

text \<open>A task that leaves the sleeping state, for a category that does not alert.\<close>

lemma coord_ok_task_done:
  assumes "states_ok s" "timers_ok s" "i < length (co_tasks s)" "\<And>c due. x \<noteq> Sleeping c due"
    and "\<And>c st. map_of (co_states s) c = Some st \<Longrightarrow> cs_is_alerting st \<Longrightarrow> \<exists>j. live_timer s c j \<and> j \<noteq> i"
  shows "coord_ok (s\<lparr>co_tasks := (co_tasks s)[i := x]\<rparr>)"
proof (rule coord_okI)
  note tn = timers_okD [OF assms(2)]
  let ?s = "s\<lparr>co_tasks := (co_tasks s)[i := x]\<rparr>"
  show "states_ok ?s" using assms(1) by (simp add: states_ok_def)
  have old: "co_tasks ?s ! j = Sleeping c due \<Longrightarrow> j < length (co_tasks s)
      \<Longrightarrow> co_tasks s ! j = Sleeping c due" for j c due
    using assms(3,4) by (cases "i = j") auto
  show "timers_ok ?s"
  proof (rule timers_okI)
    show "distinct (map fst (co_clear_tasks ?s))" using tn(1) by simp
    show lt: "j < length (co_tasks ?s)" if "map_of (co_clear_tasks ?s) c = Some j" for c j
      using tn(2) [of c j] that by simp
    show "c' = c" if "map_of (co_clear_tasks ?s) c = Some j" "co_tasks ?s ! j = Sleeping c' due" for c j c' due
      using tn(3) [of c j c' due] that old [OF that(2)] lt [OF that(1)] by simp
    show "map_of (co_clear_tasks ?s) c = Some j"
      if "j < length (co_tasks ?s)" "co_tasks ?s ! j = Sleeping c due" for j c due
      using tn(4) [of j c due] that old [OF that(2)] by simp
  qed
  have "live_timer ?s c j" if "live_timer s c j" "j \<noteq> i" for c j
    using that by (auto simp: live_timer_def)
  with assms(5) show "alerting_ok ?s" by (fastforce simp: alerting_ok_def)
qed

lemma coord_ok_clear_category:
  "coord_ok s \<Longrightarrow> is_aware now \<Longrightarrow> coord_ok (clear_category now cat s)"
  by (simp add: clear_category_def Let_def coord_ok_append_saving clear_one_ok)

lemma coord_ok_clear_all:
  assumes "coord_ok s" "is_aware now"
  shows "coord_ok (clear_all now s)"
proof -
  have "coord_ok (fold (clear_one now) cats s)" for cats
    using assms(1) by (induction cats arbitrary: s) (simp_all add: clear_one_ok assms(2))
  then show ?thesis by (simp add: clear_all_def Let_def coord_ok_append_saving)
qed

lemma coord_ok_wake:
  assumes "coord_ok s" "is_aware now" "i < length (co_tasks s)"
  shows "coord_ok (wake now i s)"
proof (cases "co_tasks s ! i")
  case (Sleeping cat due)
  note ok = coord_okD [OF assms(1)]
  have reg: "map_of (co_clear_tasks s) cat = Some i"
    using timers_registered [OF ok(2) assms(3) Sleeping] .
  have other: "j \<noteq> i" if "live_timer s c j" "c \<noteq> cat" for c j
    using live_not_shared [OF ok(2) that] reg by auto
  have idle: "coord_ok (s\<lparr>co_tasks := (co_tasks s)[i := Finished]\<rparr>)"
    if na: "\<And>st. map_of (co_states s) cat = Some st \<Longrightarrow> \<not> cs_is_alerting st"
  proof (rule coord_ok_task_done [OF ok(1,2) assms(3)])
    show "\<exists>j. live_timer s c j \<and> j \<noteq> i" if "map_of (co_states s) c = Some st" "cs_is_alerting st" for c st
      using alerting_okD [OF ok(3) that] other na that by blast
  qed simp
  show ?thesis
  proof (cases "map_of (co_states s) cat")
    case None
    then show ?thesis using idle by (simp add: wake_def Sleeping)
  next
    case (Some st)
    show ?thesis
    proof (cases "cs_is_alerting st")
      case False
      with Some show ?thesis using idle by (simp add: wake_def Sleeping)
    next
      case True
      let ?s = "s\<lparr>co_states := dict_modify cat (clear_state now) (co_states s)\<rparr>"
      have "coord_ok (?s\<lparr>co_tasks := (co_tasks ?s)[i := Saving]\<rparr>)"
      proof (rule coord_ok_task_done)
        show "states_ok ?s" using modify_clear_states [OF ok(1) assms(2)] .
        show "timers_ok ?s" using ok(2) by simp
        show "\<exists>j. live_timer ?s c j \<and> j \<noteq> i"
          if "map_of (co_states ?s) c = Some sc" "cs_is_alerting sc" for c sc
        proof -
          from that have "c \<noteq> cat" "map_of (co_states s) c = Some sc"
            by (auto split: if_splits)
          with alerting_okD [OF ok(3) this(2) that(2)] other show ?thesis by auto
        qed
      qed (use assms(3) in simp_all)
      with Some True show ?thesis by (simp add: wake_def Sleeping)
    qed
  qed
qed (use assms(1) in \<open>simp_all add: wake_def\<close>)

lemma coord_ok_finish_save:
  assumes "coord_ok s" "i < length (co_tasks s)"
  shows "coord_ok (finish_save ok i s)"
proof (cases "co_tasks s ! i = Saving")
  case True
  note c = coord_okD [OF assms(1)]
  have "\<exists>j. live_timer s cat j \<and> j \<noteq> i" if "map_of (co_states s) cat = Some st" "cs_is_alerting st" for cat st
    using alerting_okD [OF c(3) that] True by (auto simp: live_timer_def)
  then have "coord_ok (s\<lparr>co_tasks := (co_tasks s)[i := x]\<rparr>)" if "\<And>cat due. x \<noteq> Sleeping cat due" for x
    using coord_ok_task_done [OF c(1,2) assms(2) that] by blast
  with True show ?thesis by (simp add: finish_save_def)
next
  case False
  with assms(1) show ?thesis by (auto simp: finish_save_def split: task.split)
qed

subsection \<open>Startup\<close>

lemma new_coordinator_fields:
  assumes "new_coordinator client config entry_id = Some s"
  shows "\<exists>enabled. dget config CONF_ENABLED_CATEGORIES (PList (map PStr ALL_CATEGORIES)) = PList enabled
    \<and> co_states s = map (\<lambda>cat. (cat, new_category_state cat (PStr cat \<in> set enabled))) ALL_CATEGORIES
    \<and> co_clear_tasks s = [] \<and> co_tasks s = [] \<and> co_config s = config \<and> co_client s = client
    \<and> co_has_system_log s = None \<and> co_probe_backoff_until s = None \<and> co_probe_fail_count s = 0
    \<and> co_last_push_at s = []"
  using assms by (auto simp: new_coordinator_def split: pyval.splits)

lemma new_coordinator_ok:
  assumes "new_coordinator client config entry_id = Some s"
  shows "coord_ok s"
proof -
  obtain enabled where
    st: "co_states s = map (\<lambda>cat. (cat, new_category_state cat (PStr cat \<in> set enabled))) ALL_CATEGORIES"
    and t: "co_clear_tasks s = []" "co_tasks s = []"
    using new_coordinator_fields [OF assms] by metis
  have m: "map_of (map (\<lambda>cat. (cat, f cat)) cs) c = Some x \<Longrightarrow> x = f c" for f cs c x
    by (induction cs) (auto split: if_splits)
  have new: "x = new_category_state c (PStr c \<in> set enabled)" if "map_of (co_states s) c = Some x" for c x
    using m [of "\<lambda>cat. new_category_state cat (PStr cat \<in> set enabled)" ALL_CATEGORIES c x] that
    by (simp add: st)
  have "map fst (co_states s) = ALL_CATEGORIES" by (simp add: st comp_def)
  moreover have "cat_ok x" if "map_of (co_states s) c = Some x" for c x
    using new [OF that] by simp
  ultimately have "states_ok s" by (simp add: states_ok_def)
  moreover have "timers_ok s" using t by (simp add: timers_ok_def)
  moreover have "\<not> cs_is_alerting x" if "map_of (co_states s) c = Some x" for c x
    using new [OF that] by (simp add: new_category_state_def)
  then have "alerting_ok s" by (simp add: alerting_ok_def)
  ultimately show ?thesis by (rule coord_okI)
qed

text \<open>Stored watermarks that carry an offset, as \<open>build_persist_data\<close> writes them.\<close>

definition aware_time :: "pyval \<Rightarrow> bool" where
  "aware_time v = (case parse_stored_time v of None \<Rightarrow> True | Some t \<Rightarrow> is_aware t)"

definition aware_entry :: "pyval \<Rightarrow> bool" where
  "aware_entry e = (case e of
       PStr s \<Rightarrow> aware_time (PStr s)
     | PDict d \<Rightarrow> aware_time (dget d ''last_cleared_at'' PNone)
     | _ \<Rightarrow> True)"

definition aware_data :: "pyval \<Rightarrow> bool" where
  "aware_data v = (case v of PDict d \<Rightarrow> list_all (\<lambda>(cat, e). aware_entry e) d | _ \<Rightarrow> True)"

text \<open>What a restore of one category keeps: it stays comparable and does not start to alert.\<close>

definition restored_ok :: "bool \<Rightarrow> CategoryState \<Rightarrow> bool" where
  "restored_ok b st \<longleftrightarrow> cat_ok st \<and> cs_is_alerting st = b"

lemma keeps_restore_entry:
  assumes "aware_entry entry"
  shows "keepsS (restored_ok b) (restore_entry now entry)"
proof -
  have rc: "aware_time v \<Longrightarrow> keepsS (restored_ok b) (modifyS (restore_cleared v))" for v
    by (auto simp: keepsS_def modifyS_def restored_ok_def restore_cleared_def aware_time_def cat_ok_def
        state_ok_def split: option.splits)
  have 1: "keepsS (restored_ok b) (modifyS (\<lambda>st. st\<lparr>cs_alert_count := n\<rparr>))"
    and 2: "keepsS (restored_ok b) (modifyS (\<lambda>st. st\<lparr>cs_last_alert := a\<rparr>))"
    and 3: "keepsS (restored_ok b) (modifyS (\<lambda>st. st\<lparr>cs_last_webhook_at := w\<rparr>))" for n a w
    by (auto simp: keepsS_def modifyS_def restored_ok_def)
  show ?thesis
    using assms
    by (cases entry) (auto simp: restore_entry_def aware_entry_def Let_def
        intro!: keepsS_bind keepsS_when rc 1 2 3 split: sum.split option.split)
qed

lemma coord_ok_restore:
  assumes "coord_ok s" "aware_data data"
  shows "coord_ok (snd (restore_watermarks now data s))"
proof (cases "truthy data \<and> (\<exists>d. data = PDict d)")
  case True
  then obtain d where d: "data = PDict d" "truthy data" by blast
  have "keepsS coord_ok (on_state cat () (restore_entry now entry))" if "(cat, entry) \<in> set d" for cat entry
  proof -
    have e: "aware_entry entry" using assms(2) d that by (auto simp: aware_data_def list_all_iff)
    show ?thesis
      unfolding keepsS_def
    proof (intro allI impI)
      fix x assume x: "coord_ok x"
      show "coord_ok (snd (on_state cat () (restore_entry now entry) x))"
      proof (cases "map_of (co_states x) cat")
        case (Some st)
        obtain r st' where p: "restore_entry now entry st = (r, st')"
          by (cases "restore_entry now entry st")
        have "restored_ok (cs_is_alerting st) st"
          using states_okD [OF coord_states [OF x] Some] by (simp add: restored_ok_def)
        from keepsS_D [OF keeps_restore_entry [OF e] this, of now] p
        have "restored_ok (cs_is_alerting st) st'" by simp
        with coord_ok_update [OF x Some, of st'] Some p show ?thesis
          by (simp add: on_state_def restored_ok_def)
      qed (use x in \<open>simp add: on_state_def\<close>)
    qed
  qed
  then have "keepsS coord_ok (forS d (\<lambda>(cat, entry). on_state cat () (restore_entry now entry)))"
    by (intro keepsS_for) auto
  with d keepsS_D [OF this assms(1)] show ?thesis by (simp add: restore_watermarks_def)
next
  case False
  with assms(1) show ?thesis
    by (cases data) (auto simp: restore_watermarks_def returnS_def raiseS_def)
qed

subsection \<open>Runs\<close>

text \<open>
  The events of a loaded entry. Clock readings are aware (the code always asks for
  UTC); an alert is pushed by the webhook handler with such a reading. A timer can
  wake once its due time has come, a save can complete while its task waits. An event
  whose guard fails does nothing.
\<close>

datatype event =
    Poll net pydatetime pydatetime pydatetime int
  | Push int string UniFiAlert
  | ClearCategory pydatetime string
  | ClearAll pydatetime
  | Wake pydatetime int nat
  | SaveDone bool nat

fun enabled_event :: "coord \<Rightarrow> event \<Rightarrow> bool" where
  "enabled_event s (Poll net t0 t1 t2 tick) = (is_aware t0 \<and> is_aware t1 \<and> is_aware t2)"
| "enabled_event s (Push tick cat a) = is_aware (al_received_at a)"
| "enabled_event s (ClearCategory now cat) = is_aware now"
| "enabled_event s (ClearAll now) = is_aware now"
| "enabled_event s (Wake now tick i) = (is_aware now \<and> i < length (co_tasks s) \<and>
     (case co_tasks s ! i of Sleeping cat due \<Rightarrow> due \<le> tick | _ \<Rightarrow> False))"
| "enabled_event s (SaveDone ok i) = (i < length (co_tasks s) \<and> co_tasks s ! i = Saving)"

fun perform :: "coord \<Rightarrow> event \<Rightarrow> coord" where
  "perform s (Poll net t0 t1 t2 tick) = snd (update_data net t0 t1 t2 tick s)"
| "perform s (Push tick cat a) = snd (push_alert tick cat a s)"
| "perform s (ClearCategory now cat) = clear_category now cat s"
| "perform s (ClearAll now) = clear_all now s"
| "perform s (Wake now tick i) = wake now i s"
| "perform s (SaveDone ok i) = finish_save ok i s"

definition run_event :: "coord \<Rightarrow> event \<Rightarrow> coord" where
  "run_event s e = (if enabled_event s e then perform s e else s)"

interpretation coord_runs: event_machine run_event coord_ok
proof
  show "coord_ok (run_event s e)" if "coord_ok s" for s e
    using that
    by (cases e) (auto simp: run_event_def coord_ok_update_data coord_ok_push coord_ok_clear_category
        coord_ok_clear_all coord_ok_wake coord_ok_finish_save)
qed

text \<open>The reachable states of an entry: restored at startup, then any events in any order.\<close>

inductive reachable :: "client \<Rightarrow> dict \<Rightarrow> string \<Rightarrow> coord \<Rightarrow> bool"
  for client :: client and config :: dict and entry_id :: string where
  start: "new_coordinator client config entry_id = Some s \<Longrightarrow> aware_data data \<Longrightarrow>
     reachable client config entry_id (snd (restore_watermarks now data s))"
| step: "reachable client config entry_id s \<Longrightarrow> enabled_event s e \<Longrightarrow>
     reachable client config entry_id (perform s e)"

inductive_cases reachable_cases: "reachable client config entry_id s"

lemma reachable_ok: "reachable client config entry_id s \<Longrightarrow> coord_ok s"
proof (induction rule: reachable.induct)
  case (start s data now)
  then show ?case by (simp add: coord_ok_restore new_coordinator_ok)
next
  case (step s e)
  then show ?case using coord_runs.step_inv [of s e] by (simp add: run_event_def)
qed

lemma reachable_run:
  "reachable client config entry_id s \<Longrightarrow> reachable client config entry_id (foldl run_event s es)"
  by (induction es arbitrary: s) (auto simp: run_event_def intro: reachable.step)

end
