(* ===== verification/CoordProps.thy ===== *)
theory CoordProps
  imports CoordInv
begin

section \<open>Properties of the coordinator\<close>

text \<open>
  What the invariant gives: every alert is eventually cleared by its one timer. Then the
  behaviour of a poll: what it may change and how it counts open alarms against the
  watermark a clear leaves. Pushes and persistence follow in \<open>PushProps\<close>, the probe
  cache and the exceptions of a poll in \<open>PollProps\<close>.
\<close>

subsection \<open>Timers of alerting categories\<close>

text \<open>A coordinator with default settings, and its state after one push: used by the examples.\<close>

definition demo :: coord where
  "demo = the (new_coordinator (new_client ''https://u'' []) [] ''e'')"

definition utc0 :: pydatetime where
  "utc0 = from_wall (738000 * day_us) (Some 0)"

lemma utc0_aware [simp]: "is_aware utc0"
  by (simp add: utc0_def is_aware_def)

lemma demo_new: "new_coordinator (new_client ''https://u'' []) [] ''e'' = Some demo"
  by (simp add: demo_def new_coordinator_def)

lemma demo_ok [simp]: "coord_ok demo"
  using demo_new by (rule new_coordinator_ok)

lemma demo_reachable: "reachable (new_client ''https://u'' []) [] ''e'' demo"
  using reachable.start [OF demo_new, of PNone utc0]
  by (simp add: restore_watermarks_def returnS_def aware_data_def)

lemma sample_aware [simp]: "is_aware (al_received_at sample_alert)"
  by (simp add: sample_alert_def is_aware_def)

definition alarmed :: coord where
  "alarmed = snd (push_alert 0 CATEGORY_POWER sample_alert demo)"

lemma alarmed_reachable: "reachable (new_client ''https://u'' []) [] ''e'' alarmed"
  using reachable.step [OF demo_reachable, of "Push 0 CATEGORY_POWER sample_alert"]
  by (simp add: alarmed_def)

lemma demo_power: "map_of (co_states demo) CATEGORY_POWER = Some (new_category_state CATEGORY_POWER True)"
  by (simp add: demo_def new_coordinator_def ALL_CATEGORIES_def category_defs conf_keys)

lemma sample_passes:
  "meets_minimum (severity_level sample_alert) (get_effective_min_severity [] CATEGORY_POWER) = Inr True"
  by code_simp

lemma demo_fields: "co_config demo = []" "co_last_push_at demo = []" "co_clear_tasks demo = []"
  "co_tasks demo = []" "co_clear_timeout demo = 30" "co_effects demo = []"
  by (simp_all add: demo_def new_coordinator_def DEFAULT_CLEAR_TIMEOUT_def)

lemma alarmed_power:
  "\<exists>st. map_of (co_states alarmed) CATEGORY_POWER = Some st \<and> cs_is_alerting st"
proof -
  have "dedup CATEGORY_POWER (al_key sample_alert) 0 [] = Some [((CATEGORY_POWER, al_key sample_alert), 0)]"
    by (simp add: dedup_def sample_alert_def)
  with push_alert_cases [OF demo_ok sample_aware, of CATEGORY_POWER 0] demo_power sample_passes
  have eq: "alarmed = emit Notified (schedule_clear 0 CATEGORY_POWER (schedule_persist
      (demo\<lparr>co_last_push_at := [((CATEGORY_POWER, al_key sample_alert), 0)],
        co_states := AList.update CATEGORY_POWER (snd (push_state sample_alert
          (new_category_state CATEGORY_POWER True))) (co_states demo)\<rparr>)))"
    by (simp add: alarmed_def demo_fields new_category_state_def)
  have "map_of (co_states alarmed) CATEGORY_POWER
      = Some (snd (push_state sample_alert (new_category_state CATEGORY_POWER True)))"
    unfolding eq by (simp add: emit_def schedule_persist_def dict.lookup_put)
  moreover have "cs_is_alerting (snd (push_state sample_alert (new_category_state CATEGORY_POWER True)))"
    by (simp add: push_state_ok apply_alert_ok)
  ultimately show ?thesis by blast
qed

text \<open>C1: in every state an entry can reach, by any interleaving of polls against any controller,
  pushes, clears, waking timers and completed or failed saves, a category that alerts has a running
  auto-clear timer registered for it: no alert can stay on without being cleared.\<close>

theorem alerting_category_has_timer:
  assumes "reachable client config entry_id s"
    and "map_of (co_states s) cat = Some st" "cs_is_alerting st"
  shows "\<exists>i due. map_of (co_clear_tasks s) cat = Some i \<and> i < length (co_tasks s)
           \<and> co_tasks s ! i = Sleeping cat due"
  using alerting_okD [OF coord_alerting [OF reachable_ok [OF assms(1)]] assms(2,3)]
  by (auto simp: live_timer_def)

lemma alerting_category_has_timer_witness:
  "\<exists>i due. map_of (co_clear_tasks alarmed) CATEGORY_POWER = Some i
     \<and> co_tasks alarmed ! i = Sleeping CATEGORY_POWER due"
proof -
  obtain st where "map_of (co_states alarmed) CATEGORY_POWER = Some st" "cs_is_alerting st"
    using alarmed_power by blast
  from alerting_category_has_timer [OF alarmed_reachable this] show ?thesis by blast
qed

text \<open>C2: no category ever has two running timers: rescheduling and clearing cancel the old one,
  so an alert is not cleared early by a stale timer.\<close>

theorem one_timer_per_category:
  assumes "reachable client config entry_id s"
    and "i < length (co_tasks s)" "co_tasks s ! i = Sleeping cat due"
    and "j < length (co_tasks s)" "co_tasks s ! j = Sleeping cat due'"
  shows "i = j"
proof -
  note reg = timers_registered [OF coord_timers [OF reachable_ok [OF assms(1)]]]
  from reg [OF assms(2,3)] reg [OF assms(4,5)] show ?thesis by simp
qed

lemma one_timer_per_category_witness:
  "\<exists>!i. i < length (co_tasks alarmed) \<and> (\<exists>due. co_tasks alarmed ! i = Sleeping CATEGORY_POWER due)"
proof -
  obtain st where "map_of (co_states alarmed) CATEGORY_POWER = Some st" "cs_is_alerting st"
    using alarmed_power by blast
  then obtain i where "live_timer alarmed CATEGORY_POWER i"
    using alerting_okD [OF coord_alerting [OF reachable_ok [OF alarmed_reachable]]] by blast
  then obtain due where "i < length (co_tasks alarmed)" "co_tasks alarmed ! i = Sleeping CATEGORY_POWER due"
    by (auto simp: live_timer_def)
  with one_timer_per_category [OF alarmed_reachable] show ?thesis by blast
qed

text \<open>C8: an alert always gets cleared: the timer of an alerting category can wake once its due
  time has come; the category then stops alerting, its watermark is set, the snapshot handed to the
  store already contains the cleared state, and the save can complete.\<close>

theorem auto_clear_clears:
  assumes "reachable client config entry_id s" "is_aware now"
    and "map_of (co_states s) cat = Some st" "cs_is_alerting st"
  shows "\<exists>i due. co_tasks s ! i = Sleeping cat due \<and> enabled_event s (Wake now due i) \<and>
    (let s' = perform s (Wake now due i) in
       map_of (co_states s') cat = Some (clear_state now st) \<and>
       co_effects s' = SaveRequested (build_persist_data s') # co_effects s \<and>
       enabled_event s' (SaveDone ok i))"
proof -
  obtain i due where i: "i < length (co_tasks s)" "co_tasks s ! i = Sleeping cat due"
    using alerting_okD [OF coord_alerting [OF reachable_ok [OF assms(1)]] assms(3,4)]
    by (auto simp: live_timer_def)
  with assms(2-) show ?thesis
    by (intro exI [of _ i] exI [of _ due])
      (simp add: Let_def wake_def start_save_def emit_def build_persist_data_def)
qed

lemma auto_clear_clears_witness:
  "\<exists>i due. co_tasks alarmed ! i = Sleeping CATEGORY_POWER due \<and> enabled_event alarmed (Wake utc0 due i)"
proof -
  obtain st where "map_of (co_states alarmed) CATEGORY_POWER = Some st" "cs_is_alerting st"
    using alarmed_power by blast
  from auto_clear_clears [OF alarmed_reachable utc0_aware this] show ?thesis by blast
qed

subsection \<open>What a poll leaves alone\<close>

text \<open>The relation between a category before and after a poll.\<close>

definition poll_frame :: "CategoryState \<Rightarrow> CategoryState \<Rightarrow> bool" where
  "poll_frame st st' \<longleftrightarrow> cs_category st' = cs_category st \<and> cs_enabled st' = cs_enabled st
     \<and> cs_alert_count st' = cs_alert_count st \<and> cs_filtered_count st' = cs_filtered_count st
     \<and> cs_last_cleared_at st' = cs_last_cleared_at st \<and> cs_last_webhook_at st' = cs_last_webhook_at st
     \<and> cs_last_filtered_at st' = cs_last_filtered_at st \<and> (cs_is_alerting st \<longrightarrow> cs_is_alerting st')"

lemma poll_frame_refl [simp]: "poll_frame st st"
  by (simp add: poll_frame_def)

lemma rel_poll_frame_refl [simp]: "rel_option poll_frame x x"
  by (cases x) simp_all

lemma poll_frame_trans: "poll_frame a b \<Longrightarrow> poll_frame b c \<Longrightarrow> poll_frame a c"
  by (simp add: poll_frame_def)

lemma poll_state_frame: "poll_state minimum alerts st = (r, st') \<Longrightarrow> poll_frame st st'"
  by (auto simp: poll_state_def act_defs poll_frame_def dest!: track_newest_frame
      split: sum.splits if_splits prod.splits)

definition states_frame :: "coord \<Rightarrow> coord \<Rightarrow> bool" where
  "states_frame s s' \<longleftrightarrow> (\<forall>cat. rel_option poll_frame (map_of (co_states s) cat) (map_of (co_states s') cat))"

lemma states_frame_same: "co_states s' = co_states s \<Longrightarrow> states_frame s s'"
  by (simp add: states_frame_def option.rel_refl)

lemma states_frame_trans:
  assumes "states_frame a b" "states_frame b c"
  shows "states_frame a c"
  unfolding states_frame_def
proof
  fix cat
  have "rel_option poll_frame (map_of (co_states a) cat) (map_of (co_states b) cat)"
    and "rel_option poll_frame (map_of (co_states b) cat) (map_of (co_states c) cat)"
    using assms by (simp_all add: states_frame_def)
  then show "rel_option poll_frame (map_of (co_states a) cat) (map_of (co_states c) cat)"
    by (cases "map_of (co_states b) cat") (auto simp: option_rel_Some1 option_rel_Some2 intro: poll_frame_trans)
qed

lemma states_frame_update:
  "map_of (co_states s) cat = Some st \<Longrightarrow> poll_frame st st' \<Longrightarrow>
     states_frame s (s\<lparr>co_states := AList.update cat st' (co_states s)\<rparr>)"
  by (auto simp: states_frame_def dict.lookup_put option.rel_refl)

lemma states_frame_poll_category: "states_frame s (snd (poll_category tick (cat, alerts) s))"
proof (cases "map_of (co_states s) cat")
  case (Some st)
  let ?m = "poll_state (get_effective_min_severity (co_config s) cat) alerts"
  obtain r st' where p: "?m st = (r, st')" by (cases "?m st")
  from states_frame_update [OF Some poll_state_frame [OF p]] Some p show ?thesis
    by (auto simp: poll_category_def on_state_def bindS_def whenS_def modifyS_def returnS_def
        states_frame_same states_frame_def split: sum.split)
qed (simp add: poll_category_def states_frame_same)

lemma states_frame_zero: "states_frame s (zero_unpolled polled s)"
proof -
  have "map_of (map (\<lambda>(cat, st). (cat, if cs_enabled st \<and> cat \<notin> set polled
      then st\<lparr>cs_open_count := 0\<rparr> else st)) d) c
    = map_option (\<lambda>st. if cs_enabled st \<and> c \<notin> set polled then st\<lparr>cs_open_count := 0\<rparr> else st) (map_of d c)"
    for d c by (induction d) auto
  then have "map_of (co_states (zero_unpolled polled s)) c = map_option (\<lambda>st. if cs_enabled st \<and> c \<notin> set polled
      then st\<lparr>cs_open_count := 0\<rparr> else st) (map_of (co_states s) c)" for c
    by (simp add: zero_unpolled_def)
  then show ?thesis
    by (simp add: states_frame_def option.rel_map poll_frame_def option.rel_refl)
qed

lemma update_data_frame: "states_frame s (snd (update_data net t0 t1 t2 tick s))"
proof -
  have 1: "keepsS (states_frame s) (fetch_categorised net t0 t1 t2)"
    using keepsS_D [OF core_fetch same_core_refl] states_frame_same states_frame_trans
    by (fastforce simp: keepsS_def same_core_def)
  have 2: "keepsS (states_frame s) (poll_category tick entry)" for entry
    using states_frame_poll_category states_frame_trans by (cases entry) (auto simp: keepsS_def)
  have 3: "keepsS (states_frame s) (modifyS (zero_unpolled polled))" for polled
    using states_frame_zero states_frame_trans by (auto simp: keepsS_def modifyS_def)
  have "keepsS (states_frame s) (update_data net t0 t1 t2 tick)"
    unfolding update_data_def by (auto intro!: keepsS_bind keepsS_try keepsS_for 1 2 3)
  then show ?thesis by (rule keepsS_D) (simp add: states_frame_same)
qed

text \<open>C12: a poll, whatever the controller answers and even when it raises, never clears an
  alerting category, never touches the webhook counters (\<^verbatim>\<open>alert_count\<close>, \<^verbatim>\<open>filtered_count\<close>),
  the webhook times or the acknowledgement watermark, and adds or drops no category.\<close>

theorem poll_keeps_webhook_state:
  "list_all (\<lambda>cat. rel_option poll_frame (map_of (co_states s) cat)
       (map_of (co_states (snd (update_data net t0 t1 t2 tick s))) cat)) cats"
  using update_data_frame [of s net t0 t1 t2 tick] by (simp add: states_frame_def list_all_iff)

subsection \<open>Counting open alarms\<close>

definition counts_as_open :: "string \<Rightarrow> CategoryState \<Rightarrow> UniFiAlert \<Rightarrow> bool" where
  "counts_as_open minimum st a \<longleftrightarrow>
     meets_minimum (severity_level a) minimum = Inr True \<and>
     (case cs_last_cleared_at st of None \<Rightarrow> True
      | Some w \<Rightarrow> dt_instant (al_received_at a) > dt_instant w)"

definition passes :: "string \<Rightarrow> UniFiAlert \<Rightarrow> bool" where
  "passes minimum a \<longleftrightarrow> meets_minimum (severity_level a) minimum = Inr True"

lemma filter_minimum:
  assumes "minimum \<in> set MIN_SEVERITY_ORDER"
  shows "filterE (\<lambda>a. meets_minimum (severity_level a) minimum) alerts = Inr (filter (passes minimum) alerts)"
proof (rule filterE_total)
  fix a
  have "severity_level a \<in> insert SEVERITY_UNKNOWN (set SEVERITY_ORDER)"
    unfolding severity_level_def by (rule normalize_range)
  then show "meets_minimum (severity_level a) minimum = Inr (passes minimum a)"
    using meets_minimum_rank [OF _ assms] by (simp add: passes_def)
qed

text \<open>The newest time of a list of alerts, as \<open>_track_newest_seen\<close> records it.\<close>

lemma track_newest_ok:
  assumes "state_ok st"
  shows "\<exists>t. track_newest_seen alerts st = (Inr (), st\<lparr>cs_last_alarm_received_at := t\<rparr>) \<and>
    (\<forall>u. t = Some u \<longrightarrow> is_aware u) \<and>
    (\<forall>a \<in> set alerts. \<exists>u. t = Some u \<and> dt_instant (al_received_at a) \<le> dt_instant u)"
proof (cases "alerts = []")
  case True
  then show ?thesis
    using assms by (intro exI [of _ "cs_last_alarm_received_at st"])
      (simp add: track_newest_seen_def returnS_def state_ok_def)
next
  case False
  let ?ts = "map (ensure_aware \<circ> al_received_at) alerts"
  have ne: "?ts \<noteq> []" using False by simp
  have "is_aware (id t)" if "t \<in> set ?ts" for t using that by auto
  with py_max_aware [where key = id and xs = ?ts, OF ne]
  have "\<exists>m. py_max id ?ts = Inr m \<and> m \<in> set ?ts \<and> (\<forall>t \<in> set ?ts. dt_instant t \<le> dt_instant m)"
    by (simp only: id_apply)
  then obtain m where m: "py_max id ?ts = Inr m" "m \<in> set ?ts" "\<forall>t \<in> set ?ts. dt_instant t \<le> dt_instant m"
    by (elim exE conjE) (rule that)
  have am: "is_aware m" using m(2) by auto
  have all: "dt_instant (al_received_at a) \<le> dt_instant m" if "a \<in> set alerts" for a
    using m(3) that by auto
  have n: "newer m (cs_last_alarm_received_at st) = Inr (case cs_last_alarm_received_at st of
      None \<Rightarrow> True | Some u \<Rightarrow> dt_instant m > dt_instant u)"
    using assms am by (intro newer_aware) (auto simp: state_ok_def)
  let ?t = "case cs_last_alarm_received_at st of None \<Rightarrow> m | Some u \<Rightarrow> if dt_instant m > dt_instant u then m else u"
  have act: "track_newest_seen alerts st = (Inr (), st\<lparr>cs_last_alarm_received_at := Some ?t\<rparr>)"
    using m(1) n False
    by (simp add: track_newest_seen_def act_defs split: option.split)
  have aw: "is_aware ?t"
    using assms am by (simp add: state_ok_def split: option.split)
  have "dt_instant m \<le> dt_instant ?t" by (simp split: option.split)
  with all have "dt_instant (al_received_at a) \<le> dt_instant ?t" if "a \<in> set alerts" for a
    using that order_trans by blast
  with act aw show ?thesis by (intro exI [of _ "Some ?t"]) simp
qed

lemma filter_watermark:
  assumes "cat_ok st" "\<forall>a \<in> set alerts. is_aware (al_received_at a)"
  shows "(case cs_last_cleared_at st of None \<Rightarrow> Inr (filter (passes minimum) alerts)
      | Some w \<Rightarrow> filterE (\<lambda>a. dt_gt (al_received_at a) w) (filter (passes minimum) alerts))
    = Inr (filter (counts_as_open minimum st) alerts)"
proof (cases "cs_last_cleared_at st")
  case None
  then have "filter (passes minimum) alerts = filter (counts_as_open minimum st) alerts"
    by (auto simp: counts_as_open_def passes_def intro: filter_cong)
  with None show ?thesis by simp
next
  case (Some w)
  with assms(1) have "is_aware w" by (simp add: cat_ok_def)
  then have eq: "filterE (\<lambda>a. dt_gt (al_received_at a) w) (filter (passes minimum) alerts)
      = Inr (filter (\<lambda>a. dt_instant (al_received_at a) > dt_instant w) (filter (passes minimum) alerts))"
    using assms(2) by (intro filterE_total) (simp add: dt_aware)
  have "filter (\<lambda>a. dt_instant (al_received_at a) > dt_instant w) (filter (passes minimum) alerts)
      = filter (counts_as_open minimum st) alerts"
    using Some by (auto simp: counts_as_open_def passes_def intro: filter_cong)
  with eq Some show ?thesis by simp
qed

text \<open>The whole of a category's poll when all times carry an offset.\<close>

lemma poll_state_ok:
  assumes "cat_ok st" "minimum \<in> set MIN_SEVERITY_ORDER"
    and "\<forall>a \<in> set alerts. is_aware (al_received_at a)"
  defines "counted \<equiv> filter (counts_as_open minimum st) alerts"
  shows "\<exists>t. (\<forall>a \<in> set alerts. passes minimum a \<longrightarrow>
          (\<exists>u. t = Some u \<and> is_aware u \<and> dt_instant (al_received_at a) \<le> dt_instant u)) \<and>
    (if counted \<noteq> [] \<and> \<not> cs_is_alerting st
     then \<exists>m \<in> set counted. (\<forall>a \<in> set counted. dt_instant (al_received_at a) \<le> dt_instant (al_received_at m)) \<and>
       poll_state minimum alerts st = (Inr True, st\<lparr>cs_last_alarm_received_at := t,
         cs_open_count := int (length counted), cs_is_alerting := True, cs_last_alert := Some m\<rparr>)
     else poll_state minimum alerts st = (Inr False, st\<lparr>cs_last_alarm_received_at := t,
         cs_open_count := int (length counted)\<rparr>))"
proof -
  let ?el = "filter (passes minimum) alerts"
  have "state_ok st" using assms(1) by (simp add: cat_ok_def)
  from track_newest_ok [OF this, of ?el] obtain t
    where t: "track_newest_seen ?el st = (Inr (), st\<lparr>cs_last_alarm_received_at := t\<rparr>)"
      "\<forall>u. t = Some u \<longrightarrow> is_aware u"
      "\<forall>a \<in> set ?el. \<exists>u. t = Some u \<and> dt_instant (al_received_at a) \<le> dt_instant u"
    by (elim exE conjE) (rule that)
  have w: "(case cs_last_cleared_at st of None \<Rightarrow> Inr ?el
      | Some w \<Rightarrow> filterE (\<lambda>a. dt_gt (al_received_at a) w) ?el) = Inr counted"
    unfolding counted_def using assms(1,3) by (rule filter_watermark)
  have rest: "poll_state minimum alerts st =
      (if counted \<noteq> [] \<and> \<not> cs_is_alerting st
       then (case py_max al_received_at counted of
           Inl e \<Rightarrow> (Inl e, st\<lparr>cs_last_alarm_received_at := t, cs_open_count := int (length counted)\<rparr>)
         | Inr m \<Rightarrow> (Inr True, st\<lparr>cs_last_alarm_received_at := t,
             cs_open_count := int (length counted), cs_is_alerting := True, cs_last_alert := Some m\<rparr>))
       else (Inr False, st\<lparr>cs_last_alarm_received_at := t, cs_open_count := int (length counted)\<rparr>))"
    using filter_minimum [OF assms(2), of alerts] t(1) w
    by (simp add: poll_state_def act_defs split: sum.split)
  show ?thesis
  proof (intro exI [of _ t] conjI)
    show "\<forall>a \<in> set alerts. passes minimum a \<longrightarrow>
          (\<exists>u. t = Some u \<and> is_aware u \<and> dt_instant (al_received_at a) \<le> dt_instant u)"
      using t(2,3) by fastforce
    show "if counted \<noteq> [] \<and> \<not> cs_is_alerting st
     then \<exists>m \<in> set counted. (\<forall>a \<in> set counted. dt_instant (al_received_at a) \<le> dt_instant (al_received_at m)) \<and>
       poll_state minimum alerts st = (Inr True, st\<lparr>cs_last_alarm_received_at := t,
         cs_open_count := int (length counted), cs_is_alerting := True, cs_last_alert := Some m\<rparr>)
     else poll_state minimum alerts st = (Inr False, st\<lparr>cs_last_alarm_received_at := t,
         cs_open_count := int (length counted)\<rparr>)"
    proof (cases "counted \<noteq> [] \<and> \<not> cs_is_alerting st")
      case True
      have "\<forall>a \<in> set counted. is_aware (al_received_at a)" using assms(3) by (auto simp: counted_def)
      with py_max_aware [of counted al_received_at] True obtain m where
        "py_max al_received_at counted = Inr m" "m \<in> set counted"
        "\<forall>a \<in> set counted. dt_instant (al_received_at a) \<le> dt_instant (al_received_at m)" by blast
      with True rest show ?thesis by auto
    qed (use rest in auto)
  qed
qed

lemma poll_category_eq:
  assumes "map_of (co_states s) cat = Some st" "cs_enabled st"
    and "poll_state (get_effective_min_severity (co_config s) cat) alerts st = (Inr b, st')"
  shows "poll_category tick (cat, alerts) s = (Inr (),
     (if b then schedule_clear tick cat else id) (s\<lparr>co_states := AList.update cat st' (co_states s)\<rparr>))"
  using assms
  by (simp add: poll_category_def bindS_def on_state_def whenS_def modifyS_def returnS_def)

text \<open>
  What a poll makes of a category: the alarms counted, the alert they raise, and the
  newest time seen.
\<close>

definition polled :: "string \<Rightarrow> UniFiAlert list \<Rightarrow> CategoryState \<Rightarrow> CategoryState \<Rightarrow> bool" where
  "polled minimum alerts st st' \<longleftrightarrow>
     (let counted = filter (counts_as_open minimum st) alerts in
      poll_frame st st' \<and> cs_open_count st' = int (length counted) \<and>
      (cs_is_alerting st' \<longleftrightarrow> cs_is_alerting st \<or> counted \<noteq> []) \<and>
      (if cs_is_alerting st \<or> counted = [] then cs_last_alert st' = cs_last_alert st
       else \<exists>m \<in> set counted. cs_last_alert st' = Some m \<and>
         list_all (\<lambda>a. dt_instant (al_received_at a) \<le> dt_instant (al_received_at m)) counted) \<and>
      (\<forall>a \<in> set alerts. passes minimum a \<longrightarrow> (\<exists>u. cs_last_alarm_received_at st' = Some u \<and>
         is_aware u \<and> dt_instant (al_received_at a) \<le> dt_instant u)))"

lemma poll_state_polled:
  assumes "cat_ok st" "minimum \<in> set MIN_SEVERITY_ORDER"
    and "\<forall>a \<in> set alerts. is_aware (al_received_at a)"
  shows "\<exists>b st'. poll_state minimum alerts st = (Inr b, st') \<and> polled minimum alerts st st' \<and>
    (b \<longleftrightarrow> \<not> cs_is_alerting st \<and> filter (counts_as_open minimum st) alerts \<noteq> [])"
proof -
  let ?c = "filter (counts_as_open minimum st) alerts"
  obtain t where t: "\<forall>a \<in> set alerts. passes minimum a \<longrightarrow>
          (\<exists>u. t = Some u \<and> is_aware u \<and> dt_instant (al_received_at a) \<le> dt_instant u)"
    and run: "if ?c \<noteq> [] \<and> \<not> cs_is_alerting st
     then \<exists>m \<in> set ?c. (\<forall>a \<in> set ?c. dt_instant (al_received_at a) \<le> dt_instant (al_received_at m)) \<and>
       poll_state minimum alerts st = (Inr True, st\<lparr>cs_last_alarm_received_at := t,
         cs_open_count := int (length ?c), cs_is_alerting := True, cs_last_alert := Some m\<rparr>)
     else poll_state minimum alerts st = (Inr False, st\<lparr>cs_last_alarm_received_at := t,
         cs_open_count := int (length ?c)\<rparr>)"
    using poll_state_ok [OF assms] by (elim exE conjE) (rule that)
  show ?thesis
  proof (cases "?c \<noteq> [] \<and> \<not> cs_is_alerting st")
    case True
    from run [unfolded if_P [OF True]] obtain m where m: "m \<in> set ?c"
      "\<forall>a \<in> set ?c. dt_instant (al_received_at a) \<le> dt_instant (al_received_at m)"
      and p: "poll_state minimum alerts st = (Inr True, st\<lparr>cs_last_alarm_received_at := t,
         cs_open_count := int (length ?c), cs_is_alerting := True, cs_last_alert := Some m\<rparr>)"
      by (elim bexE conjE) (rule that)
    from True m t have "polled minimum alerts st (st\<lparr>cs_last_alarm_received_at := t,
         cs_open_count := int (length ?c), cs_is_alerting := True, cs_last_alert := Some m\<rparr>)"
      using poll_state_frame [OF p] by (simp add: polled_def Let_def list_all_iff)
    with p True show ?thesis by (intro exI [of _ True] exI conjI) auto
  next
    case False
    from run [unfolded if_not_P [OF False]] have p: "poll_state minimum alerts st
       = (Inr False, st\<lparr>cs_last_alarm_received_at := t, cs_open_count := int (length ?c)\<rparr>)" .
    from False t have "polled minimum alerts st (st\<lparr>cs_last_alarm_received_at := t, cs_open_count := int (length ?c)\<rparr>)"
      using poll_state_frame [OF p] by (auto simp: polled_def Let_def)
    with p False show ?thesis by auto
  qed
qed

lemma poll_category_polled:
  assumes "coord_ok s" "map_of (co_states s) cat = Some st" "cs_enabled st"
    and "\<forall>a \<in> set alerts. is_aware (al_received_at a)"
  shows "\<exists>b st'. poll_category tick (cat, alerts) s = (Inr (),
       (if b then schedule_clear tick cat else id) (s\<lparr>co_states := AList.update cat st' (co_states s)\<rparr>))
    \<and> polled (get_effective_min_severity (co_config s) cat) alerts st st'"
  using poll_state_polled [OF states_okD [OF coord_states [OF assms(1)] assms(2)] effective_range assms(4)]
    poll_category_eq [OF assms(2,3)] by blast

text \<open>C10: polling a category counts exactly the alarms that pass its minimum severity and are newer
  than its acknowledgement watermark; the category then alerts if it did before or if one is
  counted, a new alert shows the newest counted alarm, and no other category is touched.\<close>

theorem poll_counts_open_alarms:
  assumes "coord_ok s" "map_of (co_states s) cat = Some st" "cs_enabled st"
    and "list_all (\<lambda>a. is_aware (al_received_at a)) alerts"
  shows "case poll_category tick (cat, alerts) s of (r, s') \<Rightarrow> r = Inr ()
    \<and> (\<exists>st'. map_of (co_states s') cat = Some st'
         \<and> polled (get_effective_min_severity (co_config s) cat) alerts st st')
    \<and> (map_of (co_states s'))(cat := None) = (map_of (co_states s))(cat := None)"
proof -
  have "\<forall>a \<in> set alerts. is_aware (al_received_at a)" using assms(4) by (simp add: list_all_iff)
  from poll_category_polled [OF assms(1-3) this, of tick] obtain b st' where
    p: "poll_category tick (cat, alerts) s = (Inr (),
       (if b then schedule_clear tick cat else id) (s\<lparr>co_states := AList.update cat st' (co_states s)\<rparr>))"
    and st': "polled (get_effective_min_severity (co_config s) cat) alerts st st'" by blast
  then show ?thesis
    by (simp add: dict.lookup_put update_conv')
qed

text \<open>A polled alarm of the demo coordinator, used by the examples.\<close>

lemma sample_counts: "counts_as_open (get_effective_min_severity [] CATEGORY_POWER)
    (new_category_state CATEGORY_POWER True) sample_alert"
  by (simp add: counts_as_open_def new_category_state_def sample_passes)

lemma poll_counts_open_alarms_witness:
  "\<exists>st'. map_of (co_states (snd (poll_category 0 (CATEGORY_POWER, [sample_alert]) demo))) CATEGORY_POWER = Some st'
     \<and> cs_open_count st' = 1 \<and> cs_is_alerting st' \<and> cs_last_alert st' = Some sample_alert"
  using poll_counts_open_alarms [OF demo_ok demo_power, of "[sample_alert]" 0] sample_counts
  by (auto simp: demo_fields new_category_state_def polled_def Let_def split: prod.splits)

subsection \<open>Acknowledgement\<close>

lemma clear_category_states:
  "map_of (co_states (clear_category now cat s)) c =
     (if c = cat then map_option (clear_state now) (map_of (co_states s) cat) else map_of (co_states s) c)"
  by (auto simp: clear_category_def clear_one_def start_save_def emit_def Let_def)

lemma clear_category_config [simp]: "co_config (clear_category now cat s) = co_config s"
  by (simp add: clear_category_def clear_one_def start_save_def emit_def Let_def)

lemma schedule_clear_config [simp]: "co_config (schedule_clear tick cat s) = co_config s"
  by (simp add: schedule_clear_def Let_def split: option.split)

text \<open>After a clear, whatever has the watermark it set counts none of the polled alarms.\<close>

lemma cleared_covers:
  assumes "coord_ok s" "map_of (co_states s) cat = Some st" "cs_enabled st" "is_aware now"
    and "list_all (\<lambda>a. is_aware (al_received_at a)) alerts" "set again \<subseteq> set alerts"
    and cleared_def: "cleared = clear_category now cat (snd (poll_category tick (cat, alerts) s))"
  obtains st1 where "coord_ok cleared" "co_config cleared = co_config s"
    "map_of (co_states cleared) cat = Some (clear_state now st1)" "cs_enabled st1"
    "\<And>st'. cs_last_cleared_at st' = cs_last_cleared_at (clear_state now st1) \<Longrightarrow>
       filter (counts_as_open (get_effective_min_severity (co_config s) cat) st') again = []"
proof -
  let ?m = "get_effective_min_severity (co_config s) cat"
  have aware: "\<forall>a \<in> set alerts. is_aware (al_received_at a)" using assms(5) by (simp add: list_all_iff)
  from poll_category_polled [OF assms(1-3) aware, of tick] obtain b st1 where
    p: "poll_category tick (cat, alerts) s = (Inr (),
       (if b then schedule_clear tick cat else id) (s\<lparr>co_states := AList.update cat st1 (co_states s)\<rparr>))"
    and st1: "polled ?m alerts st st1" by blast
  have "coord_ok cleared"
    unfolding cleared_def using coord_ok_poll_category [OF assms(1)] assms(4) by (rule coord_ok_clear_category)
  moreover have "map_of (co_states cleared) cat = Some (clear_state now st1)"
    unfolding cleared_def by (simp add: clear_category_states p dict.lookup_put)
  moreover have "cs_enabled st1" using st1 assms(3) by (simp add: polled_def poll_frame_def Let_def)
  moreover have "co_config cleared = co_config s" unfolding cleared_def by (simp add: p)
  moreover have "\<not> counts_as_open ?m st' a"
    if st': "cs_last_cleared_at st' = cs_last_cleared_at (clear_state now st1)" and a: "a \<in> set again" for st' a
  proof
    assume c: "counts_as_open ?m st' a"
    then have "passes ?m a" by (simp add: counts_as_open_def passes_def)
    with st1 a assms(6) obtain u where "cs_last_alarm_received_at st1 = Some u"
      "dt_instant (al_received_at a) \<le> dt_instant u" by (force simp: polled_def Let_def)
    with c st' show False by (simp add: counts_as_open_def clear_state_def)
  qed
  ultimately show ?thesis by (intro that) (auto simp: filter_empty_conv)
qed



end
