(* ===== verification/PushProps.thy ===== *)
theory PushProps
  imports CoordProps
begin

section \<open>Properties of the push path and of persistence\<close>

text \<open>
  What a webhook push does to its category and to the outside, the duplicate window
  over sequences of pushes, and the restoration of what was stored.
\<close>

subsection \<open>Webhook pushes\<close>

lemma emit_simps [simp]: "co_states (emit e s) = co_states s" "co_config (emit e s) = co_config s"
  "co_effects (emit e s) = e # co_effects s" "co_last_push_at (emit e s) = co_last_push_at s"
  by (simp_all add: emit_def)

lemma schedule_clear_simps [simp]:
  "co_effects (schedule_clear tick cat s) = co_effects s"
  "co_last_push_at (schedule_clear tick cat s) = co_last_push_at s"
  by (simp_all add: schedule_clear_def cancel_task_def Let_def split: option.split)



subsection \<open>The duplicate window\<close>

text \<open>What the table of recent pushes holds: one entry per key, none older than the window.\<close>

definition table_ok :: "int \<Rightarrow> ((string \<times> pyval) \<times> int) list \<Rightarrow> bool" where
  "table_ok now table \<longleftrightarrow> distinct (map fst table)
     \<and> list_all (\<lambda>kt. now - WEBHOOK_DEDUP_WINDOW \<le> snd kt \<and> snd kt \<le> now) table"

lemma distinct_filter_keys: "distinct (map fst d) \<Longrightarrow> distinct (map fst (filter P d))"
  by (rule distinct_map_filter)

lemma update_all: "list_all P d \<Longrightarrow> P (k, v) \<Longrightarrow> list_all P (AList.update k v d)"
  by (induction d) auto

lemma dedup_table_ok:
  assumes "table_ok prev table" "prev \<le> now" "dedup cat key now table = Some table'" "truthy key"
  shows "table_ok now table' \<and> map_of table' (cat, key) = Some now"
proof -
  let ?f = "filter (\<lambda>kt. snd kt \<ge> now - WEBHOOK_DEDUP_WINDOW) table"
  have t': "table' = AList.update (cat, key) now ?f"
    using assms(3,4) by (auto simp: dedup_def split: option.splits if_splits)
  have "list_all (\<lambda>kt. now - WEBHOOK_DEDUP_WINDOW \<le> snd kt \<and> snd kt \<le> now) ?f"
    using assms(1,2) by (auto simp: table_ok_def list_all_iff)
  then have "list_all (\<lambda>kt. now - WEBHOOK_DEDUP_WINDOW \<le> snd kt \<and> snd kt \<le> now) table'"
    unfolding t' by (rule update_all) (simp add: WEBHOOK_DEDUP_WINDOW_def)
  moreover have "distinct (map fst table')"
    using assms(1) unfolding t' by (simp add: table_ok_def dict.distinct_put distinct_filter_keys)
  ultimately show ?thesis by (simp add: table_ok_def t' dict.lookup_put)
qed

text \<open>Accepted pushes only: the subsequence that \<open>dedup\<close> lets through.\<close>

fun dedup_accepted :: "(string \<times> pyval \<times> int) list \<Rightarrow> ((string \<times> pyval) \<times> int) list \<Rightarrow> (string \<times> pyval \<times> int) list" where
  "dedup_accepted [] table = []"
| "dedup_accepted ((cat, key, now) # ps) table = (case dedup cat key now table of
       None \<Rightarrow> dedup_accepted ps table
     | Some table' \<Rightarrow> (cat, key, now) # dedup_accepted ps table')"

definition spaced :: "string \<times> pyval \<times> int \<Rightarrow> string \<times> pyval \<times> int \<Rightarrow> bool" where
  "spaced p q \<longleftrightarrow> fst p = fst q \<and> fst (snd p) = fst (snd q) \<and> truthy (fst (snd p))
     \<longrightarrow> snd (snd q) - snd (snd p) \<ge> WEBHOOK_DEDUP_WINDOW"

lemma map_of_filter_keys:
  "distinct (map fst d) \<Longrightarrow> map_of (filter P d) k
     = (case map_of d k of None \<Rightarrow> None | Some v \<Rightarrow> if P (k, v) then Some v else None)"
  by (induction d) (force split: option.split dest: map_of_SomeD)+

text \<open>A recorded push keeps its key suppressed until the window is over.\<close>

lemma dedup_accepted_after:
  assumes "table_ok prev table" "map_of table (cat, key) = Some t"
    and "sorted (prev # map (\<lambda>p. snd (snd p)) ps)" "(cat, key, now) \<in> set (dedup_accepted ps table)" "truthy key"
  shows "now \<ge> t + WEBHOOK_DEDUP_WINDOW"
  using assms
proof (induction ps arbitrary: prev table t)
  case (Cons p ps)
  obtain c k n where p: "p = (c, k, n)" by (cases p)
  from Cons.prems(3) p have n: "prev \<le> n" "sorted (n # map (\<lambda>p. snd (snd p)) ps)" "sorted (prev # map (\<lambda>p. snd (snd p)) ps)"
    by auto
  have sub: "set (dedup_accepted qs tab) \<subseteq> set qs" for qs tab
    by (induction qs tab rule: dedup_accepted.induct) (auto split: option.splits)
  show ?case
  proof (cases "dedup c k n table")
    case None
    with Cons p n show ?thesis by simp
  next
    case (Some table')
    note new = this
    show ?thesis
    proof (cases "truthy k")
      case False
      with new have "table' = table" by (simp add: dedup_def)
      with Cons p n new False show ?thesis by auto
    next
      case True
      have ok: "table_ok n table'" "map_of table' (c, k) = Some n"
        using dedup_table_ok [OF Cons.prems(1) n(1) new True] by auto
      show ?thesis
      proof (cases "(c, k) = (cat, key)")
        case same: True
        with new Cons.prems(2) True have t: "n - t \<ge> WEBHOOK_DEDUP_WINDOW"
          by (auto simp: dedup_def split: if_splits)
        from Cons.prems(4) p new consider "now = n" | "(cat, key, now) \<in> set (dedup_accepted ps table')" by auto
        then show ?thesis
        proof cases
          case 2
          from Cons.IH [OF ok(1) ok(2) [unfolded same] n(2) 2 Cons.prems(5)] t show ?thesis
            by (simp add: WEBHOOK_DEDUP_WINDOW_def)
        qed (use t in simp)
      next
        case other: False
        from Cons.prems(4) p new other have later: "(cat, key, now) \<in> set (dedup_accepted ps table')" by auto
        show ?thesis
        proof (cases "t \<ge> n - WEBHOOK_DEDUP_WINDOW")
          case True
          with new other Cons.prems(1,2) \<open>truthy k\<close> have "map_of table' (cat, key) = Some t"
            by (auto simp: dedup_def table_ok_def dict.lookup_put map_of_filter_keys split: option.splits if_splits)
          from Cons.IH [OF ok(1) this n(2) later Cons.prems(5)] show ?thesis .
        next
          case False
          from later sub have "(cat, key, now) \<in> set ps" by blast
          with n(2) have "n \<le> now" by force
          with False show ?thesis by simp
        qed
      qed
    qed
  qed
qed simp



subsection \<open>Persistence\<close>

text \<open>A category state that the store can represent: valid times and a bounded alert.\<close>

definition storable :: "CategoryState \<Rightarrow> bool" where
  "storable st \<longleftrightarrow> (case cs_last_cleared_at st of None \<Rightarrow> True | Some t \<Rightarrow> valid_dt t)
     \<and> (case cs_last_webhook_at st of None \<Rightarrow> True | Some t \<Rightarrow> valid_dt t)
     \<and> (case cs_last_alert st of None \<Rightarrow> True | Some a \<Rightarrow> valid_dt (al_received_at a) \<and> bounded_alert a)"

text \<open>The state after a restart: what is stored, in a category that is otherwise new.\<close>

definition restored :: "CategoryState \<Rightarrow> CategoryState \<Rightarrow> CategoryState" where
  "restored st fresh = fresh\<lparr>
     cs_last_cleared_at := (case cs_last_cleared_at st of None \<Rightarrow> cs_last_cleared_at fresh | t \<Rightarrow> t),
     cs_alert_count := cs_alert_count st,
     cs_last_alert := (case cs_last_alert st of None \<Rightarrow> cs_last_alert fresh | a \<Rightarrow> a),
     cs_last_webhook_at := (case cs_last_webhook_at st of None \<Rightarrow> cs_last_webhook_at fresh | t \<Rightarrow> t)\<rparr>"

lemma restore_persisted_entry:
  assumes "storable st"
  shows "restore_entry now (PDict (persist_entry st)) fresh = (Inr (), restored st fresh)"
proof -
  have a: "from_dict now (PDict (to_dict a)) = Inr a" if "cs_last_alert st = Some a" for a
    using assms that from_to_dict [of a now] by (simp add: storable_def bounded_alert_def)
  have t: "fromisoformat (isoformat t) = Some t"
    if "cs_last_cleared_at st = Some t \<or> cs_last_webhook_at st = Some t" for t
    using assms that by (intro iso.roundtrip) (auto simp: storable_def)
  show ?thesis
    using a t
    by (cases "cs_last_cleared_at st"; cases "cs_last_alert st"; cases "cs_last_webhook_at st")
      (simp_all add: restore_entry_def persist_entry_def Let_def act_defs restored_def restore_cleared_def
        parse_stored_time_def)
qed

text \<open>Restoring a list of entries touches each named category once.\<close>

lemma restore_entries:
  assumes "distinct (map fst d)" "list_all (\<lambda>e. storable (snd e)) d"
  shows "\<exists>states. forS (map (\<lambda>(cat, st). (cat, PDict (persist_entry st))) d)
       (\<lambda>(cat, entry). on_state cat () (restore_entry now entry)) s = (Inr (), s\<lparr>co_states := states\<rparr>)
     \<and> (\<forall>c. map_of states c = (case (map_of (co_states s) c, map_of d c) of
          (Some fresh, Some st) \<Rightarrow> Some (restored st fresh) | (fresh, _) \<Rightarrow> fresh))"
  using assms
proof (induction d arbitrary: s)
  case Nil
  then show ?case by (intro exI [of _ "co_states s"]) (simp add: returnS_def split: option.split)
next
  case (Cons e d)
  obtain cat st where e: "e = (cat, st)" by (cases e)
  have ok: "storable st" and d: "distinct (map fst d)" "list_all (\<lambda>e. storable (snd e)) d"
    using Cons.prems e by auto
  have new: "map_of d cat = None" using Cons.prems(1) e by (simp add: map_of_eq_None_iff)
  let ?s = "case map_of (co_states s) cat of None \<Rightarrow> s
    | Some fresh \<Rightarrow> s\<lparr>co_states := AList.update cat (restored st fresh) (co_states s)\<rparr>"
  have "on_state cat () (restore_entry now (PDict (persist_entry st))) s = (Inr (), ?s)"
    by (simp add: on_state_def restore_persisted_entry [OF ok] split: option.split)
  moreover obtain states where run: "forS (map (\<lambda>(cat, st). (cat, PDict (persist_entry st))) d)
       (\<lambda>(cat, entry). on_state cat () (restore_entry now entry)) ?s = (Inr (), ?s\<lparr>co_states := states\<rparr>)"
    and get: "\<And>c. map_of states c = (case (map_of (co_states ?s) c, map_of d c) of
          (Some fresh, Some st) \<Rightarrow> Some (restored st fresh) | (fresh, _) \<Rightarrow> fresh)"
    using Cons.IH [OF d, where s = ?s] by blast
  ultimately have "forS (map (\<lambda>(cat, st). (cat, PDict (persist_entry st))) (e # d))
       (\<lambda>(cat, entry). on_state cat () (restore_entry now entry)) s = (Inr (), s\<lparr>co_states := states\<rparr>)"
    by (simp add: e bindS_def split: option.splits)
  moreover have "map_of states c = (case (map_of (co_states s) c, map_of (e # d) c) of
          (Some fresh, Some st) \<Rightarrow> Some (restored st fresh) | (fresh, _) \<Rightarrow> fresh)" for c
    using get [of c] new by (auto simp: e dict.lookup_put split: option.splits)
  ultimately show ?case by blast
qed

lemma persist_restored:
  assumes "states_ok s" "list_all (\<lambda>e. storable (snd e)) (co_states s)"
    and "new_coordinator client config entry_id = Some fresh"
  shows "\<exists>states. restore_watermarks now (PDict (build_persist_data s)) fresh
        = (Inr (), fresh\<lparr>co_states := states\<rparr>)
     \<and> map_of states = (\<lambda>c. case (map_of (co_states fresh) c, map_of (co_states s) c) of
          (Some new, Some st) \<Rightarrow> Some (restored st new) | _ \<Rightarrow> None)"
proof -
  have keys: "map fst (co_states s) = ALL_CATEGORIES" "map fst (co_states fresh) = ALL_CATEGORIES"
    using assms(1) coord_states [OF new_coordinator_ok [OF assms(3)]] by (simp_all add: states_ok_def)
  have d: "distinct (map fst (co_states s))"
    by (simp add: keys ALL_CATEGORIES_def category_defs)
  from restore_entries [OF d assms(2), where now = now and s = fresh] obtain states where
    run: "forS (build_persist_data s) (\<lambda>(cat, entry). on_state cat () (restore_entry now entry)) fresh
        = (Inr (), fresh\<lparr>co_states := states\<rparr>)"
    and get: "\<And>c. map_of states c = (case (map_of (co_states fresh) c, map_of (co_states s) c) of
          (Some fresh, Some st) \<Rightarrow> Some (restored st fresh) | (fresh, _) \<Rightarrow> fresh)"
    unfolding build_persist_data_def by blast
  have "build_persist_data s \<noteq> []"
    using keys(1) by (auto simp: build_persist_data_def ALL_CATEGORIES_def)
  with run have "restore_watermarks now (PDict (build_persist_data s)) fresh
        = (Inr (), fresh\<lparr>co_states := states\<rparr>)" by (simp add: restore_watermarks_def)
  moreover have same: "map_of (co_states fresh) c = None \<longleftrightarrow> map_of (co_states s) c = None" for c
    by (simp add: map_of_eq_None_iff flip: set_map) (simp add: keys)
  have "map_of states = (\<lambda>c. case (map_of (co_states fresh) c, map_of (co_states s) c) of
          (Some new, Some st) \<Rightarrow> Some (restored st new) | _ \<Rightarrow> None)"
  proof
    fix c
    show "map_of states c = (case (map_of (co_states fresh) c, map_of (co_states s) c) of
          (Some new, Some st) \<Rightarrow> Some (restored st new) | _ \<Rightarrow> None)"
      using get [of c] same [of c] by (auto split: option.splits)
  qed
  ultimately show ?thesis by blast
qed

text \<open>C16: what the coordinator hands to the store is what it reads back after a restart: every
  category of the new coordinator gets the stored watermark, alert count, last alert and last webhook
  time, and keeps its fresh value for everything else; nothing raises.\<close>

theorem persist_restore_roundtrip:
  assumes "states_ok s" "list_all (\<lambda>e. storable (snd e)) (co_states s)"
    and "new_coordinator client config entry_id = Some fresh"
  shows "\<exists>states. restore_watermarks now (PDict (build_persist_data s)) fresh
        = (Inr (), fresh\<lparr>co_states := states\<rparr>)
     \<and> map_of states = (\<lambda>c. case (map_of (co_states fresh) c, map_of (co_states s) c) of
          (Some new, Some st) \<Rightarrow> Some (restored st new) | _ \<Rightarrow> None)"
  using assms by (rule persist_restored)

lemma alarmed_storable: "list_all (\<lambda>e. storable (snd e)) (co_states alarmed)"
  by code_simp

lemma persist_restore_roundtrip_witness:
  "\<exists>states st. restore_watermarks utc0 (PDict (build_persist_data alarmed)) demo
        = (Inr (), demo\<lparr>co_states := states\<rparr>)
     \<and> map_of states CATEGORY_POWER = Some st \<and> cs_alert_count st = 1 \<and> \<not> cs_is_alerting st"
proof -
  have "cs_alert_count (the (map_of (co_states alarmed) CATEGORY_POWER)) = 1" by code_simp
  moreover obtain st where "map_of (co_states alarmed) CATEGORY_POWER = Some st"
    using alarmed_power by blast
  ultimately show ?thesis
    using persist_restore_roundtrip [OF coord_states [OF reachable_ok [OF alarmed_reachable]]
        alarmed_storable demo_new, of utc0]
    by (auto simp: demo_power restored_def new_category_state_def)
qed

end
