(* ===== verification/PollProps.thy ===== *)
theory PollProps
  imports PushProps
begin

section \<open>Probing, polling windows and the end of an entry\<close>

text \<open>
  The probe of the system-log endpoint with its cache and backoff, the window a poll
  asks for, the exceptions that leave a poll, clearing everything, shutting down, and two
  inputs on which the code raises where it should not.
\<close>

subsection \<open>The probe\<close>

definition probe_request :: "coord \<Rightarrow> request" where
  "probe_request s = api_post (cl_config (co_client s))
     (system_log_url (co_client s) (co_site s) ''count'') (PDict []) 10"

definition asked :: "coord \<Rightarrow> coord" where
  "asked s = s\<lparr>co_client := (co_client s)\<lparr>cl_sent := probe_request s # cl_sent (co_client s)\<rparr>\<rparr>"

lemma probe_asks:
  "co_has_system_log s = None \<Longrightarrow> probe_has_system_log net t0 t1 s =
     (case probe_outcome (net (cl_sent (co_client s)) (probe_request s)) of
        Inl e \<Rightarrow> (Inl e, asked s) | Inr r \<Rightarrow> probe_record t1 r (asked s))"
  by (simp add: probe_has_system_log_def probe_cache_def act_defs on_client_def probe_system_log_endpoint_def
      send_def asked_def probe_request_def split: sum.split)

lemma probe_cached:
  "co_has_system_log s = Some b \<Longrightarrow> b \<or> co_probe_backoff_until s = None \<Longrightarrow>
     probe_has_system_log net t0 t1 s = (Inr b, s)"
  by (cases b) (auto simp: probe_has_system_log_def probe_cache_def act_defs split: option.split)

lemma probe_backing_off:
  "co_has_system_log s = Some False \<Longrightarrow> co_probe_backoff_until s = Some u \<Longrightarrow> is_aware u \<Longrightarrow> is_aware t0 \<Longrightarrow>
     probe_has_system_log net t0 t1 s =
       (if dt_instant t0 \<ge> dt_instant u
        then probe_has_system_log net t0 t1 (s\<lparr>co_has_system_log := None, co_probe_fail_count := 0,
               co_probe_backoff_until := None\<rparr>)
        else (Inr False, s))"
  by (simp add: probe_has_system_log_def probe_cache_def act_defs dt_aware)

text \<open>A series of probes at the given times (before and after the request).\<close>

fun probe_run :: "net \<Rightarrow> (pydatetime \<times> pydatetime) list \<Rightarrow> coord \<Rightarrow> coord" where
  "probe_run net [] s = s"
| "probe_run net ((t0, t1) # ts) s = probe_run net ts (snd (probe_has_system_log net t0 t1 s))"

definition transient :: "net \<Rightarrow> bool" where
  "transient net \<longleftrightarrow> (\<forall>h rq. probe_outcome (net h rq) = Inr None)"

lemma probe_transient_step:
  assumes "transient net" "co_has_system_log s = None"
  shows "probe_has_system_log net t0 t1 s = (Inr False,
    if Suc (co_probe_fail_count s) < PROBE_FAIL_LIMIT
    then (asked s)\<lparr>co_probe_fail_count := Suc (co_probe_fail_count s)\<rparr>
    else (asked s)\<lparr>co_probe_fail_count := Suc (co_probe_fail_count s), co_has_system_log := Some False,
           co_probe_backoff_until := Some (dt_add t1 PROBE_RETRY_AFTER)\<rparr>)"
  using assms by (simp add: probe_asks transient_def probe_record_def Let_def asked_def)

lemma probe_transient_run:
  assumes "transient net" "co_has_system_log s = None"
    and "co_probe_fail_count s + length ts < PROBE_FAIL_LIMIT"
  shows "co_has_system_log (probe_run net ts s) = None \<and>
    co_probe_fail_count (probe_run net ts s) = co_probe_fail_count s + length ts \<and>
    length (cl_sent (co_client (probe_run net ts s))) = length (cl_sent (co_client s)) + length ts"
  using assms(2,3)
proof (induction ts arbitrary: s)
  case (Cons t ts)
  obtain t0 t1 where t: "t = (t0, t1)" by (cases t)
  let ?s = "(asked s)\<lparr>co_probe_fail_count := Suc (co_probe_fail_count s)\<rparr>"
  have "snd (probe_has_system_log net t0 t1 s) = ?s"
    using Cons.prems by (simp add: probe_transient_step [OF assms(1)])
  moreover have "co_has_system_log ?s = None" using Cons.prems(1) by (simp add: asked_def)
  ultimately show ?case
    using Cons.IH [of ?s] Cons.prems(2) by (simp add: t asked_def)
qed simp

text \<open>C35: when the probe keeps failing transiently, each of the first five polls sends one probe
  request; from the fifth failure on no probe is sent and nothing changes for one hour, and the first
  probe at or after the end of that hour asks the controller again.\<close>

theorem probe_backs_off:
  assumes "transient net" "co_has_system_log s = None" "co_probe_fail_count s = 0"
    and "Suc (length ts) = PROBE_FAIL_LIMIT" "is_aware t1" "is_aware t"
  shows "let s5 = probe_run net (ts @ [(t0, t1)]) s in
    length (cl_sent (co_client s5)) = length (cl_sent (co_client s)) + PROBE_FAIL_LIMIT \<and>
    (if dt_instant t < dt_instant t1 + PROBE_RETRY_AFTER
     then probe_has_system_log net t u s5 = (Inr False, s5)
     else length (cl_sent (co_client (snd (probe_has_system_log net t u s5))))
            = Suc (length (cl_sent (co_client s5))))"
proof -
  define s5 where "s5 = probe_run net (ts @ [(t0, t1)]) s"
  have app: "probe_run net (ts @ [(t0, t1)]) s = snd (probe_has_system_log net t0 t1 (probe_run net ts s))" for s
    by (induction net ts s rule: probe_run.induct) simp_all
  let ?s4 = "probe_run net ts s"
  have s4: "co_has_system_log ?s4 = None" "co_probe_fail_count ?s4 = length ts"
    "length (cl_sent (co_client ?s4)) = length (cl_sent (co_client s)) + length ts"
    using probe_transient_run [OF assms(1,2), of ts] assms(3,4) by simp_all
  have s5: "s5 = (asked ?s4)\<lparr>co_probe_fail_count := Suc (length ts), co_has_system_log := Some False,
           co_probe_backoff_until := Some (dt_add t1 PROBE_RETRY_AFTER)\<rparr>"
    unfolding s5_def app using probe_transient_step [OF assms(1) s4(1), of t0 t1] assms(4) by (simp add: s4(2))
  have f: "co_has_system_log s5 = Some False" "co_probe_backoff_until s5 = Some (dt_add t1 PROBE_RETRY_AFTER)"
    by (simp_all add: s5)
  have len: "length (cl_sent (co_client s5)) = length (cl_sent (co_client s)) + PROBE_FAIL_LIMIT"
    using s4(3) assms(4) by (simp add: s5 asked_def)
  let ?r = "s5\<lparr>co_has_system_log := None, co_probe_fail_count := 0, co_probe_backoff_until := None\<rparr>"
  have "co_has_system_log ?r = None" "cl_sent (co_client ?r) = cl_sent (co_client s5)" by simp_all
  then have "length (cl_sent (co_client (snd (probe_has_system_log net t u ?r))))
      = Suc (length (cl_sent (co_client s5)))"
    by (simp add: probe_transient_step [OF assms(1)] asked_def)
  with len probe_backing_off [OF f, of t net u] assms(5,6) show ?thesis
    unfolding Let_def s5_def [symmetric] by simp
qed

text \<open>A controller that answers every probe with status 500.\<close>

definition broken_net :: net where
  "broken_net h rq = Response \<lparr> rs_status = 500, rs_json_type = False, rs_body = BadSyntax \<rparr>"

lemma broken_transient: "transient broken_net"
  by (simp add: transient_def broken_net_def probe_outcome_def respond_def)

lemma probe_backs_off_witness:
  "length (cl_sent (co_client (probe_run broken_net (replicate 4 (utc0, utc0) @ [(utc0, utc0)]) demo))) = 5"
  using probe_backs_off [OF broken_transient, of demo "replicate 4 (utc0, utc0)" utc0 utc0 utc0]
  by (simp add: PROBE_FAIL_LIMIT_def Let_def demo_def new_coordinator_def new_client_def)

subsection \<open>The exceptions of a poll\<close>

lemma max_by_err: "max_by key m xs = Inl e \<Longrightarrow> e = TypeError"
proof (induction xs arbitrary: m)
  case (Cons x xs)
  then show ?case by (cases "dt_gt (key x) (key m)") (auto dest: dt_gt_err split: if_splits)
qed simp

lemma py_max_err: "py_max key xs = Inl e \<Longrightarrow> xs \<noteq> [] \<Longrightarrow> e = TypeError"
  by (cases xs) (auto simp: py_max_def dest: max_by_err)

lemma newer_err: "newer t m = Inl e \<Longrightarrow> e = TypeError"
  by (auto simp: newer_def dest: dt_gt_err split: option.splits)

definition raises_only :: "exn set \<Rightarrow> ('s, 'a) act \<Rightarrow> bool" where
  "raises_only E m \<longleftrightarrow> (\<forall>s e. fst (m s) = Inl e \<longrightarrow> e \<in> E)"

lemma raises_onlyD: "raises_only E m \<Longrightarrow> m s = (Inl e, s') \<Longrightarrow> e \<in> E"
  unfolding raises_only_def by (metis fst_conv)

lemma raises_onlyI: "(\<And>s e s'. m s = (Inl e, s') \<Longrightarrow> e \<in> E) \<Longrightarrow> raises_only E m"
  unfolding raises_only_def by (metis prod.collapse)

lemma raises_only_bind [intro]:
  assumes "raises_only E m" "\<And>x. raises_only E (f x)"
  shows "raises_only E (bindS m f)"
proof (rule raises_onlyI)
  fix s e s' assume "bindS m f s = (Inl e, s')"
  then show "e \<in> E"
    using raises_onlyD [OF assms(1)] raises_onlyD [OF assms(2)]
    by (cases "m s"; cases "fst (m s)") (auto simp: bindS_def)
qed

lemma raises_only_basic [simp, intro]:
  "raises_only E (returnS x)" "raises_only E (getS g)" "raises_only E (modifyS h)"
  by (simp_all add: raises_only_def act_defs)

lemma raises_only_lift: "(\<And>e. r = Inl e \<Longrightarrow> e \<in> E) \<Longrightarrow> raises_only E (liftS r)"
  by (simp add: raises_only_def act_defs)

lemma raises_only_when [intro]: "raises_only E m \<Longrightarrow> raises_only E (whenS b m)"
  by (simp add: raises_only_def act_defs)

lemma raises_only_for:
  assumes "\<And>x. raises_only E (f x)"
  shows "raises_only E (forS xs f)"
proof (induction xs)
  case (Cons x xs)
  have "forS (x # xs) f = bindS (f x) (\<lambda>_. forS xs f)" by (rule ext) (simp add: bindS_def)
  with Cons assms show ?case by auto
qed (simp add: raises_only_def)

lemma raises_on_state:
  assumes "raises_only E m"
  shows "raises_only E (on_state cat d m)"
proof (rule raises_onlyI)
  fix s e s' assume "on_state cat d m s = (Inl e, s')"
  then show "e \<in> E"
    using raises_onlyD [OF assms] by (auto simp: on_state_def split: option.splits prod.splits)
qed

lemma raises_track_newest: "raises_only {TypeError} (track_newest_seen alerts)"
  by (cases "alerts = []")
    (auto simp: track_newest_seen_def intro!: raises_only_bind raises_only_lift dest: py_max_err newer_err)

lemma raises_poll_state:
  assumes "minimum \<in> set MIN_SEVERITY_ORDER"
  shows "raises_only {TypeError} (poll_state minimum alerts)"
proof -
  have w: "(case w of None \<Rightarrow> Inr xs | Some w \<Rightarrow> filterE (\<lambda>a. dt_gt (al_received_at a) w) xs) = Inl e \<Longrightarrow> e = TypeError"
    for w xs e by (auto dest!: filterE_raises_only dest: dt_gt_err split: option.splits)
  show ?thesis
    unfolding poll_state_def
    by (intro raises_only_bind raises_only_lift raises_track_newest raises_only_basic)
      (auto simp: filter_minimum [OF assms] intro!: raises_only_bind raises_only_lift dest: py_max_err w)
qed

lemma raises_poll_category: "raises_only {TypeError} (poll_category tick entry)"
proof -
  obtain cat alerts where e: "entry = (cat, alerts)" by (cases entry)
  have "raises_only {TypeError} (on_state cat False (poll_state (get_effective_min_severity c cat) alerts))" for c
    by (rule raises_on_state [OF raises_poll_state [OF effective_range]])
  then have "raises_only {TypeError} (bindS (on_state cat False
      (poll_state (get_effective_min_severity c cat) alerts)) (\<lambda>b. whenS b (modifyS (schedule_clear tick cat))))" for c
    by auto
  then show ?thesis by (auto simp: raises_only_def poll_category_def e returnS_def split: option.splits)
qed

text \<open>A poll whose fetch fails changes no category, timer or duplicate table, and its failure
  reaches Home Assistant as \<^verbatim>\<open>ConfigEntryAuthFailed\<close> when the key was rejected, as
  \<^verbatim>\<open>UpdateFailed\<close> for every member of the \<^verbatim>\<open>CannotConnectError\<close> family, and unchanged
  otherwise; after a successful fetch the only exception left is a \<^verbatim>\<open>TypeError\<close>.\<close>

theorem poll_exceptions:
  "case fetch_categorised net t0 t1 t2 s of
     (Inl err, s') \<Rightarrow> same_core s s' \<and> update_data net t0 t1 t2 tick s = (Inl (
        if is_invalid_auth err
        then ConfigEntryAuthFailed (''UniFi controller rejected the API key: '' @ exn_text err)
        else if is_cannot_connect err
        then UpdateFailed (''Cannot reach UniFi controller: '' @ exn_text err) else err), s')
   | (Inr groups, s') \<Rightarrow> fst (update_data net t0 t1 t2 tick s) \<in> {Inr (), Inl TypeError}"
proof (cases "fetch_categorised net t0 t1 t2 s")
  case (Pair r s')
  have core: "same_core s s'"
    using keepsS_D [OF core_fetch same_core_refl, of s net t0 t1 t2] Pair by simp
  show ?thesis
  proof (cases r)
    case (Inl err)
    with Pair core show ?thesis
      by (simp add: update_data_def bindS_def tryS_def raiseS_def)
  next
    case (Inr groups)
    have "raises_only {TypeError} (bindS (forS groups (poll_category tick))
        (\<lambda>_. modifyS (zero_unpolled (map fst groups))))"
      by (intro raises_only_bind raises_only_for raises_poll_category raises_only_basic)
    then have "fst (bindS (forS groups (poll_category tick))
        (\<lambda>_. modifyS (zero_unpolled (map fst groups))) s') \<in> {Inr (), Inl TypeError}"
      unfolding raises_only_def
      by (cases "fst (bindS (forS groups (poll_category tick)) (\<lambda>_. modifyS (zero_unpolled (map fst groups))) s')")
        auto
    with Inr Pair show ?thesis
      by (simp add: update_data_def bindS_def [of "tryS _ _"] tryS_def)
  qed
qed

text \<open>An alarm whose time is an ISO text without offset gets a naive \<^verbatim>\<open>received_at\<close>; once its
  category has been cleared, polling it raises \<^verbatim>\<open>TypeError\<close> (comparing naive and aware times),
  so every later poll of the controller fails while the alarm stays listed.\<close>

theorem naive_alarm_breaks_poll:
  "case from_api_alarm utc0 CATEGORY_POWER (PDict [(''key'', PStr ''EVT_PDU''),
         (''datetime'', PStr ''2024-02-29T12:00:00'')]) of
     Inr a \<Rightarrow> \<not> is_aware (al_received_at a) \<and>
       fst (poll_category 0 (CATEGORY_POWER, [a]) demo) = Inr () \<and>
       fst (poll_category 0 (CATEGORY_POWER, [a]) (clear_category utc0 CATEGORY_POWER demo)) = Inl TypeError
   | Inl e \<Rightarrow> False"
  by code_simp

text \<open>Restoring a stored category whose last alert is no object raises
  \<^verbatim>\<open>AttributeError\<close>, which the clause around \<^verbatim>\<open>from_dict\<close> does not name.\<close>

theorem restore_bad_last_alert:
  "fst (restore_watermarks utc0 (PDict [(CATEGORY_POWER, PDict [(''last_alert'', PStr ''x'')])]) demo)
     = Inl AttributeError"
  by code_simp

subsection \<open>The window a poll asks for\<close>

lemma min_dt_aware:
  "is_aware m \<Longrightarrow> list_all is_aware xs \<Longrightarrow>
     \<exists>y. min_dt m xs = Inr y \<and> is_aware y \<and> dt_instant y = Min (dt_instant ` set (m # xs))"
proof (induction xs arbitrary: m)
  case (Cons x xs)
  let ?m = "if dt_instant m > dt_instant x then x else m"
  have "is_aware ?m" "list_all is_aware xs" using Cons.prems by auto
  from Cons.IH [OF this] obtain y where y: "min_dt ?m xs = Inr y" "is_aware y"
    "dt_instant y = Min (dt_instant ` set (?m # xs))" by blast
  have "Min (dt_instant ` set (?m # xs)) = Min (dt_instant ` set (m # x # xs))"
    by (cases "xs = []") (auto simp: min_def)
  with y Cons.prems show ?case by (simp add: dt_aware) 
qed simp

text \<open>The watermarks a poll has to reach back to.\<close>

definition watermarks :: "(string \<times> CategoryState) list \<Rightarrow> pydatetime list" where
  "watermarks states = [t. (cat, st) \<leftarrow> states, cs_enabled st, t \<leftarrow> (case cs_last_cleared_at st of None \<Rightarrow> [] | Some t \<Rightarrow> [t])]"

lemma watermarks_filter:
  "List.map_filter (\<lambda>(cat, st). if cs_enabled st then cs_last_cleared_at st else None) states = watermarks states"
  by (induction states) (auto simp: watermarks_def List.map_filter_def split: option.splits if_splits)

text \<open>The window of a v2 poll starts at the oldest watermark of the enabled categories, but never
  more than 24 hours ago; without any watermark the client's own default of 24 hours applies. No alarm
  newer than its category's watermark and younger than a day falls outside the window.\<close>

theorem fetch_since_window:
  assumes "is_aware now" "list_all is_aware (watermarks states)"
  shows "\<exists>since. fetch_since now states = Inr since \<and>
    (case since of None \<Rightarrow> watermarks states = []
     | Some t \<Rightarrow> watermarks states \<noteq> [] \<and> is_aware t \<and>
         dt_instant t = max (dt_instant now - DEFAULT_SYSTEM_LOG_LOOKBACK_HOURS * 3600000000)
                            (Min (dt_instant ` set (watermarks states))))"
proof (cases "watermarks states")
  case Nil
  then show ?thesis by (simp add: fetch_since_def watermarks_filter)
next
  case (Cons w ws)
  with assms(2) min_dt_aware [of w ws] obtain y where y: "min_dt w ws = Inr y" "is_aware y"
    "dt_instant y = Min (dt_instant ` set (w # ws))" by auto
  have m: "Min (dt_instant ` set (watermarks states)) = dt_instant y" using y(3) Cons by simp
  show ?thesis
    unfolding m using assms(1) Cons y(1,2) by (simp add: fetch_since_def watermarks_filter Let_def dt_aware max_def)
qed

lemma fetch_since_window_witness:
  "\<exists>t. fetch_since utc0 [(CATEGORY_POWER, (new_category_state CATEGORY_POWER True)\<lparr>cs_last_cleared_at := Some (dt_add utc0 (-1))\<rparr>)]
     = Inr (Some t) \<and> dt_instant t = dt_instant utc0 - 1"
  using fetch_since_window [OF utc0_aware, of "[(CATEGORY_POWER, (new_category_state CATEGORY_POWER True)
      \<lparr>cs_last_cleared_at := Some (dt_add utc0 (-1))\<rparr>)]"]
  by (auto simp: watermarks_def new_category_state_def DEFAULT_SYSTEM_LOG_LOOKBACK_HOURS_def split: option.splits)

subsection \<open>Clearing everything and shutting down\<close>

lemma clear_one_states: "map_of (co_states (clear_one now cat s)) c =
     (if c = cat then map_option (clear_state now) (map_of (co_states s) cat) else map_of (co_states s) c)"
  by (auto simp: clear_one_def Let_def)

lemma clear_one_timers: "map_of (co_clear_tasks (clear_one now cat s)) c =
     (if c = cat then None else map_of (co_clear_tasks s) c)"
  by (simp add: clear_one_def Let_def cancel_clear_tasks)

lemma clear_state_simps [simp]:
  "\<not> cs_is_alerting (clear_state now st)" "cs_enabled (clear_state now st) = cs_enabled st"
  by (simp_all add: clear_state_def)

lemma clear_state_idem: "clear_state now (clear_state now st) = clear_state now st"
  by (simp add: clear_state_def split: option.split)

lemma fold_clear_states:
  "map_of (co_states (fold (clear_one now) cats s)) c =
     (if c \<in> set cats then map_option (clear_state now) (map_of (co_states s) c) else map_of (co_states s) c)"
  by (induction cats arbitrary: s) (auto simp: clear_one_states clear_state_idem option.map_comp comp_def)

lemma fold_clear_timers:
  "map_of (co_clear_tasks (fold (clear_one now) cats s)) c =
     (if c \<in> set cats then None else map_of (co_clear_tasks s) c)"
  by (induction cats arbitrary: s) (auto simp: clear_one_timers)

lemma clear_one_effects [simp]: "co_effects (clear_one now cat s) = co_effects s"
  by (simp add: clear_one_def cancel_clear_def cancel_task_def Let_def split: option.split)

lemma fold_clear_effects [simp]: "co_effects (fold (clear_one now) cats s) = co_effects s"
  by (induction cats arbitrary: s) simp_all

text \<open>Clearing everything acknowledges exactly the enabled categories: each stops alerting, gets its
  watermark and loses its timer, disabled ones are untouched, no enabled category still alerts, and one
  snapshot of the cleared states goes to the store.\<close>

theorem clear_all_acknowledges:
  assumes "coord_ok s"
  shows "map_of (co_states (clear_all now s)) = (\<lambda>cat. map_option
        (\<lambda>st. if cs_enabled st then clear_state now st else st) (map_of (co_states s) cat))
    \<and> \<not> any_alerting (clear_all now s)
    \<and> list_all (\<lambda>(cat, st). cs_enabled st \<longrightarrow> map_of (co_clear_tasks (clear_all now s)) cat = None) (co_states s)
    \<and> co_effects (clear_all now s) = SaveRequested (build_persist_data (clear_all now s)) # co_effects s"
proof -
  let ?cats = "map fst (filter (\<lambda>(cat, st). cs_enabled st) (co_states s))" and ?s = "clear_all now s"
  have keys: "map fst (co_states s) = ALL_CATEGORIES"
    using coord_states [OF assms] by (simp add: states_ok_def)
  then have d: "distinct (map fst (co_states s))" by (simp add: ALL_CATEGORIES_def category_defs)
  have en: "cat \<in> set ?cats \<longleftrightarrow> (\<exists>st. map_of (co_states s) cat = Some st \<and> cs_enabled st)" for cat
    using d by (force dest: map_of_SomeD intro: map_of_in_set)
  have st: "co_states ?s = co_states (fold (clear_one now) ?cats s)"
    and tm: "co_clear_tasks ?s = co_clear_tasks (fold (clear_one now) ?cats s)"
    by (simp_all add: clear_all_def start_save_def emit_def Let_def)
  have get: "map_of (co_states ?s) cat = map_option
        (\<lambda>st. if cs_enabled st then clear_state now st else st) (map_of (co_states s) cat)" for cat
    using en [of cat] unfolding st fold_clear_states
    by (cases "map_of (co_states s) cat") auto
  have keys': "map fst (co_states (fold (clear_one now) cats s)) = map fst (co_states s)" for cats
    by (induction cats arbitrary: s) (simp_all add: clear_one_def Let_def)
  then have d': "distinct (map fst (co_states ?s))" using d by (simp add: st)
  have "\<not> cs_is_alerting st" if "(cat, st) \<in> set (co_states ?s)" "cs_enabled st" for cat st
  proof -
    from get [of cat] map_of_in_set [OF d' that(1)] obtain st0
      where st0: "st = (if cs_enabled st0 then clear_state now st0 else st0)"
      by (cases "map_of (co_states s) cat") auto
    with that(2) have "cs_enabled st0" by (auto split: if_splits)
    with st0 have "st = clear_state now st0" by (simp only: if_True)
    then show ?thesis by simp
  qed
  then have "\<not> any_alerting ?s"
    by (auto simp: any_alerting_def enabled_states_def list_ex_iff)
  moreover have "map_of (co_clear_tasks ?s) cat = None" if "(cat, st) \<in> set (co_states s)" "cs_enabled st" for cat st
    using en [of cat] map_of_in_set [OF d that(1)] that(2) unfolding tm fold_clear_timers by auto
  then have "list_all (\<lambda>(cat, st). cs_enabled st \<longrightarrow> map_of (co_clear_tasks ?s) cat = None) (co_states s)"
    by (auto simp: list_all_iff)
  moreover have "co_effects ?s = SaveRequested (build_persist_data ?s) # co_effects s"
    by (simp add: clear_all_def start_save_def build_persist_data_def Let_def)
  ultimately show ?thesis using get by blast
qed

lemma clear_all_acknowledges_witness: "any_alerting alarmed \<and> \<not> any_alerting (clear_all utc0 alarmed)"
proof
  show "any_alerting alarmed" by code_simp
qed (use clear_all_acknowledges [OF reachable_ok [OF alarmed_reachable]] in blast)

lemma cancel_all_timers:
  assumes "(cat, i) \<in> set ts" "i < length (co_tasks s)"
  shows "\<not> (\<exists>c due. co_tasks (fold (\<lambda>(cat, i). cancel_task i) ts s) ! i = Sleeping c due)"
proof -
  have len: "length (co_tasks (fold (\<lambda>(cat, i). cancel_task i) ts s)) = length (co_tasks s)" for ts s
    by (induction ts arbitrary: s) (auto split: prod.split)
  have stay: "i < length (co_tasks s) \<Longrightarrow> \<not> (\<exists>c due. co_tasks s ! i = Sleeping c due) \<Longrightarrow>
      \<not> (\<exists>c due. co_tasks (fold (\<lambda>(cat, i). cancel_task i) ts s) ! i = Sleeping c due)" for ts s
    by (induction ts arbitrary: s) (auto simp: cancel_task_sleeping split: prod.split)
  show ?thesis
    using assms
  proof (induction ts arbitrary: s)
    case (Cons t ts)
    then show ?case
      using stay [of "cancel_task i s" ts]
      by (auto simp: cancel_task_sleeping split: prod.splits)
  qed simp
qed

lemma cancel_task_fold_len: "length (co_tasks (fold (\<lambda>(cat, i). cancel_task i) ts s)) = length (co_tasks s)"
  by (induction ts arbitrary: s) (auto split: prod.split)

lemma shutdown_idle:
  assumes "coord_ok s"
  shows "list_all (\<lambda>task. case task of Sleeping cat due \<Rightarrow> False | _ \<Rightarrow> True) (co_tasks (shutdown s))"
proof -
  have "\<not> (\<exists>cat due. co_tasks (shutdown s) ! i = Sleeping cat due)" if i: "i < length (co_tasks s)" for i
  proof (cases "\<exists>cat due. co_tasks s ! i = Sleeping cat due")
    case True
    then obtain cat due where "co_tasks s ! i = Sleeping cat due" by blast
    then have "(cat, i) \<in> set (co_clear_tasks s)"
      using timers_registered [OF coord_timers [OF assms] i] by (auto dest: map_of_SomeD)
    from cancel_all_timers [OF this i] show ?thesis by (simp add: shutdown_def)
  next
    case False
    have "\<not> (\<exists>c due. co_tasks (fold (\<lambda>(cat, i). cancel_task i) ts s) ! i = Sleeping c due)"
      if "i < length (co_tasks s)" "\<not> (\<exists>c due. co_tasks s ! i = Sleeping c due)" for ts s
      using that by (induction ts arbitrary: s) (auto simp: cancel_task_sleeping split: prod.split)
    from this [OF i False] show ?thesis by (simp add: shutdown_def)
  qed
  then show ?thesis
    by (auto simp: list_all_length shutdown_def cancel_task_fold_len split: task.split)
qed

text \<open>After a shutdown no auto-clear timer is left running: an unloaded entry cannot clear, save or
  notify later.\<close>

theorem shutdown_stops_timers:
  assumes "coord_ok s"
  shows "list_all (\<lambda>task. case task of Sleeping cat due \<Rightarrow> False | _ \<Rightarrow> True) (co_tasks (shutdown s))"
  using assms by (rule shutdown_idle)

lemma shutdown_stops_timers_witness:
  "list_all (\<lambda>task. case task of Sleeping cat due \<Rightarrow> False | _ \<Rightarrow> True) (co_tasks (shutdown alarmed))"
  by (rule shutdown_stops_timers [OF reachable_ok [OF alarmed_reachable]])

end
