(* ===== verification/Webhook.thy ===== *)
theory Webhook
  imports PollProps
begin

section \<open>Webhooks\<close>

text \<open>
  \<^verbatim>\<open>webhook_handler.py\<close>: registration of one webhook per enabled category, and the
  handler that authenticates a request, bounds and parses its body and pushes the alert.

  Home Assistant's registry of webhooks is a parameter: \<open>reg\<close> and \<open>unreg\<close> are
  \<^verbatim>\<open>async_register\<close> and \<^verbatim>\<open>async_unregister\<close> on its state, with the documented
  behaviour collected in \<open>registry_ok\<close>. \<open>loads\<close> is the decoding of a body
  (\<^verbatim>\<open>json.loads(raw.decode())\<close>). The body reader returns what has been received when it is
  asked, up to the given number of bytes, as its documentation says: a request holds the bytes
  received so far and those still to come. The callback is \<open>push_alert\<close>, as setup passes it, and
  issues are logged in \<open>co_effects\<close>.
\<close>

record webhook_request =
  wr_authorization :: "string option"
  wr_token :: "string option"
  wr_received :: "nat list"
  wr_pending :: "nat list"

subsection \<open>The handler\<close>

definition extract_bearer_token :: "string \<Rightarrow> string" where
  "extract_bearer_token authorization_header =
     (case partition_char CHR '' '' authorization_header of (scheme, _, token) \<Rightarrow>
        if lower scheme \<noteq> ''bearer'' then [] else strip token)"

text \<open>\<open>hmac.compare_digest(a, b)\<close>, which refuses text outside ASCII; a configured secret
  that is no text is refused as well.\<close>

definition is_ascii :: "string \<Rightarrow> bool" where
  "is_ascii s = list_all (\<lambda>c. of_char c < (128 :: nat)) s"

definition compare_digest :: "string \<Rightarrow> pyval \<Rightarrow> exn + bool" where
  "compare_digest token secret = (case secret of
       PStr s \<Rightarrow> if is_ascii token \<and> is_ascii s then Inr (token = s) else Inl TypeError
     | _ \<Rightarrow> Inl TypeError)"

definition legacy_query_issue :: "string \<Rightarrow> string" where
  "legacy_query_issue entry_id = ISSUE_ID_WEBHOOK_LEGACY_QUERY_AUTH @ ''_'' @ entry_id"

definition rotated_issue :: "string \<Rightarrow> string" where
  "rotated_issue entry_id = ISSUE_ID_WEBHOOK_SECRET_ROTATED @ ''_'' @ entry_id"

definition authorize :: "webhook_request \<Rightarrow> pyval \<Rightarrow> exn + bool \<times> bool" where
  "authorize request secret =
     (let header_token = extract_bearer_token (case wr_authorization request of None \<Rightarrow> [] | Some h \<Rightarrow> h);
          query_token = (case wr_token request of None \<Rightarrow> [] | Some t \<Rightarrow> t)
      in bindE (compare_digest header_token secret) (\<lambda>header_authorized.
         bindE (compare_digest query_token secret) (\<lambda>query_authorized.
         Inr (header_authorized, query_authorized))))"

text \<open>The body: \<open>Inl\<close> a status to answer with, \<open>Inr\<close> the payload.\<close>

definition read_payload :: "(nat list \<Rightarrow> exn + pyval) \<Rightarrow> webhook_request \<Rightarrow> exn + (nat + pyval)" where
  "read_payload loads request =
     (let raw = take (WEBHOOK_MAX_BODY_BYTES + 1) (wr_received request)
      in if length raw > WEBHOOK_MAX_BODY_BYTES then Inr (Inl 413)
         else if raw = [] then Inr (Inr (PDict []))
         else case loads raw of
           Inr payload \<Rightarrow> Inr (Inr payload)
         | Inl e \<Rightarrow> if e = JSONDecodeError \<or> e = UnicodeDecodeError \<or> e = TypeError
                   then Inr (Inl 400) else Inl e)"

definition raise_legacy_query_auth_issue :: "string \<Rightarrow> coord \<Rightarrow> coord" where
  "raise_legacy_query_auth_issue entry_id = emit (IssueCreated (legacy_query_issue entry_id))"

text \<open>What follows an accepted body: the push, and the issues about the authentication.\<close>

definition deliver ::
    "string \<Rightarrow> string \<Rightarrow> pydatetime \<Rightarrow> int \<Rightarrow> bool \<Rightarrow> pyval \<Rightarrow> (coord, nat option) act" where
  "deliver entry_id category now tick header_authorized payload =
     bindS (liftS (from_webhook_payload now category payload)) (\<lambda>alert.
     bindS (push_alert tick category alert) (\<lambda>_.
     bindS (modifyS (emit (IssueDeleted (rotated_issue entry_id)))) (\<lambda>_.
     bindS (modifyS (if header_authorized then emit (IssueDeleted (legacy_query_issue entry_id))
                     else raise_legacy_query_auth_issue entry_id)) (\<lambda>_.
     returnS None))))"

text \<open>
  The handler of one category; \<open>Some\<close> an error status, \<open>None\<close> the success response.
  \<open>now\<close> is the clock read for the alert, \<open>tick\<close> the monotonic clock of the push.
\<close>

definition handle_webhook ::
    "(nat list \<Rightarrow> exn + pyval) \<Rightarrow> string \<Rightarrow> string \<Rightarrow> pyval \<Rightarrow> pydatetime \<Rightarrow> int \<Rightarrow> webhook_request
       \<Rightarrow> (coord, nat option) act" where
  "handle_webhook loads entry_id category secret now tick request =
     (if \<not> truthy secret then returnS (Some 500)
      else bindS (liftS (authorize request secret)) (\<lambda>(header_authorized, query_authorized).
        if \<not> header_authorized \<and> \<not> query_authorized then returnS (Some 401)
        else bindS (liftS (read_payload loads request)) (\<lambda>body.
          case body of
            Inl status \<Rightarrow> returnS (Some status)
          | Inr payload \<Rightarrow> deliver entry_id category now tick header_authorized payload)))"

subsection \<open>Registration\<close>

type_synonym 'h registrar = "string \<Rightarrow> 'h \<Rightarrow> exn + 'h"

record 'h manager =
  wm_hass :: 'h
  wm_registered :: "string list"
  wm_urls :: "(string \<times> string) list"

definition register_one ::
    "'h registrar \<Rightarrow> (string \<Rightarrow> string) \<Rightarrow> string \<Rightarrow> string \<Rightarrow> 'h manager \<Rightarrow> exn + 'h manager" where
  "register_one reg generate_url id_suffix category m =
     (let webhook_id = webhook_id_for_category category id_suffix
      in case reg webhook_id (wm_hass m) of
           Inr h \<Rightarrow> Inr (m\<lparr>wm_hass := h, wm_registered := wm_registered m @ [webhook_id],
                          wm_urls := AList.update category (generate_url webhook_id) (wm_urls m)\<rparr>)
         | Inl e \<Rightarrow> if e = ValueError then Inr m else Inl e)"

fun register_loop ::
    "'h registrar \<Rightarrow> (string \<Rightarrow> string) \<Rightarrow> pyval list \<Rightarrow> string \<Rightarrow> string list \<Rightarrow> 'h manager \<Rightarrow> exn + 'h manager" where
  "register_loop reg generate_url enabled id_suffix [] m = Inr m"
| "register_loop reg generate_url enabled id_suffix (category # categories) m =
     (if PStr category \<notin> set enabled then register_loop reg generate_url enabled id_suffix categories m
      else bindE (register_one reg generate_url id_suffix category m)
             (register_loop reg generate_url enabled id_suffix categories))"

definition register_all ::
    "'h registrar \<Rightarrow> (string \<Rightarrow> string) \<Rightarrow> pyval list \<Rightarrow> string \<Rightarrow> 'h manager \<Rightarrow> exn + 'h manager" where
  "register_all reg generate_url enabled id_suffix m =
     register_loop reg generate_url enabled id_suffix ALL_CATEGORIES (m\<lparr>wm_urls := []\<rparr>)"

text \<open>\<open>unreg\<close> may raise, which is suppressed.\<close>

definition unregister_all :: "(string \<Rightarrow> 'h \<Rightarrow> exn + 'h) \<Rightarrow> 'h manager \<Rightarrow> 'h manager" where
  "unregister_all unreg m =
     m\<lparr>wm_hass := fold (\<lambda>webhook_id h. case unreg webhook_id h of Inr h' \<Rightarrow> h' | Inl _ \<Rightarrow> h)
                    (wm_registered m) (wm_hass m),
       wm_registered := []\<rparr>"

end
