(* ===== verification/Entities.thy ===== *)
theory Entities
  imports Webhook
begin

section \<open>Entities and diagnostics\<close>

text \<open>
  \<^verbatim>\<open>binary_sensor.py\<close>, \<^verbatim>\<open>sensor.py\<close>, \<^verbatim>\<open>event.py\<close>, \<^verbatim>\<open>button.py\<close> and
  \<^verbatim>\<open>diagnostics.py\<close>: which entities an entry creates and under which identifiers, what each
  shows of the coordinator, when the event entity fires, and the diagnostics report. An
  entity is a value of the datatype with one constructor per class; its properties are functions
  of the coordinator. Device information and translation keys are constants of Home Assistant's
  registries and left out.
\<close>

datatype entity =
    UniFiCategoryBinarySensor string
  | UniFiRollupBinarySensor
  | UniFiCategoryMessageSensor string
  | UniFiCategoryCountSensor string
  | UniFiWebhookHealthSensor string
  | UniFiRollupCountSensor
  | UniFiAlertEventEntity string
  | UniFiClearCategoryButton string
  | UniFiClearAllButton

fun unique_id :: "string \<Rightarrow> entity \<Rightarrow> string" where
  "unique_id entry_id (UniFiCategoryBinarySensor category) = entry_id @ ''_'' @ category @ ''_binary''"
| "unique_id entry_id UniFiRollupBinarySensor = entry_id @ ''_rollup_binary''"
| "unique_id entry_id (UniFiCategoryMessageSensor category) = entry_id @ ''_'' @ category @ ''_message''"
| "unique_id entry_id (UniFiCategoryCountSensor category) = entry_id @ ''_'' @ category @ ''_count''"
| "unique_id entry_id (UniFiWebhookHealthSensor category) = entry_id @ ''_'' @ category @ ''_webhook_health''"
| "unique_id entry_id UniFiRollupCountSensor = entry_id @ ''_rollup_count''"
| "unique_id entry_id (UniFiAlertEventEntity category) = entry_id @ ''_'' @ category @ ''_event''"
| "unique_id entry_id (UniFiClearCategoryButton category) = entry_id @ ''_'' @ category @ ''_clear''"
| "unique_id entry_id UniFiClearAllButton = entry_id @ ''_clear_all''"

text \<open>\<open>state is not None and state.enabled\<close>, which gates creation and availability.\<close>

definition category_available :: "coord \<Rightarrow> string \<Rightarrow> bool" where
  "category_available s category =
     (case get_category_state category s of None \<Rightarrow> False | Some st \<Rightarrow> cs_enabled st)"

definition binary_sensor_setup :: "coord \<Rightarrow> entity list" where
  "binary_sensor_setup s =
     map UniFiCategoryBinarySensor (filter (category_available s) ALL_CATEGORIES) @ [UniFiRollupBinarySensor]"

definition sensor_setup :: "coord \<Rightarrow> entity list" where
  "sensor_setup s =
     concat (map (\<lambda>category. [UniFiCategoryMessageSensor category, UniFiCategoryCountSensor category,
                              UniFiWebhookHealthSensor category])
               (filter (category_available s) ALL_CATEGORIES)) @ [UniFiRollupCountSensor]"

definition event_setup :: "coord \<Rightarrow> entity list" where
  "event_setup s = map UniFiAlertEventEntity (filter (category_available s) ALL_CATEGORIES)"

definition button_setup :: "coord \<Rightarrow> entity list" where
  "button_setup s =
     map UniFiClearCategoryButton (filter (category_available s) ALL_CATEGORIES) @ [UniFiClearAllButton]"

definition rollup_available :: "coord \<Rightarrow> bool" where
  "rollup_available s = list_ex cs_enabled (map snd (co_states s))"

subsection \<open>What the entities show\<close>

definition iso_or_none :: "pydatetime option \<Rightarrow> pyval" where
  "iso_or_none t = (case t of None \<Rightarrow> PNone | Some d \<Rightarrow> PStr (isoformat d))"

definition binary_is_on :: "coord \<Rightarrow> string \<Rightarrow> bool" where
  "binary_is_on s category =
     (case get_category_state category s of None \<Rightarrow> False | Some st \<Rightarrow> cs_is_alerting st)"

definition binary_attributes :: "pydatetime \<Rightarrow> coord \<Rightarrow> string \<Rightarrow> exn + dict" where
  "binary_attributes now s category =
     (case get_category_state category s of
        None \<Rightarrow> Inr []
      | Some st \<Rightarrow> bindE (webhook_health now st) (\<lambda>health. Inr (
          [(''category'', PStr category), (''alert_count'', PInt (cs_alert_count st)),
           (''open_count'', PInt (cs_open_count st)), (''webhook_health'', PStr health),
           (''last_webhook_at'', iso_or_none (cs_last_webhook_at st))]
          @ (case cs_last_alert st of None \<Rightarrow> [] | Some a \<Rightarrow>
               [(''last_message'', al_message a), (''last_alert_at'', PStr (isoformat (al_received_at a))),
                (''last_device'', al_device_name a), (''last_key'', al_key a),
                (''last_severity'', PStr (al_severity a)), (''last_severity_level'', PStr (severity_level a))])
          @ (case cs_last_cleared_at st of None \<Rightarrow> [] | Some t \<Rightarrow>
               [(''last_cleared_at'', PStr (isoformat t))]))))"

definition rollup_binary_attributes :: "coord \<Rightarrow> exn + dict" where
  "rollup_binary_attributes s = bindE (rollup_last_alert s) (\<lambda>last. Inr (
     [(''total_alert_count'', PInt (rollup_alert_count s)), (''total_open_count'', PInt (rollup_open_count s))]
     @ (case last of None \<Rightarrow> [] | Some a \<Rightarrow>
          [(''last_message'', al_message a), (''last_alert_at'', PStr (isoformat (al_received_at a))),
           (''last_category'', al_category a), (''last_severity'', PStr (al_severity a)),
           (''last_severity_level'', PStr (severity_level a))])))"

definition message_value :: "coord \<Rightarrow> string \<Rightarrow> pyval" where
  "message_value s category =
     (case get_category_state category s of None \<Rightarrow> PNone
      | Some st \<Rightarrow> (case cs_last_alert st of None \<Rightarrow> PNone | Some a \<Rightarrow> al_message a))"

definition message_icon :: "coord \<Rightarrow> string \<Rightarrow> string option" where
  "message_icon s category =
     map_of (if binary_is_on s category then CATEGORY_ICONS else CATEGORY_ICONS_OK) category"

definition message_attributes :: "coord \<Rightarrow> string \<Rightarrow> dict" where
  "message_attributes s category =
     (case get_category_state category s of None \<Rightarrow> []
      | Some st \<Rightarrow> (case cs_last_alert st of None \<Rightarrow> [] | Some a \<Rightarrow>
          [(''received_at'', PStr (isoformat (al_received_at a))), (''device_name'', al_device_name a),
           (''alert_key'', al_key a), (''severity'', PStr (al_severity a)),
           (''severity_level'', PStr (severity_level a)), (''site'', al_site a)]))"

definition count_value :: "coord \<Rightarrow> string \<Rightarrow> int" where
  "count_value s category =
     (case get_category_state category s of None \<Rightarrow> 0 | Some st \<Rightarrow> cs_open_count st)"

definition health_value :: "pydatetime \<Rightarrow> coord \<Rightarrow> string \<Rightarrow> exn + pyval" where
  "health_value now s category =
     (case get_category_state category s of None \<Rightarrow> Inr PNone
      | Some st \<Rightarrow> bindE (webhook_health now st) (\<lambda>h. Inr (PStr h)))"

text \<open>The attribute of the health sensor, and the values the sensor may show.\<close>

definition health_attributes :: "coord \<Rightarrow> string \<Rightarrow> dict" where
  "health_attributes s category =
     (case get_category_state category s of None \<Rightarrow> []
      | Some st \<Rightarrow> [(''last_webhook_at'', iso_or_none (cs_last_webhook_at st))])"

definition health_options :: "string list" where
  "health_options = [WEBHOOK_HEALTH_NEVER, WEBHOOK_HEALTH_HEALTHY, WEBHOOK_HEALTH_STALE]"

lemma health_value_range:
  "health_value now s category = Inr v \<Longrightarrow> v = PNone \<or> (\<exists>h \<in> set health_options. v = PStr h)"
  by (auto simp: health_value_def health_options_def webhook_health_def bindE_eq_Inr split: option.splits if_splits)

definition rollup_count_attributes :: "coord \<Rightarrow> exn + dict" where
  "rollup_count_attributes s = bindE (rollup_last_alert s) (\<lambda>last. Inr (
     [(''total_webhook_count'', PInt (rollup_alert_count s))]
     @ (case last of None \<Rightarrow> [] | Some a \<Rightarrow>
          [(''last_message'', al_message a), (''last_category'', al_category a),
           (''last_alert_at'', PStr (isoformat (al_received_at a))),
           (''last_severity_level'', PStr (severity_level a))])))"

subsection \<open>The event entity\<close>

text \<open>Its only state is the alert count it has seen; \<open>added_to_hass\<close> sets it, an update compares.\<close>

definition event_added_to_hass :: "coord \<Rightarrow> string \<Rightarrow> int \<Rightarrow> int" where
  "event_added_to_hass s category last_seen =
     (case get_category_state category s of None \<Rightarrow> last_seen | Some st \<Rightarrow> cs_alert_count st)"

definition event_payload :: "string \<Rightarrow> UniFiAlert \<Rightarrow> dict" where
  "event_payload category alert =
     [(''message'', al_message alert), (''category'', PStr category), (''device_name'', al_device_name alert),
      (''alert_key'', al_key alert), (''severity'', PStr (al_severity alert)),
      (''severity_level'', PStr (severity_level alert)), (''site'', al_site alert),
      (''received_at'', PStr (isoformat (al_received_at alert)))]"

definition handle_coordinator_update :: "coord \<Rightarrow> string \<Rightarrow> int \<Rightarrow> int \<times> dict option" where
  "handle_coordinator_update s category last_seen =
     (case get_category_state category s of
        None \<Rightarrow> (last_seen, None)
      | Some st \<Rightarrow>
          (case cs_last_alert st of
             None \<Rightarrow> (last_seen, None)
           | Some alert \<Rightarrow>
               if cs_alert_count st > last_seen
               then (cs_alert_count st, Some (event_payload category alert))
               else (last_seen, None)))"

subsection \<open>Buttons\<close>

fun press :: "pydatetime \<Rightarrow> entity \<Rightarrow> coord \<Rightarrow> coord" where
  "press now (UniFiClearCategoryButton category) s = clear_category now category s"
| "press now UniFiClearAllButton s = clear_all now s"
| "press now _ s = s"

subsection \<open>Diagnostics\<close>

text \<open>
  \<open>redact\<close> is Home Assistant's \<^verbatim>\<open>async_redact_data\<close>. The report of a loaded entry; without
  runtime data the coordinator part is empty. \<open>sort_desc\<close> is the stable sort by count,
  highest first.
\<close>

definition TO_REDACT :: "string list" where
  "TO_REDACT = [CONF_API_KEY, CONF_WEBHOOK_SECRET]"

fun insert_desc :: "string \<times> int \<Rightarrow> (string \<times> int) list \<Rightarrow> (string \<times> int) list" where
  "insert_desc p [] = [p]"
| "insert_desc p (q # qs) = (if snd p \<ge> snd q then p # q # qs else q # insert_desc p qs)"

definition sort_desc :: "(string \<times> int) list \<Rightarrow> (string \<times> int) list" where
  "sort_desc ps = foldr insert_desc ps []"

definition category_report :: "pydatetime \<Rightarrow> CategoryState \<Rightarrow> exn + dict" where
  "category_report now st = bindE (webhook_health now st) (\<lambda>health. Inr
     [(''enabled'', PBool (cs_enabled st)), (''is_alerting'', PBool (cs_is_alerting st)),
      (''open_count'', PInt (cs_open_count st)), (''alert_count'', PInt (cs_alert_count st)),
      (''filtered_count'', PInt (cs_filtered_count st)),
      (''last_cleared_at'', iso_or_none (cs_last_cleared_at st)),
      (''last_webhook_at'', iso_or_none (cs_last_webhook_at st)),
      (''last_filtered_at'', iso_or_none (cs_last_filtered_at st)),
      (''webhook_health'', PStr health)])"

definition coordinator_report :: "pydatetime \<Rightarrow> coord \<Rightarrow> exn + dict" where
  "coordinator_report now s =
     bindE (mapE (\<lambda>(cat, st). bindE (category_report now st) (\<lambda>d. Inr (cat, PDict d))) (co_states s)) (\<lambda>categories.
     Inr [(''any_alerting'', PBool (any_alerting s)), (''rollup_alert_count'', PInt (rollup_alert_count s)),
          (''rollup_open_count'', PInt (rollup_open_count s)), (''categories'', PDict categories),
          (''unrecognised_keys'', PDict (map (\<lambda>(k, n). (k, PInt n)) (sort_desc (co_unrecognised s)))),
          (''resolved_transport'', PStr (resolved_transport s))])"

definition controller_report :: "string \<Rightarrow> client \<Rightarrow> dict" where
  "controller_report site c =
     [(''discovered_alarm_url'', case discovered_alarm_url site c of None \<Rightarrow> PNone | Some u \<Rightarrow> PStr u),
      (''controller_version'', case cl_controller_version c of None \<Rightarrow> PNone | Some v \<Rightarrow> PStr v)]"

definition entry_site :: "dict \<Rightarrow> string" where
  "entry_site entry_data = (case dget entry_data CONF_SITE (PStr DEFAULT_SITE) of PStr site \<Rightarrow> site | _ \<Rightarrow> [])"

definition diagnostics ::
    "(dict \<Rightarrow> string list \<Rightarrow> dict) \<Rightarrow> pydatetime \<Rightarrow> dict \<Rightarrow> dict \<Rightarrow> (coord \<times> (string \<times> string) list) option
       \<Rightarrow> exn + dict" where
  "diagnostics redact now entry_data options runtime =
     bindE (case runtime of None \<Rightarrow> Inr [] | Some (s, urls) \<Rightarrow> coordinator_report now s) (\<lambda>coordinator_info.
     Inr [(''config_entry'', PDict (redact entry_data TO_REDACT)),
          (''options'', PDict (redact options TO_REDACT)),
          (''webhook_urls'', PDict (case runtime of None \<Rightarrow> [] | Some (s, urls) \<Rightarrow> map (\<lambda>(c, u). (c, PStr u)) urls)),
          (''coordinator'', PDict coordinator_info),
          (''controller'', PDict (case runtime of
              None \<Rightarrow> [(''discovered_alarm_url'', PNone), (''controller_version'', PNone)]
            | Some (s, urls) \<Rightarrow> controller_report (entry_site entry_data) (co_client s)))])"

end
