(* ===== verification/Setup.thy ===== *)
theory Setup
  imports Entities
begin

section \<open>Migration, setup, services\<close>

text \<open>
  \<^verbatim>\<open>__init__.py\<close> and \<^verbatim>\<open>services.py\<close>: the migration of stored entries, the setup and
  unload of an entry, the removal of stale entities, and the two services.

  A configuration entry is a record; \<^verbatim>\<open>async_update_entry\<close> replaces its fields. The state of
  Home Assistant that matters here is \<open>home\<close>: the webhook registry (a parameter type with
  its operations, as in theory \<open>Webhook\<close>), the registered services of the domain and the entity
  registry. What Home Assistant's own coroutines do is a parameter: how a first refresh turns the
  exception of a poll into its own (\<open>refresh_error\<close>) and whether forwarding to the platforms
  raises (\<open>forward\<close>).
\<close>

record config_entry =
  ce_id :: string
  ce_version :: int
  ce_data :: dict
  ce_options :: dict

text \<open>The device the entities of an entry belong to (\<^verbatim>\<open>entity_helpers.py\<close>).\<close>

record device_info =
  di_identifiers :: "(string \<times> string) list"
  di_name :: string
  di_manufacturer :: string
  di_model :: string
  di_entry_type :: string
  di_configuration_url :: pyval

definition device_info_for_entry :: "config_entry \<Rightarrow> device_info" where
  "device_info_for_entry entry =
     \<lparr> di_identifiers = [(DOMAIN, ce_id entry)], di_name = ''UniFi Alerts'', di_manufacturer = ''Ubiquiti'',
       di_model = ''UniFi Network Controller'', di_entry_type = ''service'',
       di_configuration_url = dget (ce_data entry) CONF_CONTROLLER_URL PNone \<rparr>"

subsection \<open>Migration\<close>

definition migrate_v1 :: "config_entry \<Rightarrow> config_entry" where
  "migrate_v1 entry = entry\<lparr>ce_data := filter (\<lambda>(k, v). k \<noteq> ''is_unifi_os'') (ce_data entry), ce_version := 2\<rparr>"

text \<open>The new data of the second migration and whether the suffix was filled in.\<close>

definition backfill :: "string \<Rightarrow> string \<Rightarrow> dict \<Rightarrow> dict \<times> bool" where
  "backfill secret id_suffix data =
     (let data = (if \<not> truthy (dget data ''webhook_secret'' PNone)
                  then AList.update ''webhook_secret'' (PStr secret) data else data)
      in if \<not> truthy (dget data ''webhook_id_suffix'' PNone)
         then (AList.update ''webhook_id_suffix'' (PStr id_suffix) data, True) else (data, False))"

definition migrate_v2 :: "string \<Rightarrow> string \<Rightarrow> config_entry \<Rightarrow> config_entry \<times> effect list" where
  "migrate_v2 secret id_suffix entry =
     (case backfill secret id_suffix (ce_data entry) of (data, suffix_backfilled) \<Rightarrow>
        (entry\<lparr>ce_data := data, ce_version := 3\<rparr>,
         if suffix_backfilled then [IssueCreated (ISSUE_ID_WEBHOOK_URLS_CHANGED @ ''_'' @ ce_id entry)] else []))"

definition migrate_v3 :: "config_entry \<Rightarrow> config_entry" where
  "migrate_v3 entry =
     entry\<lparr>ce_data := fold AList.delete [''username'', ''password'', ''auth_method''] (ce_data entry), ce_version := 4\<rparr>"

text \<open>\<open>async_migrate_entry\<close>; the two texts are the tokens \<^verbatim>\<open>secrets\<close> would draw.\<close>

definition migrate_entry :: "string \<Rightarrow> string \<Rightarrow> config_entry \<Rightarrow> config_entry \<times> effect list" where
  "migrate_entry secret id_suffix entry =
     (let entry = (if ce_version entry = 1 then migrate_v1 entry else entry);
          (entry, issues) = (if ce_version entry = 2 then migrate_v2 secret id_suffix entry else (entry, []));
          entry = (if ce_version entry = 3 then migrate_v3 entry else entry)
      in (entry, issues))"

subsection \<open>Stale entities\<close>

record registry_entry =
  re_unique_id :: string
  re_entity_id :: string

definition disabled_prefixes :: "string \<Rightarrow> coord \<Rightarrow> string list" where
  "disabled_prefixes entry_id s =
     map (\<lambda>cat. entry_id @ ''_'' @ cat @ ''_'') (filter (\<lambda>cat. \<not> category_available s cat) ALL_CATEGORIES)"

definition prune_disabled :: "string \<Rightarrow> coord \<Rightarrow> registry_entry list \<Rightarrow> registry_entry list" where
  "prune_disabled entry_id s registry =
     filter (\<lambda>e. \<not> list_ex (startswith (re_unique_id e)) (disabled_prefixes entry_id s)) registry"

subsection \<open>Services\<close>

definition SERVICE_CLEAR_CATEGORY :: string where "SERVICE_CLEAR_CATEGORY = ''clear_category''"
definition SERVICE_CLEAR_ALL :: string where "SERVICE_CLEAR_ALL = ''clear_all''"

definition register_services :: "string list \<Rightarrow> string list" where
  "register_services services =
     (let services = (if SERVICE_CLEAR_CATEGORY \<in> set services then services else services @ [SERVICE_CLEAR_CATEGORY])
      in if SERVICE_CLEAR_ALL \<in> set services then services else services @ [SERVICE_CLEAR_ALL])"

definition unregister_services :: "string list \<Rightarrow> string list" where
  "unregister_services services =
     (let services = (if SERVICE_CLEAR_CATEGORY \<in> set services then removeAll SERVICE_CLEAR_CATEGORY services else services)
      in if SERVICE_CLEAR_ALL \<in> set services then removeAll SERVICE_CLEAR_ALL services else services)"

text \<open>The entries Home Assistant knows, of any domain; a loaded one has its coordinator.\<close>

record known_entry =
  ke_id :: string
  ke_domain :: string
  ke_loaded :: bool

record running_entry = known_entry +
  ke_coord :: coord

definition find_entry :: "string \<Rightarrow> 'a known_entry_scheme list \<Rightarrow> 'a known_entry_scheme option" where
  "find_entry entry_id entries = find (\<lambda>e. ke_id e = entry_id) entries"

text \<open>\<open>_get_coordinators\<close>: the identifiers of the entries to act on.\<close>

definition get_coordinators :: "'a known_entry_scheme list \<Rightarrow> string option \<Rightarrow> exn + string list" where
  "get_coordinators entries entry_id =
     (case entry_id of
        Some i \<Rightarrow>
          (case find_entry i entries of
             None \<Rightarrow> Inl (ServiceValidationError ''unknown_entry_id'')
           | Some e \<Rightarrow>
               if ke_domain e \<noteq> DOMAIN then Inl (ServiceValidationError ''unknown_entry_id'')
               else if \<not> ke_loaded e then Inl (ServiceValidationError ''entry_not_loaded'')
               else Inr [i])
      | None \<Rightarrow> Inr (map ke_id (filter (\<lambda>e. ke_domain e = DOMAIN \<and> ke_loaded e) entries)))"

text \<open>
  A clear as a caller awaits it: \<open>clear\<close> starts the save, and \<open>failure\<close> is what the store raises for
  it. The exception of a failed save reaches the caller.
\<close>

definition await_clear :: "(coord \<Rightarrow> coord) \<Rightarrow> exn option \<Rightarrow> (coord, unit) act" where
  "await_clear clear failure s =
     (let s' = clear s; i = length (co_tasks s)
      in if length (co_tasks s') = i then (Inr (), s')
         else (case failure of
             None \<Rightarrow> (Inr (), finish_save True i s')
           | Some e \<Rightarrow> (Inl e, finish_save False i s')))"

text \<open>
  The two handlers. They clear the coordinators one after the other, each awaited, so an exception of one leaves
  the loop. \<open>entries\<close> is what Home Assistant knows of the entries and \<open>on\<close> works on the coordinator in
  the runtime data of an entry; \<open>saves\<close> is what the store of each entry raises.
\<close>

definition clear_each ::
    "('s \<Rightarrow> 'a known_entry_scheme list) \<Rightarrow> (string \<Rightarrow> (coord, unit) act \<Rightarrow> ('s, unit) act)
       \<Rightarrow> (string \<Rightarrow> exn option) \<Rightarrow> (coord \<Rightarrow> coord) \<Rightarrow> string option \<Rightarrow> ('s, unit) act" where
  "clear_each entries on saves clear entry_id =
     bindS (getS entries) (\<lambda>known.
     bindS (liftS (get_coordinators known entry_id)) (\<lambda>ids.
     forS ids (\<lambda>i. on i (await_clear clear (saves i)))))"

definition handle_clear_category ::
    "('s \<Rightarrow> 'a known_entry_scheme list) \<Rightarrow> (string \<Rightarrow> (coord, unit) act \<Rightarrow> ('s, unit) act)
       \<Rightarrow> (string \<Rightarrow> exn option) \<Rightarrow> pydatetime \<Rightarrow> string \<Rightarrow> string option \<Rightarrow> ('s, unit) act" where
  "handle_clear_category entries on saves now category entry_id =
     clear_each entries on saves (clear_category now category) entry_id"

definition handle_clear_all ::
    "('s \<Rightarrow> 'a known_entry_scheme list) \<Rightarrow> (string \<Rightarrow> (coord, unit) act \<Rightarrow> ('s, unit) act)
       \<Rightarrow> (string \<Rightarrow> exn option) \<Rightarrow> pydatetime \<Rightarrow> string option \<Rightarrow> ('s, unit) act" where
  "handle_clear_all entries on saves now entry_id = clear_each entries on saves (clear_all now) entry_id"

text \<open>The coordinator in the runtime data of an entry of a list.\<close>

definition on_running :: "string \<Rightarrow> (coord, unit) act \<Rightarrow> ('a running_entry_scheme list, unit) act" where
  "on_running i m entries =
     (case find_entry i entries of
        None \<Rightarrow> (Inr (), entries)
      | Some e \<Rightarrow> (case m (ke_coord e) of (r, s) \<Rightarrow>
          (r, map (\<lambda>x. if ke_id x = i then x\<lparr>ke_coord := s\<rparr> else x) entries)))"

subsection \<open>Setup and unload\<close>

record 'h home =
  hm_webhooks :: 'h
  hm_services :: "string list"
  hm_registry :: "registry_entry list"

text \<open>The environment of one setup: the controller, the clock readings, the stored data and
  what Home Assistant's functions do.\<close>

record 'h env =
  ev_net :: net
  ev_now :: pydatetime
  ev_times :: "pydatetime \<times> pydatetime \<times> pydatetime"
  ev_tick :: int
  ev_stored :: pyval
  ev_reg :: "'h registrar"
  ev_unreg :: "'h registrar"
  ev_url :: "string \<Rightarrow> string"
  ev_refresh_error :: "exn \<Rightarrow> exn"
  ev_forward :: "exn option"

text \<open>The exceptions of the first verification, as setup translates them: the message ends in the
  name of the class.\<close>

fun exn_class :: "exn \<Rightarrow> string" where
  "exn_class (InvalidAuthError m u) = ''InvalidAuthError''"
| "exn_class (SslCertificateError m) = ''SslCertificateError''"
| "exn_class (InvalidSiteError m) = ''InvalidSiteError''"
| "exn_class (AlarmEndpointUnavailableError m) = ''AlarmEndpointUnavailableError''"
| "exn_class (CannotConnectError m) = ''CannotConnectError''"
| "exn_class _ = []"

definition setup_auth_error :: "exn \<Rightarrow> exn" where
  "setup_auth_error err =
     (if is_invalid_auth err
      then ConfigEntryAuthFailed (''Invalid credentials for UniFi controller: '' @ exn_class err)
      else if is_cannot_connect err
      then ConfigEntryNotReady (''Could not connect to UniFi controller: '' @ exn_class err)
      else err)"

definition log_controller_version :: "net \<Rightarrow> config_entry \<Rightarrow> (client, unit) act" where
  "log_controller_version net entry =
     bindS (fetch_controller_version net (entry_site (ce_data entry))) (\<lambda>_. returnS ())"

text \<open>The poll before the first render.\<close>

definition first_refresh :: "'h env \<Rightarrow> (coord, unit) act" where
  "first_refresh env = (case ev_times env of (t0, t1, t2) \<Rightarrow>
     tryS (update_data (ev_net env) t0 t1 t2 (ev_tick env)) (\<lambda>e. raiseS (ev_refresh_error env e)))"

text \<open>What registration reads from the merged configuration.\<close>

definition enabled_of :: "dict \<Rightarrow> pyval list" where
  "enabled_of config =
     (case dget config CONF_ENABLED_CATEGORIES (PList (map PStr ALL_CATEGORIES)) of PList xs \<Rightarrow> xs | _ \<Rightarrow> [])"

definition id_suffix_of :: "dict \<Rightarrow> string" where
  "id_suffix_of config = (case dget config CONF_WEBHOOK_ID_SUFFIX (PStr []) of PStr x \<Rightarrow> x | _ \<Rightarrow> [])"

definition merged_config :: "config_entry \<Rightarrow> dict" where
  "merged_config entry = dict_merge (ce_data entry) (ce_options entry)"

text \<open>
  Setup up to the first refresh: the outcome, and the coordinator as it is left, also when
  the refresh fails, since its timers live on. \<open>None\<close> stands for a configuration whose
  values have other types than the flow stores.
\<close>

definition setup_coordinator :: "'h env \<Rightarrow> config_entry \<Rightarrow> ((exn + unit) \<times> coord option) option" where
  "setup_coordinator env entry =
     (case dget (ce_data entry) CONF_CONTROLLER_URL PNone of
        PStr url \<Rightarrow>
          (case authenticate (ev_net env) (new_client url (ce_data entry)) of
             (Inl err, _) \<Rightarrow> Some (Inl (setup_auth_error err), None)
           | (Inr _, c) \<Rightarrow>
               (case log_controller_version (ev_net env) entry c of
                  (Inl err, _) \<Rightarrow> Some (Inl err, None)
                | (Inr _, c) \<Rightarrow>
                    (case new_coordinator c (merged_config entry) (ce_id entry) of
                       None \<Rightarrow> None
                     | Some s \<Rightarrow>
                         (case bindS (restore_watermarks (ev_now env) (ev_stored env))
                                 (\<lambda>_. first_refresh env) s of (r, s) \<Rightarrow> Some (r, Some s)))))
      | _ \<Rightarrow> None)"

text \<open>The rest: webhooks, pruning, platforms and services, with the clean-up of the last two.\<close>

definition setup_platforms ::
    "'h env \<Rightarrow> config_entry \<Rightarrow> coord \<Rightarrow> 'h home \<Rightarrow> (exn + 'h manager) \<times> coord \<times> 'h home" where
  "setup_platforms env entry s home =
     (case register_all (ev_reg env) (ev_url env) (enabled_of (merged_config entry)) (id_suffix_of (merged_config entry))
             \<lparr> wm_hass = hm_webhooks home, wm_registered = [], wm_urls = [] \<rparr> of
        Inl e \<Rightarrow> (Inl e, s, home)
      | Inr m \<Rightarrow>
          (let home = home\<lparr>hm_webhooks := wm_hass m,
                           hm_registry := prune_disabled (ce_id entry) s (hm_registry home)\<rparr>
           in case ev_forward env of
                None \<Rightarrow> (Inr m, s, home\<lparr>hm_services := register_services (hm_services home)\<rparr>)
              | Some e \<Rightarrow>
                  (Inl e, shutdown s, home\<lparr>hm_webhooks := wm_hass (unregister_all (ev_unreg env) m)\<rparr>)))"

definition setup_entry ::
    "'h env \<Rightarrow> config_entry \<Rightarrow> 'h home \<Rightarrow> ((exn + 'h manager) \<times> coord option \<times> 'h home) option" where
  "setup_entry env entry home =
     (case setup_coordinator env entry of
        Some (Inr _, Some s) \<Rightarrow>
          (case setup_platforms env entry s home of (r, s, home) \<Rightarrow> Some (r, Some s, home))
      | Some (Inl err, left) \<Rightarrow> Some (Inl err, left, home)
      | _ \<Rightarrow> None)"

definition unload_entry ::
    "(string \<Rightarrow> 'h \<Rightarrow> exn + 'h) \<Rightarrow> bool \<Rightarrow> string \<Rightarrow> string list \<Rightarrow> 'h manager \<Rightarrow> coord \<Rightarrow> 'h home
       \<Rightarrow> coord \<times> 'h home" where
  "unload_entry unreg unload_ok entry_id all_entries m s home =
     (if \<not> unload_ok then (s, home)
      else (let home = home\<lparr>hm_webhooks := wm_hass (unregister_all unreg (m\<lparr>wm_hass := hm_webhooks home\<rparr>))\<rparr>
            in (shutdown s,
                if filter (\<lambda>e. e \<noteq> entry_id) all_entries = []
                then home\<lparr>hm_services := unregister_services (hm_services home)\<rparr> else home)))"

text \<open>The repair issues deleted with a removed entry.\<close>

definition removed_issues :: "string \<Rightarrow> string list" where
  "removed_issues entry_id = map (\<lambda>base. base @ ''_'' @ entry_id)
     [ISSUE_ID_AUTH_FAILED, ISSUE_ID_WEBHOOK_SECRET_ROTATED, ISSUE_ID_WEBHOOK_URLS_CHANGED,
      ISSUE_ID_PERSIST_FAILED, ISSUE_ID_APIKEY_MIGRATION, ISSUE_ID_WEBHOOK_LEGACY_QUERY_AUTH]"

definition remove_entry :: "string \<Rightarrow> (string \<times> pyval) list \<Rightarrow> string list \<Rightarrow> (string \<times> pyval) list \<times> string list" where
  "remove_entry entry_id stores issues =
     (AList.delete (DOMAIN @ ''_watermarks_'' @ entry_id) stores,
      filter (\<lambda>i. i \<notin> set (removed_issues entry_id)) issues)"

end
