(* ===== verification/ConfigFlow.thy ===== *)
theory ConfigFlow
  imports Setup
begin

section \<open>The config and options flows\<close>

text \<open>
  \<^verbatim>\<open>config_flow.py\<close>: the dialogues that create, re-authenticate, reconfigure and tune an
  entry. A step is an action on the flow object together with what of Home Assistant it can
  change: the entries and the log of issues, updates and reloads (newest first). It takes the
  submitted form, \<open>None\<close> on first display, and returns a form, an abort or a created entry.

  Parameters, in \<open>flow_env\<close>: the controller, the scheme and host name of a URL (\<^verbatim>\<open>yarl\<close> and
  \<^verbatim>\<open>urllib.parse\<close>, which may raise), the check Home Assistant makes when a flow sets its unique
  id (the reason of the abort, if any), the URL of a webhook, and the tokens \<^verbatim>\<open>secrets\<close> draws.
  A form has been validated against its schema before a step sees it, so a text field holds text
  (\<open>text_of\<close>). The entry of an options or reconfigure flow exists, since Home Assistant ends the
  flows of an entry it removes; a step without it raises in the model.
\<close>

datatype field_type = TextField | PasswordField | BoolField | SelectField "string list" | IntField int int

record form_field =
  ff_name :: string
  ff_required :: bool
  ff_type :: field_type
  ff_default :: "pyval option"

datatype flow_result =
    ShowForm string "form_field list" "(string \<times> string) list" dict
  | Abort string
  | CreateEntry string dict

record flow_entry = config_entry +
  ce_unique_id :: "string option"

datatype flow_effect = CreateIssue string | DeleteIssue string | UpdateEntry string | Reload string

record 'f flow_state =
  fs_flow :: 'f
  fs_entries :: "flow_entry list"
  fs_effects :: "flow_effect list"

record config_flow =
  cf_unique_id :: "string option"
  cf_controller_url :: string
  cf_credentials :: dict
  cf_entry_data :: dict
  cf_device_serial :: string
  cf_reauth_entry :: "string option"
  cf_title_name :: "string option"

record options_flow =
  of_entry :: string
  of_pending_options :: dict
  of_pending_data :: dict

record flow_env =
  fe_net :: net
  fe_scheme :: "string \<Rightarrow> exn + string"
  fe_hostname :: "string \<Rightarrow> exn + string option"
  fe_unique_abort :: "string \<Rightarrow> flow_entry list \<Rightarrow> string option"
  fe_webhook_url :: "string \<Rightarrow> string"
  fe_secret :: string
  fe_suffix :: string

definition new_config_flow :: config_flow where
  "new_config_flow = \<lparr> cf_unique_id = None, cf_controller_url = [], cf_credentials = [], cf_entry_data = [],
     cf_device_serial = [], cf_reauth_entry = None, cf_title_name = None \<rparr>"

definition new_options_flow :: "string \<Rightarrow> options_flow" where
  "new_options_flow entry_id = \<lparr> of_entry = entry_id, of_pending_options = [], of_pending_data = [] \<rparr>"

definition text_of :: "pyval \<Rightarrow> string" where
  "text_of v = (case v of PStr s \<Rightarrow> s | _ \<Rightarrow> [])"

definition on_flow :: "('f \<Rightarrow> 'f) \<Rightarrow> ('f flow_state, unit) act" where
  "on_flow f = modifyS (\<lambda>s. s\<lparr>fs_flow := f (fs_flow s)\<rparr>)"

definition flow_emit :: "flow_effect \<Rightarrow> ('f flow_state, unit) act" where
  "flow_emit e = modifyS (\<lambda>s. s\<lparr>fs_effects := e # fs_effects s\<rparr>)"

text \<open>\<^verbatim>\<open>async_update_entry\<close> on the entry with an identifier, and its lookup.\<close>

definition update_entry :: "string \<Rightarrow> (flow_entry \<Rightarrow> flow_entry) \<Rightarrow> ('f flow_state, unit) act" where
  "update_entry entry_id f = modifyS (\<lambda>s. s\<lparr>
     fs_entries := map (\<lambda>e. if ce_id e = entry_id then f e else e) (fs_entries s),
     fs_effects := UpdateEntry entry_id # fs_effects s\<rparr>)"

definition entry_of :: "string \<Rightarrow> flow_entry list \<Rightarrow> flow_entry option" where
  "entry_of entry_id entries = find (\<lambda>e. ce_id e = entry_id) entries"

definition get_own_entry :: "string \<Rightarrow> ('f flow_state, flow_entry) act" where
  "get_own_entry entry_id s =
     (case entry_of entry_id (fs_entries s) of None \<Rightarrow> (Inl KeyError, s) | Some e \<Rightarrow> (Inr e, s))"

subsection \<open>Helpers of the flows\<close>

definition MIN_SEVERITY_TO_WIDGET :: "(string \<times> string) list" where
  "MIN_SEVERITY_TO_WIDGET =
     [(MIN_SEVERITY_NO_FILTER, MIN_SEVERITY_NO_FILTER), (SEVERITY_LOW, ''low''), (SEVERITY_MEDIUM, ''medium''),
      (SEVERITY_HIGH, ''high''), (SEVERITY_VERY_HIGH, ''very_high'')]"

definition WIDGET_TO_MIN_SEVERITY :: "(string \<times> string) list" where
  "WIDGET_TO_MIN_SEVERITY = map (\<lambda>(stored, widget). (widget, stored)) MIN_SEVERITY_TO_WIDGET"

definition min_severity_selector :: field_type where
  "min_severity_selector = SelectField (map snd MIN_SEVERITY_TO_WIDGET)"

definition auth_failed_issue :: "string \<Rightarrow> string" where
  "auth_failed_issue entry_id = ISSUE_ID_AUTH_FAILED @ ''_'' @ entry_id"

definition apikey_migration_issue :: "string \<Rightarrow> string" where
  "apikey_migration_issue entry_id = ISSUE_ID_APIKEY_MIGRATION @ ''_'' @ entry_id"

definition entry_needs_apikey_migration :: "dict \<Rightarrow> bool" where
  "entry_needs_apikey_migration data = (\<not> truthy (dget data CONF_API_KEY PNone))"

definition find_entry_by_serial :: "flow_entry list \<Rightarrow> string \<Rightarrow> flow_entry option" where
  "find_entry_by_serial entries serial =
     find (\<lambda>e. dget (ce_data e) CONF_DEVICE_SERIAL PNone = PStr serial) entries"

definition webhook_url_placeholders :: "flow_env \<Rightarrow> pyval list \<Rightarrow> string \<Rightarrow> dict" where
  "webhook_url_placeholders env enabled id_suffix =
     map (\<lambda>cat. (''url_'' @ cat, PStr (if PStr cat \<in> set enabled
                   then fe_webhook_url env (webhook_id_for_category cat id_suffix) else ''not enabled''))) ALL_CATEGORIES"

record credentials_form =
  new_url_raw :: string
  new_api_key :: string
  regenerate_secret :: bool
  new_verify_ssl :: pyval
  verify_ssl_changed :: bool
  credentials_changed :: bool

definition parse_credentials_form_input :: "dict \<Rightarrow> dict \<Rightarrow> credentials_form" where
  "parse_credentials_form_input user_input current_data =
     (let url = strip (text_of (py_or (dget user_input CONF_CONTROLLER_URL PNone) (PStr [])));
          api_key = strip (text_of (py_or (dget user_input CONF_API_KEY PNone) (PStr [])));
          current_verify_ssl = dget current_data CONF_VERIFY_SSL (PBool DEFAULT_VERIFY_SSL);
          verify = dget user_input CONF_VERIFY_SSL current_verify_ssl
      in \<lparr> new_url_raw = url, new_api_key = api_key,
           regenerate_secret = truthy (dget user_input CONF_REGENERATE_WEBHOOK_SECRET (PBool False)),
           new_verify_ssl = verify, verify_ssl_changed = (verify \<noteq> current_verify_ssl),
           credentials_changed = (url \<noteq> [] \<or> api_key \<noteq> []) \<rparr>)"

definition is_valid_url_scheme :: "flow_env \<Rightarrow> string \<Rightarrow> exn + bool" where
  "is_valid_url_scheme env url =
     bindE (fe_scheme env url) (\<lambda>scheme. Inr (scheme \<in> set [''http'', ''https'']))"

definition find_duplicate_entry :: "flow_entry list \<Rightarrow> string \<Rightarrow> string \<Rightarrow> flow_entry option" where
  "find_duplicate_entry entries current_entry_id url =
     find (\<lambda>e. ce_id e \<noteq> current_entry_id \<and> dget (ce_data e) CONF_CONTROLLER_URL PNone = PStr url) entries"

definition credential_overrides :: "credentials_form \<Rightarrow> dict" where
  "credential_overrides parsed =
     (if new_api_key parsed \<noteq> [] then [(CONF_API_KEY, PStr (new_api_key parsed))] else [])"

definition build_verify_ssl_and_secret_only_pending :: "string \<Rightarrow> dict \<Rightarrow> credentials_form \<Rightarrow> dict" where
  "build_verify_ssl_and_secret_only_pending secret current_data parsed =
     (let pending = (if verify_ssl_changed parsed
            then AList.update CONF_VERIFY_SSL (new_verify_ssl parsed) current_data else current_data)
      in if regenerate_secret parsed then AList.update CONF_WEBHOOK_SECRET (PStr secret) pending else pending)"

definition build_credentials_test_data :: "dict \<Rightarrow> string \<Rightarrow> credentials_form \<Rightarrow> dict" where
  "build_credentials_test_data current_data effective_url parsed =
     dict_merge current_data
       ([(CONF_CONTROLLER_URL, PStr effective_url), (CONF_VERIFY_SSL, new_verify_ssl parsed)] @ credential_overrides parsed)"

definition build_credentials_pending_data :: "string \<Rightarrow> dict \<Rightarrow> string \<Rightarrow> credentials_form \<Rightarrow> dict" where
  "build_credentials_pending_data secret current_data effective_url parsed =
     (let pending = dict_merge current_data
            ([(CONF_CONTROLLER_URL, PStr effective_url), (CONF_VERIFY_SSL, new_verify_ssl parsed)] @ credential_overrides parsed)
      in if regenerate_secret parsed then AList.update CONF_WEBHOOK_SECRET (PStr secret) pending else pending)"

text \<open>A fresh client that authenticates and looks for an alarm transport of the site.\<close>

definition validate_controller :: "flow_env \<Rightarrow> string \<Rightarrow> dict \<Rightarrow> string \<Rightarrow> exn + unit" where
  "validate_controller env url config site =
     fst (bindS (authenticate (fe_net env)) (\<lambda>_.
          bindS (validate_connectivity (fe_net env) site) (\<lambda>_. returnS ())) (new_client url config))"

text \<open>The form errors of an exception; one that no handler names escapes. The handlers of the
  user step differ from those of the options and reconfigure steps in the field that carries a
  certificate error.\<close>

definition credential_errors :: "string \<Rightarrow> exn \<Rightarrow> exn + (string \<times> string) list" where
  "credential_errors ssl_field err = (case err of
       InvalidAuthError m u \<Rightarrow> Inr [(''base'', ''invalid_auth'')]
     | SslCertificateError m \<Rightarrow> Inr [(ssl_field, ''invalid_ssl_cert'')]
     | AlarmEndpointUnavailableError m \<Rightarrow> Inr [(''base'', ''alarm_endpoint_unavailable'')]
     | _ \<Rightarrow> if is_cannot_connect err then Inr [(''base'', ''cannot_connect'')] else Inl err)"

definition reauth_errors :: "exn \<Rightarrow> exn + (string \<times> string) list" where
  "reauth_errors err = (case err of
       InvalidAuthError m u \<Rightarrow> Inr [(''base'', ''invalid_auth'')]
     | SslCertificateError m \<Rightarrow> Inr [(''base'', ''invalid_ssl_cert'')]
     | _ \<Rightarrow> if is_cannot_connect err then Inr [(''base'', ''cannot_connect'')] else Inl err)"

definition site_errors :: "exn \<Rightarrow> exn + (string \<times> string) list" where
  "site_errors err = (case err of
       InvalidSiteError m \<Rightarrow> Inr [(CONF_SITE, ''invalid_site'')]
     | AlarmEndpointUnavailableError m \<Rightarrow> Inr [(''base'', ''alarm_endpoint_unavailable'')]
     | _ \<Rightarrow> if is_invalid_auth err \<or> is_cannot_connect err then Inr [(''base'', ''cannot_connect'')] else Inl err)"

subsection \<open>The categories form\<close>

definition selected_categories :: "dict \<Rightarrow> string list" where
  "selected_categories user_input =
     filter (\<lambda>cat. truthy (dget user_input (''cat_'' @ cat) (PBool False))) ALL_CATEGORIES"

text \<open>A dictionary lookup refuses an unhashable key.\<close>

definition widget_to_min_severity :: "pyval \<Rightarrow> exn + string" where
  "widget_to_min_severity v = (case v of
       PStr w \<Rightarrow> Inr (case map_of WIDGET_TO_MIN_SEVERITY w of None \<Rightarrow> MIN_SEVERITY_NO_FILTER | Some m \<Rightarrow> m)
     | PList xs \<Rightarrow> Inl TypeError
     | PDict d \<Rightarrow> Inl TypeError
     | _ \<Rightarrow> Inr MIN_SEVERITY_NO_FILTER)"

definition selected_min_severity :: "dict \<Rightarrow> exn + dict" where
  "selected_min_severity user_input =
     mapE (\<lambda>cat. bindE (widget_to_min_severity (dget user_input (''min_severity_'' @ cat) (PStr MIN_SEVERITY_NO_FILTER)))
                   (\<lambda>m. Inr (cat, PStr m))) ALL_CATEGORIES"

definition category_settings :: "dict \<Rightarrow> string list \<Rightarrow> pyval \<Rightarrow> dict \<Rightarrow> dict" where
  "category_settings user_input enabled site min_severity =
     [(CONF_ENABLED_CATEGORIES, PList (map PStr enabled)),
      (CONF_POLL_INTERVAL, dget user_input CONF_POLL_INTERVAL (PInt DEFAULT_POLL_INTERVAL)),
      (CONF_CLEAR_TIMEOUT, dget user_input CONF_CLEAR_TIMEOUT (PInt DEFAULT_CLEAR_TIMEOUT)),
      (CONF_SITE, site), (CONF_MIN_SEVERITY, PDict min_severity)]"

text \<open>The controller is only asked about a site other than the default one.\<close>

definition check_site :: "flow_env \<Rightarrow> string \<Rightarrow> dict \<Rightarrow> pyval \<Rightarrow> exn + (string \<times> string) list" where
  "check_site env url config site =
     (if site = PStr DEFAULT_SITE then Inr []
      else case validate_controller env url config (text_of site) of
             Inr _ \<Rightarrow> Inr [] | Inl err \<Rightarrow> site_errors err)"

definition setting_field :: "string \<Rightarrow> field_type \<Rightarrow> pyval \<Rightarrow> form_field" where
  "setting_field name t v = \<lparr> ff_name = name, ff_required = False, ff_type = t, ff_default = Some v \<rparr>"

definition categories_schema ::
    "(string \<Rightarrow> bool) \<Rightarrow> (string \<Rightarrow> string) \<Rightarrow> pyval \<Rightarrow> pyval \<Rightarrow> pyval \<Rightarrow> form_field list" where
  "categories_schema on widget poll clear site =
     concat (map (\<lambda>cat. [setting_field (''cat_'' @ cat) BoolField (PBool (on cat)),
                         setting_field (''min_severity_'' @ cat) min_severity_selector (PStr (widget cat))]) ALL_CATEGORIES)
     @ [setting_field CONF_POLL_INTERVAL (IntField 10 3600) poll,
        setting_field CONF_CLEAR_TIMEOUT (IntField 1 1440) clear,
        setting_field CONF_SITE TextField site]"

definition api_key_field :: "bool \<Rightarrow> form_field" where
  "api_key_field required = \<lparr> ff_name = CONF_API_KEY, ff_required = required, ff_type = PasswordField, ff_default = None \<rparr>"

subsection \<open>The config flow\<close>

definition step_finish :: "flow_env \<Rightarrow> dict option \<Rightarrow> (config_flow flow_state, flow_result) act" where
  "step_finish env user_input =
     getS (\<lambda>s. let flow = fs_flow s; data = cf_entry_data flow in
       if user_input \<noteq> None
       then CreateEntry (''UniFi Alerts ('' @ cf_controller_url flow @ '')'') data
       else ShowForm ''finish'' [] []
              (AList.update ''webhook_secret'' (dget data CONF_WEBHOOK_SECRET (PStr []))
                (webhook_url_placeholders env (enabled_of data) (id_suffix_of data))))"

definition step_categories_form :: "(string \<times> string) list \<Rightarrow> flow_result" where
  "step_categories_form errors = ShowForm ''categories''
     (categories_schema (\<lambda>cat. cat \<notin> set [''network_device'', ''network_client'']) (\<lambda>_. MIN_SEVERITY_NO_FILTER)
        (PInt DEFAULT_POLL_INTERVAL) (PInt DEFAULT_CLEAR_TIMEOUT) (PStr DEFAULT_SITE)) errors []"

definition step_categories :: "flow_env \<Rightarrow> dict option \<Rightarrow> (config_flow flow_state, flow_result) act" where
  "step_categories env submitted = (case submitted of
       None \<Rightarrow> returnS (step_categories_form [])
     | Some user_input \<Rightarrow>
         bindS (liftS (selected_min_severity user_input)) (\<lambda>min_severity.
         if selected_categories user_input = []
         then returnS (step_categories_form [(''base'', ''at_least_one_category'')])
         else bindS (getS fs_flow) (\<lambda>flow.
         bindS (liftS (check_site env (cf_controller_url flow) (cf_credentials flow)
                         (dget user_input CONF_SITE (PStr DEFAULT_SITE)))) (\<lambda>errors.
         if errors \<noteq> [] then returnS (step_categories_form errors)
         else bindS (on_flow (\<lambda>f. f\<lparr>cf_entry_data := dict_merge (cf_credentials f)
                      (category_settings user_input (selected_categories user_input)
                        (dget user_input CONF_SITE (PStr DEFAULT_SITE)) min_severity)\<rparr>)) (\<lambda>_.
         step_finish env None)))))"

definition step_user_form :: "config_flow \<Rightarrow> dict option \<Rightarrow> (string \<times> string) list \<Rightarrow> flow_result" where
  "step_user_form flow submitted errors = ShowForm ''user''
     [\<lparr> ff_name = CONF_CONTROLLER_URL, ff_required = True, ff_type = TextField, ff_default = Some (case submitted of
          Some user_input \<Rightarrow> dget user_input CONF_CONTROLLER_URL PNone
        | None \<Rightarrow> PStr (if cf_controller_url flow \<noteq> [] then cf_controller_url flow else ''https://192.168.1.1'')) \<rparr>,
      api_key_field True,
      setting_field CONF_VERIFY_SSL BoolField (case submitted of
          Some user_input \<Rightarrow> dget user_input CONF_VERIFY_SSL (PBool DEFAULT_VERIFY_SSL)
        | None \<Rightarrow> PBool DEFAULT_VERIFY_SSL)]
     errors [(''docs_url'', PStr ''https://github.com/PHeonix25/unifi_alerts'')]"

text \<open>\<^verbatim>\<open>async_set_unique_id\<close> followed by \<^verbatim>\<open>_abort_if_unique_id_configured\<close>.\<close>

definition claim_unique_id :: "flow_env \<Rightarrow> string \<Rightarrow> (config_flow flow_state, string option) act" where
  "claim_unique_id env url =
     bindS (on_flow (\<lambda>f. f\<lparr>cf_unique_id := Some url\<rparr>)) (\<lambda>_. getS (\<lambda>s. fe_unique_abort env url (fs_entries s)))"

text \<open>The credentials kept after a successful validation.\<close>

definition staged_credentials :: "flow_env \<Rightarrow> dict \<Rightarrow> string \<Rightarrow> dict" where
  "staged_credentials env user_input serial =
     (let credentials = dict_merge user_input
            [(CONF_WEBHOOK_SECRET, PStr (fe_secret env)), (CONF_WEBHOOK_ID_SUFFIX, PStr (fe_suffix env))]
      in if serial \<noteq> [] then AList.update CONF_DEVICE_SERIAL (PStr serial) credentials else credentials)"

definition step_user :: "flow_env \<Rightarrow> dict option \<Rightarrow> (config_flow flow_state, flow_result) act" where
  "step_user env submitted = (case submitted of
       None \<Rightarrow> getS (\<lambda>s. step_user_form (fs_flow s) None [])
     | Some user_input \<Rightarrow>
         (case map_of user_input CONF_CONTROLLER_URL of
            None \<Rightarrow> raiseS KeyError
          | Some url_field \<Rightarrow>
             (let url = rstrip_char CHR ''/'' (text_of url_field);
                  form = (\<lambda>errors. getS (\<lambda>s. step_user_form (fs_flow s) submitted errors)) in
              bindS (liftS (is_valid_url_scheme env url)) (\<lambda>valid.
              if \<not> valid then form [(CONF_CONTROLLER_URL, ''invalid_url_scheme'')]
              else bindS (claim_unique_id env url) (\<lambda>abort.
              case abort of
                Some reason \<Rightarrow> returnS (Abort reason)
              | None \<Rightarrow>
                 (case validate_controller env url user_input DEFAULT_SITE of
                    Inl err \<Rightarrow> bindS (liftS (credential_errors CONF_CONTROLLER_URL err)) form
                  | Inr _ \<Rightarrow>
                      bindS (on_flow (\<lambda>f. f\<lparr>cf_controller_url := url,
                               cf_credentials := staged_credentials env user_input (cf_device_serial f)\<rparr>)) (\<lambda>_.
                      step_categories env None)))))))"

subsection \<open>Discovery\<close>

text \<open>The location and the serial number of an announcement.\<close>

record discovery =
  sd_location :: "string option"
  sd_serial :: "string option"

definition refresh_entry :: "string \<Rightarrow> string \<Rightarrow> flow_entry \<Rightarrow> flow_entry" where
  "refresh_entry url serial e =
     e\<lparr>ce_data := dict_merge (ce_data e) [(CONF_CONTROLLER_URL, PStr url), (CONF_DEVICE_SERIAL, PStr serial)],
       ce_unique_id := Some url\<rparr>"

definition step_ssdp :: "flow_env \<Rightarrow> discovery \<Rightarrow> (config_flow flow_state, flow_result) act" where
  "step_ssdp env info =
     bindS (liftS (fe_hostname env (case sd_location info of None \<Rightarrow> [] | Some l \<Rightarrow> l))) (\<lambda>hostname.
     let host = (case hostname of None \<Rightarrow> [] | Some h \<Rightarrow> h); url = ''https://'' @ host in
     if host = [] then returnS (Abort ''cannot_connect'')
     else bindS (on_flow (\<lambda>f. f\<lparr>cf_controller_url := url\<rparr>)) (\<lambda>_.
     bindS (claim_unique_id env url) (\<lambda>abort.
     case abort of
       Some reason \<Rightarrow> returnS (Abort reason)
     | None \<Rightarrow>
         (let serial = (case sd_serial info of None \<Rightarrow> [] | Some n \<Rightarrow> n);
              continue = bindS (on_flow (\<lambda>f. f\<lparr>cf_title_name := Some host\<rparr>)) (\<lambda>_. step_user env None) in
          if serial = [] then continue
          else bindS (on_flow (\<lambda>f. f\<lparr>cf_device_serial := serial\<rparr>)) (\<lambda>_.
          bindS (getS (\<lambda>s. find_entry_by_serial (fs_entries s) serial)) (\<lambda>existing.
          case existing of
            None \<Rightarrow> continue
          | Some e \<Rightarrow>
              if dget (ce_data e) CONF_CONTROLLER_URL PNone \<noteq> PStr url
              then bindS (update_entry (ce_id e) (refresh_entry url serial)) (\<lambda>_.
                   returnS (Abort ''already_configured''))
              else continue))))))"

subsection \<open>Re-authentication\<close>

definition reauth_form :: "(string \<times> string) list \<Rightarrow> flow_result" where
  "reauth_form errors = ShowForm ''reauth_confirm'' [api_key_field True] errors []"

definition step_reauth_confirm :: "flow_env \<Rightarrow> dict option \<Rightarrow> (config_flow flow_state, flow_result) act" where
  "step_reauth_confirm env submitted =
     bindS (getS (\<lambda>s. cf_reauth_entry (fs_flow s))) (\<lambda>reauth_entry.
     case (submitted, reauth_entry) of
       (Some user_input, Some entry_id) \<Rightarrow>
         bindS (get_own_entry entry_id) (\<lambda>entry.
         case fst (authenticate (fe_net env)
                     (new_client (text_of (dget (ce_data entry) CONF_CONTROLLER_URL (PStr []))) user_input)) of
           Inl err \<Rightarrow> bindS (liftS (reauth_errors err)) (\<lambda>errors. returnS (reauth_form errors))
         | Inr _ \<Rightarrow>
             bindS (update_entry entry_id (\<lambda>e. e\<lparr>ce_data := dict_merge (ce_data e) user_input\<rparr>)) (\<lambda>_.
             bindS (flow_emit (DeleteIssue (auth_failed_issue entry_id))) (\<lambda>_.
             bindS (flow_emit (DeleteIssue (apikey_migration_issue entry_id))) (\<lambda>_.
             bindS (flow_emit (Reload entry_id)) (\<lambda>_.
             returnS (Abort ''reauth_successful''))))))
     | _ \<Rightarrow> returnS (reauth_form []))"

definition step_reauth :: "flow_env \<Rightarrow> string \<Rightarrow> (config_flow flow_state, flow_result) act" where
  "step_reauth env entry_id =
     bindS (getS (\<lambda>s. entry_of entry_id (fs_entries s))) (\<lambda>entry.
     bindS (on_flow (\<lambda>f. f\<lparr>cf_reauth_entry := map_option ce_id entry\<rparr>)) (\<lambda>_.
     bindS (case entry of
              None \<Rightarrow> returnS ()
            | Some e \<Rightarrow>
                if entry_needs_apikey_migration (ce_data e)
                then flow_emit (CreateIssue (apikey_migration_issue (ce_id e)))
                else flow_emit (CreateIssue (auth_failed_issue (ce_id e)))) (\<lambda>_.
     step_reauth_confirm env None)))"

subsection \<open>Reconfiguration\<close>

definition credentials_schema :: "pyval \<Rightarrow> form_field list" where
  "credentials_schema current_verify_ssl =
     [\<lparr> ff_name = CONF_CONTROLLER_URL, ff_required = False, ff_type = TextField, ff_default = None \<rparr>,
      api_key_field False, setting_field CONF_VERIFY_SSL BoolField current_verify_ssl]"

definition current_url_placeholder :: "dict \<Rightarrow> dict" where
  "current_url_placeholder data = [(''current_url'', dget data CONF_CONTROLLER_URL (PStr []))]"

definition reconfigure_form :: "dict \<Rightarrow> (string \<times> string) list \<Rightarrow> flow_result" where
  "reconfigure_form data errors = ShowForm ''reconfigure''
     (credentials_schema (dget data CONF_VERIFY_SSL (PBool DEFAULT_VERIFY_SSL))) errors (current_url_placeholder data)"

text \<open>The URL to test: the typed one without trailing slashes, or the stored one (a missing
  stored URL raises).\<close>

definition effective_url :: "dict \<Rightarrow> credentials_form \<Rightarrow> exn + string" where
  "effective_url data parsed =
     (if new_url_raw parsed \<noteq> [] then Inr (rstrip_char CHR ''/'' (new_url_raw parsed))
      else case map_of data CONF_CONTROLLER_URL of None \<Rightarrow> Inl KeyError | Some v \<Rightarrow> Inr (text_of v))"

definition url_changed :: "dict \<Rightarrow> string \<Rightarrow> exn + bool" where
  "url_changed data url =
     (case map_of data CONF_CONTROLLER_URL of None \<Rightarrow> Inl KeyError | Some v \<Rightarrow> Inr (PStr url \<noteq> v))"

text \<open>\<^verbatim>\<open>async_update_reload_and_abort\<close>.\<close>

definition update_reload_and_abort ::
    "string \<Rightarrow> dict \<Rightarrow> string option \<Rightarrow> (config_flow flow_state, flow_result) act" where
  "update_reload_and_abort entry_id data new_unique_id =
     bindS (update_entry entry_id (\<lambda>e. e\<lparr>ce_data := data,
              ce_unique_id := (case new_unique_id of None \<Rightarrow> ce_unique_id e | Some u \<Rightarrow> Some u)\<rparr>)) (\<lambda>_.
     bindS (flow_emit (Reload entry_id)) (\<lambda>_. returnS (Abort ''reconfigure_successful'')))"

definition step_reconfigure :: "flow_env \<Rightarrow> string \<Rightarrow> dict option \<Rightarrow> (config_flow flow_state, flow_result) act" where
  "step_reconfigure env entry_id submitted =
     bindS (get_own_entry entry_id) (\<lambda>entry.
     case submitted of
       None \<Rightarrow> returnS (reconfigure_form (ce_data entry) [])
     | Some user_input \<Rightarrow>
        (let data = ce_data entry; parsed = parse_credentials_form_input user_input data;
             form = (\<lambda>errors. returnS (reconfigure_form data errors)) in
         if \<not> credentials_changed parsed \<and> \<not> regenerate_secret parsed \<and> \<not> verify_ssl_changed parsed
         then returnS (Abort ''reconfigure_successful'')
         else if \<not> credentials_changed parsed
         then update_reload_and_abort entry_id (build_verify_ssl_and_secret_only_pending (fe_secret env) data parsed) None
         else bindS (liftS (effective_url data parsed)) (\<lambda>url.
         bindS (liftS (is_valid_url_scheme env url)) (\<lambda>valid.
         if \<not> valid then form [(CONF_CONTROLLER_URL, ''invalid_url_scheme'')]
         else case validate_controller env url (build_credentials_test_data data url parsed) DEFAULT_SITE of
                Inl err \<Rightarrow> bindS (liftS (credential_errors ''base'' err)) form
              | Inr _ \<Rightarrow>
                  bindS (liftS (url_changed data url)) (\<lambda>changed.
                  bindS (getS (\<lambda>s. find_duplicate_entry (fs_entries s) entry_id url)) (\<lambda>duplicate.
                  if changed \<and> duplicate \<noteq> None then returnS (Abort ''already_configured'')
                  else update_reload_and_abort entry_id
                         (build_credentials_pending_data (fe_secret env) data url parsed)
                         (if changed then Some url else None)))))))"

subsection \<open>The options flow\<close>

text \<open>A setting of an entry: its options shadow its data.\<close>

definition setting :: "config_entry \<Rightarrow> string \<Rightarrow> pyval \<Rightarrow> pyval" where
  "setting entry k v = dget (ce_options entry) k (dget (ce_data entry) k v)"

definition options_finish :: "flow_env \<Rightarrow> dict option \<Rightarrow> (options_flow flow_state, flow_result) act" where
  "options_finish env user_input =
     bindS (getS fs_flow) (\<lambda>flow.
     bindS (get_own_entry (of_entry flow)) (\<lambda>entry.
     let data = ce_data entry; pending = of_pending_data flow;
         old_secret = dget data CONF_WEBHOOK_SECRET (PStr []) in
     if user_input \<noteq> None then
       bindS (if pending = [] then returnS ()
              else bindS (whenS (dget pending CONF_WEBHOOK_SECRET old_secret \<noteq> old_secret)
                            (flow_emit (CreateIssue (rotated_issue (of_entry flow))))) (\<lambda>_.
                let new_url = dget pending CONF_CONTROLLER_URL PNone in
                update_entry (of_entry flow) (\<lambda>e. e\<lparr>ce_data := pending,
                  ce_unique_id := (if truthy new_url \<and> new_url \<noteq> dget data CONF_CONTROLLER_URL PNone
                                   then Some (text_of new_url) else ce_unique_id e)\<rparr>))) (\<lambda>_.
       returnS (CreateEntry [] (of_pending_options flow)))
     else returnS (ShowForm ''finish'' [] []
            (AList.update ''webhook_secret'' (dget pending CONF_WEBHOOK_SECRET old_secret)
              (webhook_url_placeholders env (enabled_of (of_pending_options flow)) (id_suffix_of data))))))"

text \<open>The form shows the settings in force; a stored value of another shape than the flow stores
  reads as empty.\<close>

definition options_categories_form :: "flow_entry \<Rightarrow> (string \<times> string) list \<Rightarrow> flow_result" where
  "options_categories_form entry errors =
     (let current = setting (config_entry.truncate entry);
          enabled = (case current CONF_ENABLED_CATEGORIES (PList (map PStr ALL_CATEGORIES)) of PList xs \<Rightarrow> xs | _ \<Rightarrow> []);
          min_severity = (case current CONF_MIN_SEVERITY (PDict []) of PDict m \<Rightarrow> m | _ \<Rightarrow> []) in
      ShowForm ''categories''
        (categories_schema (\<lambda>cat. PStr cat \<in> set enabled)
          (\<lambda>cat. case map_of MIN_SEVERITY_TO_WIDGET
                        (text_of (dget min_severity cat (PStr MIN_SEVERITY_NO_FILTER))) of
                   None \<Rightarrow> MIN_SEVERITY_NO_FILTER | Some w \<Rightarrow> w)
          (current CONF_POLL_INTERVAL (PInt DEFAULT_POLL_INTERVAL))
          (current CONF_CLEAR_TIMEOUT (PInt DEFAULT_CLEAR_TIMEOUT))
          (current CONF_SITE (PStr DEFAULT_SITE))) errors [])"

definition options_categories :: "flow_env \<Rightarrow> dict option \<Rightarrow> (options_flow flow_state, flow_result) act" where
  "options_categories env submitted =
     bindS (getS fs_flow) (\<lambda>flow.
     bindS (get_own_entry (of_entry flow)) (\<lambda>entry.
     case submitted of
       None \<Rightarrow> returnS (options_categories_form entry [])
     | Some user_input \<Rightarrow>
         bindS (liftS (selected_min_severity user_input)) (\<lambda>min_severity.
         if selected_categories user_input = []
         then returnS (options_categories_form entry [(''base'', ''at_least_one_category'')])
         else let site = dget user_input CONF_SITE (PStr DEFAULT_SITE);
                  creds = (if of_pending_data flow \<noteq> [] then of_pending_data flow else ce_data entry) in
         bindS (liftS (check_site env (text_of (dget creds CONF_CONTROLLER_URL (PStr []))) creds site)) (\<lambda>errors.
         if errors \<noteq> [] then returnS (options_categories_form entry errors)
         else bindS (on_flow (\<lambda>f. f\<lparr>of_pending_options :=
                      category_settings user_input (selected_categories user_input) site min_severity\<rparr>)) (\<lambda>_.
         options_finish env None)))))"

definition options_credentials_form :: "dict \<Rightarrow> (string \<times> string) list \<Rightarrow> flow_result" where
  "options_credentials_form data errors = ShowForm ''credentials''
     (credentials_schema (dget data CONF_VERIFY_SSL (PBool DEFAULT_VERIFY_SSL))
      @ [setting_field CONF_REGENERATE_WEBHOOK_SECRET BoolField (PBool False)]) errors (current_url_placeholder data)"

definition options_credentials :: "flow_env \<Rightarrow> dict option \<Rightarrow> (options_flow flow_state, flow_result) act" where
  "options_credentials env submitted =
     bindS (getS fs_flow) (\<lambda>flow.
     bindS (get_own_entry (of_entry flow)) (\<lambda>entry.
     case submitted of
       None \<Rightarrow> returnS (options_credentials_form (ce_data entry) [])
     | Some user_input \<Rightarrow>
        (let data = ce_data entry; parsed = parse_credentials_form_input user_input data;
             form = (\<lambda>errors. returnS (options_credentials_form data errors));
             stage = (\<lambda>pending. bindS (on_flow (\<lambda>f. f\<lparr>of_pending_data := pending\<rparr>)) (\<lambda>_.
                                 options_categories env None)) in
         if \<not> credentials_changed parsed \<and> \<not> regenerate_secret parsed \<and> \<not> verify_ssl_changed parsed
         then options_categories env None
         else if \<not> credentials_changed parsed
         then stage (build_verify_ssl_and_secret_only_pending (fe_secret env) data parsed)
         else bindS (liftS (effective_url data parsed)) (\<lambda>url.
         bindS (liftS (is_valid_url_scheme env url)) (\<lambda>valid.
         if \<not> valid then form [(CONF_CONTROLLER_URL, ''invalid_url_scheme'')]
         else case validate_controller env url (build_credentials_test_data data url parsed) DEFAULT_SITE of
                Inl err \<Rightarrow> bindS (liftS (credential_errors ''base'' err)) form
              | Inr _ \<Rightarrow>
                  bindS (liftS (url_changed data url)) (\<lambda>changed.
                  bindS (getS (\<lambda>s. find_duplicate_entry (fs_entries s) (of_entry flow) url)) (\<lambda>duplicate.
                  if changed \<and> duplicate \<noteq> None then returnS (Abort ''already_configured'')
                  else stage (build_credentials_pending_data (fe_secret env) data url parsed))))))))"

definition options_init :: "flow_env \<Rightarrow> (options_flow flow_state, flow_result) act" where
  "options_init env = options_credentials env None"

end
