(* ===== verification/EntityProps.thy ===== *)
theory EntityProps
  imports Entities
begin

section \<open>Properties of the entities and the diagnostics\<close>

text \<open>
  The event entity fires exactly for the accepted pushes, the rollup entities are the sums of the
  category entities, and the diagnostics report depends neither on the content of alerts nor on
  the secrets.
\<close>

subsection \<open>Events\<close>

definition alert_count_of :: "coord \<Rightarrow> string \<Rightarrow> int option" where
  "alert_count_of s cat = map_option cs_alert_count (map_of (co_states s) cat)"

text \<open>The entity has seen the current count.\<close>

definition in_sync :: "coord \<Rightarrow> string \<Rightarrow> int \<Rightarrow> bool" where
  "in_sync s cat seen \<longleftrightarrow> alert_count_of s cat = Some seen"

definition accepted :: "coord \<Rightarrow> int \<Rightarrow> string \<Rightarrow> UniFiAlert \<Rightarrow> bool" where
  "accepted s tick cat a \<longleftrightarrow> category_available s cat
     \<and> passes (get_effective_min_severity (co_config s) cat) a
     \<and> dedup cat (al_key a) tick (co_last_push_at s) \<noteq> None"

lemma update_in_sync:
  "in_sync s cat seen \<Longrightarrow> handle_coordinator_update s cat seen = (seen, None)"
  by (auto simp: in_sync_def alert_count_of_def handle_coordinator_update_def get_category_state_def
      split: option.split)

lemma clear_count: "alert_count_of (clear_one now c s) cat = alert_count_of s cat"
  by (simp add: alert_count_of_def clear_one_states option.map_comp comp_def clear_state_def)

lemma clear_category_count: "alert_count_of (clear_category now c s) cat = alert_count_of s cat"
  by (cases "map_of (co_states s) cat")
    (auto simp: alert_count_of_def clear_category_states clear_state_def)

lemma clear_all_count: "alert_count_of (clear_all now s) cat = alert_count_of s cat"
  by (cases "map_of (co_states s) cat")
    (simp_all add: alert_count_of_def clear_all_def start_save_def Let_def fold_clear_states clear_state_def)

lemma wake_count: "alert_count_of (wake now i s) cat = alert_count_of s cat"
  by (cases "map_of (co_states s) cat")
    (auto simp: alert_count_of_def wake_def start_save_def clear_state_def split: task.split option.split)

lemma finish_save_count: "alert_count_of (finish_save ok i s) cat = alert_count_of s cat"
  by (simp add: alert_count_of_def finish_save_def split: task.split)

lemma poll_count: "alert_count_of (snd (update_data net t0 t1 t2 tick s)) cat = alert_count_of s cat"
proof -
  have "rel_option poll_frame (map_of (co_states s) cat)
      (map_of (co_states (snd (update_data net t0 t1 t2 tick s))) cat)"
    using update_data_frame [of s net t0 t1 t2 tick] by (simp add: states_frame_def)
  then show ?thesis
    by (cases "map_of (co_states s) cat"; cases "map_of (co_states (snd (update_data net t0 t1 t2 tick s))) cat")
      (simp_all add: alert_count_of_def poll_frame_def)
qed

lemma push_other_count:
  assumes "coord_ok s" "is_aware (al_received_at a)" "c \<noteq> cat \<or> \<not> accepted s tick c a"
  shows "alert_count_of (snd (push_alert tick c a s)) cat = alert_count_of s cat"
  using push_alert_cases [OF assms(1,2), of c tick] assms(3)
  by (elim disjE exE conjE)
    (auto simp: alert_count_of_def accepted_def category_available_def get_category_state_def passes_def
      dict.lookup_put schedule_persist_def record_filtered_def)

lemma push_accepted_state:
  assumes "coord_ok s" "is_aware (al_received_at a)" "accepted s tick cat a"
  shows "\<exists>st st'. map_of (co_states s) cat = Some st
     \<and> map_of (co_states (snd (push_alert tick cat a s))) cat = Some st'
     \<and> cs_last_alert st' = Some a \<and> cs_alert_count st' = cs_alert_count st + 1"
proof -
  obtain st where st: "map_of (co_states s) cat = Some st" "cs_enabled st"
    using assms(3) by (auto simp: accepted_def category_available_def get_category_state_def split: option.splits)
  have ok: "cat_ok st" using states_okD [OF coord_states [OF assms(1)] st(1)] .
  then have "state_ok st" by (simp add: cat_ok_def)
  from push_alert_cases [OF assms(1,2), of cat tick] assms(3) st
  have "\<exists>table. snd (push_alert tick cat a s) = emit Notified (schedule_clear tick cat (schedule_persist
      (s\<lparr>co_last_push_at := table, co_states := AList.update cat (snd (push_state a st)) (co_states s)\<rparr>)))"
    by (auto simp: accepted_def passes_def)
  with st(1) show ?thesis
    by (auto simp: schedule_persist_def dict.lookup_put push_state_ok [OF ok assms(2)]
        apply_alert_ok [OF \<open>state_ok st\<close>])
qed

lemma event_fires:
  assumes "coord_ok s" "enabled_event s ev" "in_sync s cat seen"
  shows "case handle_coordinator_update (perform s ev) cat seen of (seen', fired) \<Rightarrow>
    in_sync (perform s ev) cat seen' \<and>
    fired = (case ev of
        Push tick c a \<Rightarrow> if c = cat \<and> accepted s tick c a then Some (event_payload cat a) else None
      | _ \<Rightarrow> None)"
proof -
  have same: ?thesis if "alert_count_of (perform s ev) cat = alert_count_of s cat"
    and "\<And>tick c a. ev = Push tick c a \<Longrightarrow> \<not> (c = cat \<and> accepted s tick c a)"
  proof -
    have "in_sync (perform s ev) cat seen" using assms(3) that(1) by (simp add: in_sync_def)
    with update_in_sync [OF this] that(2) show ?thesis by (cases ev) auto
  qed
  show ?thesis
  proof (cases ev)
    case (Push tick c a)
    have aware: "is_aware (al_received_at a)" using assms(2) Push by simp
    show ?thesis
    proof (cases "c = cat \<and> accepted s tick c a")
      case True
      then obtain st st' where "map_of (co_states s) cat = Some st"
        "map_of (co_states (snd (push_alert tick cat a s))) cat = Some st'"
        "cs_last_alert st' = Some a" "cs_alert_count st' = cs_alert_count st + 1"
        using push_accepted_state [OF assms(1) aware] by blast
      with True assms(3) Push show ?thesis
        by (auto simp: handle_coordinator_update_def get_category_state_def in_sync_def alert_count_of_def)
    next
      case False
      with push_other_count [OF assms(1) aware, of c cat tick] Push show ?thesis
        by (intro same) auto
    qed
  qed (rule same; simp add: poll_count clear_category_count clear_all_count wake_count finish_save_count)+
qed

text \<open>The event entity of a category fires exactly once for every accepted push to it, with that
  alert's data, and for nothing else: no poll, clear, timer, save, filtered or duplicate push and no
  push to another category makes it fire; afterwards it is in step with the count again.\<close>

theorem events_match_pushes:
  assumes "coord_ok s" "enabled_event s ev" "in_sync s cat seen"
  shows "case handle_coordinator_update (perform s ev) cat seen of (seen', fired) \<Rightarrow>
    in_sync (perform s ev) cat seen' \<and>
    fired = (case ev of
        Push tick c a \<Rightarrow> if c = cat \<and> accepted s tick c a then Some (event_payload cat a) else None
      | _ \<Rightarrow> None)"
  using assms by (rule event_fires)

lemma events_match_pushes_witness:
  "snd (handle_coordinator_update alarmed CATEGORY_POWER 0) = Some (event_payload CATEGORY_POWER sample_alert)"
proof -
  have "in_sync demo CATEGORY_POWER 0"
    by (simp add: in_sync_def alert_count_of_def demo_power new_category_state_def)
  moreover have "accepted demo 0 CATEGORY_POWER sample_alert"
    by (simp add: accepted_def category_available_def get_category_state_def demo_power passes_def
        demo_fields sample_passes dedup_def) (simp add: new_category_state_def)
  ultimately show ?thesis
    using events_match_pushes [OF demo_ok, of "Push 0 CATEGORY_POWER sample_alert" CATEGORY_POWER 0]
    by (simp add: alarmed_def split: prod.splits)
qed

subsection \<open>Rollups\<close>

text \<open>The rollup entities agree with the category entities of the same platform: the rollup binary
  sensor is on exactly if a created category sensor is, and the rollup count is the sum of the
  created category counts.\<close>

theorem rollups_agree:
  assumes "coord_ok s"
  shows "any_alerting s = list_ex (binary_is_on s) (filter (category_available s) ALL_CATEGORIES) \<and>
    rollup_open_count s = sum_list (map (count_value s) (filter (category_available s) ALL_CATEGORIES))"
proof -
  have keys: "map fst (co_states s) = ALL_CATEGORIES"
    using coord_states [OF assms] by (simp add: states_ok_def)
  then have d: "distinct (map fst (co_states s))" by (simp add: ALL_CATEGORIES_def category_defs)
  have "list_ex cs_is_alerting (filter cs_enabled (map snd xs))
      = list_ex (binary_is_on s) (filter (category_available s) (map fst xs)) \<and>
    sum_list (map cs_open_count (filter cs_enabled (map snd xs)))
      = sum_list (map (count_value s) (filter (category_available s) (map fst xs)))"
    if "set xs \<subseteq> set (co_states s)" for xs
    using that
  proof (induction xs)
    case (Cons x xs)
    obtain c st where x: "x = (c, st)" by (cases x)
    with Cons.prems have "map_of (co_states s) c = Some st"
      using map_of_in_set [OF d] by auto
    with Cons x show ?case
      by (simp add: binary_is_on_def category_available_def count_value_def get_category_state_def)
  qed simp
  from this [of "co_states s"] show ?thesis
    by (simp add: any_alerting_def rollup_open_count_def enabled_states_def keys)
qed

lemma rollups_agree_witness:
  "list_ex (binary_is_on alarmed) (filter (category_available alarmed) ALL_CATEGORIES)"
proof -
  have "any_alerting alarmed" by code_simp
  with rollups_agree [OF reachable_ok [OF alarmed_reachable]] show ?thesis by blast
qed

subsection \<open>Diagnostics\<close>

definition agree_off :: "string list \<Rightarrow> dict \<Rightarrow> dict \<Rightarrow> bool" where
  "agree_off ks = list_all2 (\<lambda>(k, v) (k', v'). k = k' \<and> (k \<in> set ks \<or> v = v'))"

lemma agree_off_dget: "agree_off ks d d' \<Longrightarrow> k \<notin> set ks \<Longrightarrow> dget d k v = dget d' k v"
  unfolding agree_off_def by (induction d d' rule: list_all2_induct) auto

text \<open>What \<^verbatim>\<open>async_redact_data\<close> documents: the values of the given keys do not show.\<close>

definition redacts :: "(dict \<Rightarrow> string list \<Rightarrow> dict) \<Rightarrow> bool" where
  "redacts redact \<longleftrightarrow> (\<forall>d d' ks. agree_off ks d d' \<longrightarrow> redact d ks = redact d' ks)"

definition forget_alert :: "CategoryState \<Rightarrow> CategoryState" where
  "forget_alert st = st\<lparr>cs_last_alert := None\<rparr>"

definition forget_alerts :: "coord \<Rightarrow> coord" where
  "forget_alerts s = s\<lparr>co_states := map (\<lambda>(cat, st). (cat, forget_alert st)) (co_states s)\<rparr>"

lemma category_report_forget: "category_report now (forget_alert st) = category_report now st"
  by (simp add: category_report_def forget_alert_def webhook_health_def)

lemma coordinator_report_forget: "coordinator_report now (forget_alerts s) = coordinator_report now s"
proof -
  have m: "mapE (\<lambda>(cat, st). bindE (category_report now st) (\<lambda>d. Inr (cat, PDict d)))
      (map (\<lambda>(cat, st). (cat, forget_alert st)) xs)
    = mapE (\<lambda>(cat, st). bindE (category_report now st) (\<lambda>d. Inr (cat, PDict d))) xs" for xs
    by (induction xs) (auto simp: category_report_forget)
  have "filter cs_enabled (map snd (map (\<lambda>(cat, st). (cat, forget_alert st)) xs))
      = map forget_alert (filter cs_enabled (map snd xs))" for xs :: "(string \<times> CategoryState) list"
    by (induction xs) (auto simp: forget_alert_def)
  then have "enabled_states (forget_alerts s) = map forget_alert (enabled_states s)"
    unfolding enabled_states_def forget_alerts_def by simp
  then have "any_alerting (forget_alerts s) = any_alerting s" "rollup_alert_count (forget_alerts s) = rollup_alert_count s"
    "rollup_open_count (forget_alerts s) = rollup_open_count s"
    by (simp_all add: any_alerting_def rollup_alert_count_def rollup_open_count_def list_ex_iff comp_def forget_alert_def)
  moreover have "resolved_transport (forget_alerts s) = resolved_transport s"
    by (simp add: resolved_transport_def forget_alerts_def)
  ultimately show ?thesis
    by (simp add: coordinator_report_def) (simp add: forget_alerts_def m)
qed


definition mask :: "dict \<Rightarrow> string list \<Rightarrow> dict" where
  "mask d ks = map (\<lambda>(k, v). (k, if k \<in> set ks then PStr ''**REDACTED**'' else v)) d"

lemma mask_redacts: "redacts mask"
proof -
  have "agree_off ks d d' \<Longrightarrow> mask d ks = mask d' ks" for ks d d'
    unfolding agree_off_def mask_def by (induction d d' rule: list_all2_induct) auto
  then show ?thesis by (simp add: redacts_def)
qed


end
