(* ===== verification/WebhookProps.thy ===== *)
theory WebhookProps
  imports Webhook EventKeys
begin

section \<open>Properties of the webhooks\<close>

text \<open>
  No request without the secret changes anything; what the handler answers; the round trip of
  registration; and requests on which the handler does not do what its comments say.
\<close>

subsection \<open>Authentication\<close>

lemma compare_digest_True: "compare_digest t secret = Inr True \<Longrightarrow> secret = PStr t"
  by (auto simp: compare_digest_def split: pyval.splits if_splits)

lemma authorize_True:
  assumes "authorize rq secret = Inr (h, q)" "h \<or> q" "truthy secret"
  shows "\<exists>t. secret = PStr t \<and> t \<noteq> [] \<and>
    (wr_token rq = Some t \<or> (\<exists>a. wr_authorization rq = Some a \<and> extract_bearer_token a = t))"
proof -
  have e: "extract_bearer_token [] = []" by code_simp
  obtain t where t: "secret = PStr t" "t \<noteq> []"
    using assms by (auto simp: authorize_def Let_def out_simps dest!: compare_digest_True)
  with assms e show ?thesis
    by (auto simp: authorize_def Let_def out_simps dest!: compare_digest_True split: option.splits)
qed

text \<open>C13: a webhook request changes something only if it carries the configured, non-empty secret, as a
  bearer token or as the legacy query parameter: whatever the body, an unauthenticated request leaves
  the categories, the timers, the store and the issues as they were.\<close>

theorem webhook_authenticated:
  assumes "snd (handle_webhook loads entry_id category secret now tick rq s) \<noteq> s"
  shows "\<exists>t. secret = PStr t \<and> t \<noteq> [] \<and>
    (wr_token rq = Some t \<or> (\<exists>a. wr_authorization rq = Some a \<and> extract_bearer_token a = t))"
proof -
  from assms have sec: "truthy secret"
    by (cases "truthy secret") (simp_all add: handle_webhook_def returnS_def)
  obtain h q where a: "authorize rq secret = Inr (h, q)" "h \<or> q"
    using assms sec
    by (cases "authorize rq secret") (auto simp: handle_webhook_def act_defs split: prod.splits if_splits)
  from authorize_True [OF a sec] show ?thesis .
qed

text \<open>A request the demo coordinator accepts.\<close>

definition ping :: webhook_request where
  "ping = \<lparr> wr_authorization = Some ''Bearer s3cret'', wr_token = None, wr_received = [], wr_pending = [] \<rparr>"

definition no_json :: "nat list \<Rightarrow> exn + pyval" where
  "no_json raw = Inl JSONDecodeError"

lemma webhook_authenticated_witness:
  "\<exists>a. wr_authorization ping = Some a \<and> extract_bearer_token a = ''s3cret''"
proof -
  have "co_effects (snd (handle_webhook no_json ''e'' CATEGORY_POWER (PStr ''s3cret'') utc0 0 ping demo)) \<noteq> []"
    by code_simp
  then have "snd (handle_webhook no_json ''e'' CATEGORY_POWER (PStr ''s3cret'') utc0 0 ping demo) \<noteq> demo"
    by (auto simp: demo_fields)
  from webhook_authenticated [OF this] show ?thesis by (simp add: ping_def)
qed

lemma extract_bearer: "strip t = t \<Longrightarrow> extract_bearer_token (''Bearer '' @ t) = t"
proof -
  have "lower ''Bearer'' = ''bearer''" by code_simp
  moreover assume "strip t = t"
  ultimately show ?thesis by (simp add: extract_bearer_token_def partition_char_def)
qed

subsection \<open>Answers\<close>

definition carries :: "webhook_request \<Rightarrow> string \<Rightarrow> bool" where
  "carries rq t \<longleftrightarrow> extract_bearer_token (case wr_authorization rq of None \<Rightarrow> [] | Some h \<Rightarrow> h) = t"

definition queries :: "webhook_request \<Rightarrow> string \<Rightarrow> bool" where
  "queries rq t \<longleftrightarrow> (case wr_token rq of None \<Rightarrow> [] | Some q \<Rightarrow> q) = t"

definition ascii_tokens :: "webhook_request \<Rightarrow> bool" where
  "ascii_tokens rq \<longleftrightarrow> is_ascii (extract_bearer_token (case wr_authorization rq of None \<Rightarrow> [] | Some h \<Rightarrow> h))
     \<and> is_ascii (case wr_token rq of None \<Rightarrow> [] | Some q \<Rightarrow> q)"

lemma authorize_ascii:
  "ascii_tokens rq \<Longrightarrow> is_ascii t \<Longrightarrow> authorize rq (PStr t) = Inr (carries rq t, queries rq t)"
  by (simp add: authorize_def compare_digest_def ascii_tokens_def carries_def queries_def Let_def)

lemma push_alert_returns: "coord_ok s \<Longrightarrow> is_aware (al_received_at a) \<Longrightarrow> fst (push_alert tick cat a s) = Inr ()"
  using push_alert_cases [of s a cat tick] by auto

lemma read_payload_cases:
  "read_payload loads rq =
     (if length (wr_received rq) > WEBHOOK_MAX_BODY_BYTES then Inr (Inl 413)
      else case (if wr_received rq = [] then Inr (PDict []) else loads (wr_received rq)) of
        Inr v \<Rightarrow> Inr (Inr v)
      | Inl e \<Rightarrow> if e \<in> {JSONDecodeError, UnicodeDecodeError, TypeError} then Inr (Inl 400) else Inl e)"
  by (simp add: read_payload_def Let_def split: sum.split)

lemma handle_webhook_eq:
  assumes "t \<noteq> []" "is_ascii t" "ascii_tokens rq" "coord_ok s" "is_aware now"
  shows "handle_webhook loads entry_id category (PStr t) now tick rq s =
    (if \<not> carries rq t \<and> \<not> queries rq t then (Inr (Some 401), s)
     else if length (wr_received rq) > WEBHOOK_MAX_BODY_BYTES then (Inr (Some 413), s)
     else case (if wr_received rq = [] then Inr (PDict []) else loads (wr_received rq)) of
        Inl e \<Rightarrow> (if e \<in> {JSONDecodeError, UnicodeDecodeError, TypeError} then Inr (Some 400) else Inl e, s)
      | Inr v \<Rightarrow> (case from_webhook_payload now category v of
            Inl e \<Rightarrow> (Inl e, s)
          | Inr a \<Rightarrow> (Inr None, emit
              (if carries rq t then IssueDeleted (legacy_query_issue entry_id)
               else IssueCreated (legacy_query_issue entry_id))
              (emit (IssueDeleted (rotated_issue entry_id)) (snd (push_alert tick category a s))))))"
proof (cases "carries rq t \<or> queries rq t")
  case False
  then show ?thesis
    using assms(1-3) by (simp add: handle_webhook_def authorize_ascii act_defs)
next
  case True
  have run: "handle_webhook loads entry_id category (PStr t) now tick rq s =
      bindS (liftS (read_payload loads rq)) (\<lambda>body. case body of
            Inl status \<Rightarrow> returnS (Some status)
          | Inr payload \<Rightarrow> deliver entry_id category now tick (carries rq t) payload) s"
    using assms(1-3) True by (auto simp: handle_webhook_def authorize_ascii bindS_def liftS_def)
  have push: "push_alert tick category a s = (Inr (), snd (push_alert tick category a s))"
    if "from_webhook_payload now category v = Inr a" for v a
    using push_alert_returns [OF assms(4), of a tick category] assms(5) webhook_alert(2) [OF that]
    by (metis prod.collapse)
  have payload: "deliver entry_id category now tick h v s = (case from_webhook_payload now category v of
            Inl e \<Rightarrow> (Inl e, s)
          | Inr a \<Rightarrow> (Inr None, emit
              (if h then IssueDeleted (legacy_query_issue entry_id)
               else IssueCreated (legacy_query_issue entry_id))
              (emit (IssueDeleted (rotated_issue entry_id)) (snd (push_alert tick category a s)))))" for h v
  proof (cases "from_webhook_payload now category v")
    case (Inr a)
    from push [OF Inr] show ?thesis
      by (cases "push_alert tick category a s")
        (simp add: Inr deliver_def bindS_def liftS_def modifyS_def returnS_def raise_legacy_query_auth_issue_def)
  qed (simp add: deliver_def bindS_def liftS_def)
  show ?thesis
    using True unfolding run read_payload_cases
    by (auto simp: payload bindS_def liftS_def returnS_def split: sum.split)
qed

text \<open>The answers of the handler to a request whose tokens are ASCII: 401 without the secret, 413 for
  a body above 8192 bytes, 400 for one that does not decode, all without any effect; a JSON object
  (or an empty body) is pushed as one alert, the rotation issue is deleted, and the legacy issue is
  deleted for a bearer token and raised for a query token.\<close>

theorem webhook_answers:
  assumes "t \<noteq> []" "is_ascii t" "ascii_tokens rq" "coord_ok s" "is_aware now"
  shows "handle_webhook loads entry_id category (PStr t) now tick rq s =
    (if \<not> carries rq t \<and> \<not> queries rq t then (Inr (Some 401), s)
     else if length (wr_received rq) > WEBHOOK_MAX_BODY_BYTES then (Inr (Some 413), s)
     else case (if wr_received rq = [] then Inr (PDict []) else loads (wr_received rq)) of
        Inl e \<Rightarrow> (if e \<in> {JSONDecodeError, UnicodeDecodeError, TypeError} then Inr (Some 400) else Inl e, s)
      | Inr v \<Rightarrow> (case from_webhook_payload now category v of
            Inl e \<Rightarrow> (Inl e, s)
          | Inr a \<Rightarrow> (Inr None, emit
              (if carries rq t then IssueDeleted (legacy_query_issue entry_id)
               else IssueCreated (legacy_query_issue entry_id))
              (emit (IssueDeleted (rotated_issue entry_id)) (snd (push_alert tick category a s))))))"
  using assms by (rule handle_webhook_eq)

lemma webhook_answers_witness:
  "fst (handle_webhook no_json ''e'' CATEGORY_POWER (PStr ''s3cret'') utc0 0 ping demo) = Inr None \<and>
   fst (handle_webhook no_json ''e'' CATEGORY_POWER (PStr ''other'') utc0 0 ping demo) = Inr (Some 401)"
proof -
  have a: "ascii_tokens ping" "is_ascii ''s3cret''" "is_ascii ''other''" by code_simp+
  have c: "carries ping ''s3cret''" "\<not> carries ping ''other''" "\<not> queries ping ''other''" by code_simp+
  have r: "wr_received ping = []" by (simp add: ping_def)
  obtain al where al: "from_webhook_payload utc0 CATEGORY_POWER (PDict []) = Inr al"
    using webhook_accepts by blast
  show ?thesis
    using webhook_answers [OF _ a(2,1) demo_ok utc0_aware, of no_json "''e''" CATEGORY_POWER 0]
      webhook_answers [OF _ a(3,1) demo_ok utc0_aware, of no_json "''e''" CATEGORY_POWER 0]
    by (simp add: c r al)
qed

text \<open>The handler reads the body with one call that returns what has arrived so far: an authenticated
  request with a valid body is answered with 400 and dropped when only a part of the body has
  arrived at that moment, although the same request with its whole body received is accepted.\<close>

theorem webhook_split_body_dropped:
  assumes "t \<noteq> []" "is_ascii t" "ascii_tokens rq" "carries rq t" "coord_ok s" "is_aware now"
    and "wr_received rq = part" "part \<noteq> []" "loads part = Inl JSONDecodeError"
    and "length (part @ wr_pending rq) \<le> WEBHOOK_MAX_BODY_BYTES" "loads (part @ wr_pending rq) = Inr (PDict d)"
  shows "handle_webhook loads entry_id category (PStr t) now tick rq s = (Inr (Some 400), s) \<and>
    fst (handle_webhook loads entry_id category (PStr t) now tick
       (rq\<lparr>wr_received := part @ wr_pending rq, wr_pending := []\<rparr>) s) = Inr None"
proof
  have "length part \<le> WEBHOOK_MAX_BODY_BYTES" using assms(10) by simp
  then show "handle_webhook loads entry_id category (PStr t) now tick rq s = (Inr (Some 400), s)"
    using handle_webhook_eq [OF assms(1-3,5,6)] assms(4,7,8,9) by simp
  let ?rq = "rq\<lparr>wr_received := part @ wr_pending rq, wr_pending := []\<rparr>"
  have "ascii_tokens ?rq" "carries ?rq t" using assms(3,4) by (simp_all add: ascii_tokens_def carries_def)
  moreover obtain a where "from_webhook_payload now category (PDict d) = Inr a"
    using webhook_accepts by blast
  ultimately show "fst (handle_webhook loads entry_id category (PStr t) now tick ?rq s) = Inr None"
    using handle_webhook_eq [OF assms(1,2) _ assms(5,6), of ?rq] assms(8,10,11) by simp
qed

lemma webhook_split_body_dropped_witness:
  "\<exists>loads rq. handle_webhook loads ''e'' CATEGORY_POWER (PStr ''s3cret'') utc0 0 rq demo = (Inr (Some 400), demo) \<and>
    fst (handle_webhook loads ''e'' CATEGORY_POWER (PStr ''s3cret'') utc0 0
       (rq\<lparr>wr_received := wr_received rq @ wr_pending rq, wr_pending := []\<rparr>) demo) = Inr None"
proof -
  let ?loads = "\<lambda>raw :: nat list. if raw = [123, 125] then Inr (PDict []) else Inl JSONDecodeError"
  let ?rq = "ping\<lparr>wr_received := [123], wr_pending := [125]\<rparr>"
  have "ascii_tokens ping" "is_ascii ''s3cret''" "carries ping ''s3cret''" by code_simp+
  then have "ascii_tokens ?rq" "is_ascii ''s3cret''" "carries ?rq ''s3cret''"
    by (simp_all add: ascii_tokens_def carries_def)
  from webhook_split_body_dropped [OF _ this(2,1,3) demo_ok utc0_aware, of "[123]" ?loads "[]" "''e''" CATEGORY_POWER 0]
  show ?thesis
    by (intro exI [of _ ?loads] exI [of _ ?rq]) (simp add: WEBHOOK_MAX_BODY_BYTES_def)
qed

subsection \<open>Registration\<close>

text \<open>The documented behaviour of the registry: a taken identifier is refused with \<^verbatim>\<open>ValueError\<close>,
  and removing an identifier always succeeds.\<close>

definition registry_ok ::
    "('h \<Rightarrow> string \<Rightarrow> bool) \<Rightarrow> 'h registrar \<Rightarrow> (string \<Rightarrow> 'h \<Rightarrow> exn + 'h) \<Rightarrow> bool" where
  "registry_ok has reg unreg \<longleftrightarrow>
     (\<forall>i h. case reg i h of
        Inl e \<Rightarrow> e = ValueError \<and> has h i
      | Inr h' \<Rightarrow> \<not> has h i \<and> has h' = (has h)(i := True)) \<and>
     (\<forall>i h. \<exists>h'. unreg i h = Inr h' \<and> has h' = (has h)(i := False))"

text \<open>The categories that get a webhook: enabled ones whose identifier is free.\<close>

definition to_register :: "('h \<Rightarrow> string \<Rightarrow> bool) \<Rightarrow> pyval list \<Rightarrow> string \<Rightarrow> 'h \<Rightarrow> string list \<Rightarrow> string list" where
  "to_register has enabled id_suffix h categories =
     filter (\<lambda>c. PStr c \<in> set enabled \<and> \<not> has h (webhook_id_for_category c id_suffix)) categories"

lemma webhook_id_category [simp]:
  "webhook_id_for_category c id_suffix = webhook_id_for_category c' id_suffix \<longleftrightarrow> c = c'"
  by (simp add: webhook_id_for_category_def)

lemma update_new: "k \<notin> set (map fst d) \<Longrightarrow> AList.update k v d = d @ [(k, v)]"
  by (induction d) auto

lemma register_loop_spec:
  assumes "registry_ok has reg unreg" "distinct categories"
    and "set (map fst (wm_urls m)) \<inter> set categories = {}"
  shows "\<exists>m'. register_loop reg generate_url enabled id_suffix categories m = Inr m' \<and>
    (let new = to_register has enabled id_suffix (wm_hass m) categories;
         ids = map (\<lambda>c. webhook_id_for_category c id_suffix) new
     in wm_registered m' = wm_registered m @ ids \<and>
        wm_urls m' = wm_urls m @ map (\<lambda>c. (c, generate_url (webhook_id_for_category c id_suffix))) new \<and>
        has (wm_hass m') = (\<lambda>i. has (wm_hass m) i \<or> i \<in> set ids))"
  using assms(2,3)
proof (induction categories arbitrary: m)
  case (Cons c cs)
  let ?id = "webhook_id_for_category c id_suffix"
  have reg: "case reg i h of Inl e \<Rightarrow> e = ValueError \<and> has h i
      | Inr h' \<Rightarrow> \<not> has h i \<and> has h' = (has h)(i := True)" for i h
    using assms(1) by (simp add: registry_ok_def)
  have cs: "distinct cs" "c \<notin> set cs" using Cons.prems(1) by simp_all
  show ?case
  proof (cases "PStr c \<in> set enabled \<and> \<not> has (wm_hass m) ?id")
    case True
    with reg [where i = ?id and h = "wm_hass m"] obtain h where h: "reg ?id (wm_hass m) = Inr h"
      "has h = (has (wm_hass m))(?id := True)" by (auto split: sum.splits)
    let ?m = "m\<lparr>wm_hass := h, wm_registered := wm_registered m @ [?id],
                wm_urls := wm_urls m @ [(c, generate_url ?id)]\<rparr>"
    have "register_one reg generate_url id_suffix c m = Inr ?m"
      using h(1) Cons.prems(2) by (simp add: register_one_def update_new Let_def)
    moreover have "to_register has enabled id_suffix h cs = to_register has enabled id_suffix (wm_hass m) cs"
      unfolding to_register_def using cs(2) by (intro filter_cong) (auto simp: h(2))
    moreover have "set (map fst (wm_urls ?m)) \<inter> set cs = {}" using Cons.prems(2) cs(2) by auto
    ultimately show ?thesis
      using Cons.IH [OF cs(1), of ?m] True by (auto simp: to_register_def h(2) Let_def)
  next
    case False
    have "register_loop reg generate_url enabled id_suffix (c # cs) m
        = register_loop reg generate_url enabled id_suffix cs m"
      using False reg [where i = ?id and h = "wm_hass m"] by (auto simp: register_one_def Let_def split: sum.splits)
    then show ?thesis
      using Cons.IH [OF cs(1), of m] Cons.prems(2) False by (auto simp: to_register_def)
  qed
qed (simp add: to_register_def)

lemma unregister_has:
  assumes "registry_ok has reg unreg"
  shows "has (fold (\<lambda>webhook_id h. case unreg webhook_id h of Inr h' \<Rightarrow> h' | Inl _ \<Rightarrow> h) ids h)
    = (\<lambda>i. has h i \<and> i \<notin> set ids)"
proof (induction ids arbitrary: h)
  case (Cons i ids)
  obtain h' where "unreg i h = Inr h'" "has h' = (has h)(i := False)"
    using assms unfolding registry_ok_def by blast
  with Cons [of h'] show ?case by auto
qed simp

lemma register_all_spec:
  assumes "registry_ok has reg unreg" "wm_registered m = []"
  shows "\<exists>m'. register_all reg generate_url enabled id_suffix m = Inr m' \<and>
    map fst (wm_urls m') = to_register has enabled id_suffix (wm_hass m) ALL_CATEGORIES \<and>
    wm_registered m' = map (\<lambda>c. webhook_id_for_category c id_suffix) (map fst (wm_urls m')) \<and>
    has (wm_hass m') = (\<lambda>i. has (wm_hass m) i \<or> i \<in> set (wm_registered m')) \<and>
    has (wm_hass (unregister_all unreg m')) = has (wm_hass m) \<and> wm_registered (unregister_all unreg m') = []"
proof -
  have "distinct ALL_CATEGORIES" by (simp add: ALL_CATEGORIES_def category_defs)
  from register_loop_spec [OF assms(1) this, of "m\<lparr>wm_urls := []\<rparr>" generate_url enabled id_suffix]
  obtain m' where run: "register_all reg generate_url enabled id_suffix m = Inr m'"
    and m': "wm_registered m' = map (\<lambda>c. webhook_id_for_category c id_suffix)
        (to_register has enabled id_suffix (wm_hass m) ALL_CATEGORIES)"
      "map fst (wm_urls m') = to_register has enabled id_suffix (wm_hass m) ALL_CATEGORIES"
      "has (wm_hass m') = (\<lambda>i. has (wm_hass m) i \<or> i \<in> set (wm_registered m'))"
    by (auto simp: register_all_def assms(2) Let_def comp_def)
  have free: "\<not> has (wm_hass m) i" if "i \<in> set (wm_registered m')" for i
    using that by (auto simp: m'(1) to_register_def)
  have "has (wm_hass (unregister_all unreg m')) = has (wm_hass m)"
    using free by (auto simp: unregister_all_def unregister_has [OF assms(1)] m'(3) fun_eq_iff)
  with run m' show ?thesis by (intro exI [of _ m']) (simp add: unregister_all_def)
qed

text \<open>Registration never fails and is undone exactly: the entry gets a webhook and a URL for every
  enabled category whose identifier is free and for no other, an identifier someone else holds is
  left alone, and unregistering gives back the registry as it was, others' webhooks included.\<close>

theorem register_unregister_roundtrip:
  assumes "registry_ok has reg unreg" "wm_registered m = []"
  shows "\<exists>m'. register_all reg generate_url enabled id_suffix m = Inr m' \<and>
    map fst (wm_urls m') = to_register has enabled id_suffix (wm_hass m) ALL_CATEGORIES \<and>
    wm_registered m' = map (\<lambda>c. webhook_id_for_category c id_suffix) (map fst (wm_urls m')) \<and>
    has (wm_hass m') = (\<lambda>i. has (wm_hass m) i \<or> i \<in> set (wm_registered m')) \<and>
    has (wm_hass (unregister_all unreg m')) = has (wm_hass m) \<and> wm_registered (unregister_all unreg m') = []"
  using assms by (rule register_all_spec)

text \<open>A registry as a list of identifiers.\<close>

definition list_reg :: "string list registrar" where
  "list_reg i ids = (if i \<in> set ids then Inl ValueError else Inr (i # ids))"

definition list_unreg :: "string \<Rightarrow> string list \<Rightarrow> exn + string list" where
  "list_unreg i ids = Inr (removeAll i ids)"

lemma list_registry_ok: "registry_ok (\<lambda>ids i. i \<in> set ids) list_reg list_unreg"
  by (auto simp: registry_ok_def list_reg_def list_unreg_def fun_eq_iff)

lemma register_unregister_roundtrip_witness:
  "\<exists>m'. register_all list_reg id [PStr CATEGORY_POWER] ''ab'' \<lparr> wm_hass = [''x''], wm_registered = [], wm_urls = [] \<rparr>
     = Inr m' \<and> wm_registered m' = [''unifi_alerts_ab_power'']"
  using register_unregister_roundtrip [OF list_registry_ok, of "\<lparr> wm_hass = [''x''], wm_registered = [], wm_urls = [] \<rparr>"
      id "[PStr CATEGORY_POWER]" "''ab''"]
  by (auto simp: to_register_def ALL_CATEGORIES_def category_defs webhook_id_for_category_def WEBHOOK_ID_PREFIX_def)

end
