(* ===== verification/SetupProps.thy ===== *)
theory SetupProps
  imports Setup EntityProps WebhookProps
begin

section \<open>Properties of migration, setup and services\<close>

text \<open>
  Migrations end in the current version and keep what they should, the registry is pruned to
  exactly the entities that are created, a failed setup releases its webhooks, and the services act
  on exactly the loaded entries asked for.
\<close>

subsection \<open>Migration\<close>

definition legacy_keys :: "string list" where
  "legacy_keys = [''username'', ''password'', ''auth_method'']"

definition migrated_keys :: "string list" where
  "migrated_keys = [''is_unifi_os'', ''webhook_secret'', ''webhook_id_suffix''] @ legacy_keys"

lemma map_of_filter_key: "map_of (filter (\<lambda>(k, v). k \<noteq> x) d) k = (if k = x then None else map_of d k)"
  by (induction d) auto

lemma dget_lookup: "dget d k v = (case map_of d k of None \<Rightarrow> v | Some w \<Rightarrow> w)"
  by (simp add: dget_def)

definition has_setting :: "dict \<Rightarrow> string \<Rightarrow> bool" where
  "has_setting d k = truthy (dget d k PNone)"

lemma backfill_lookup:
  assumes "backfill secret id_suffix d = (d', b)"
  shows "map_of d' k =
     (if k = ''webhook_secret'' \<and> \<not> has_setting d k then Some (PStr secret)
      else if k = ''webhook_id_suffix'' \<and> \<not> has_setting d k then Some (PStr id_suffix)
      else map_of d k)"
    and "b \<longleftrightarrow> \<not> has_setting d ''webhook_id_suffix''"
  using assms
  by (auto simp: backfill_def Let_def has_setting_def dget_lookup dict.lookup_put split: if_splits)

lemma migrate_v3_lookup:
  "map_of (ce_data (migrate_v3 e)) k = (if k \<in> set legacy_keys then None else map_of (ce_data e) k)"
  by (auto simp: migrate_v3_def legacy_keys_def map_of_delete)

lemma migrate_v1_lookup:
  "map_of (ce_data (migrate_v1 e)) k = (if k = ''is_unifi_os'' then None else map_of (ce_data e) k)"
  by (simp add: migrate_v1_def map_of_filter_key)

text \<open>What a migration from version 1 or 2 makes of an entry.\<close>

lemma migrate_old:
  assumes "ce_version e \<in> {1, 2}" "migrate_entry secret id_suffix e = (e', issues)"
  shows "ce_version e' = 4 \<and> ce_id e' = ce_id e \<and> ce_options e' = ce_options e"
    and "map_of (ce_data e') k = (if k \<in> set legacy_keys then None else
      if k = ''webhook_secret'' \<and> \<not> has_setting (ce_data e) k then Some (PStr secret)
      else if k = ''webhook_id_suffix'' \<and> \<not> has_setting (ce_data e) k then Some (PStr id_suffix)
      else if k = ''is_unifi_os'' \<and> ce_version e = 1 then None else map_of (ce_data e) k)"
    and "issues = (if has_setting (ce_data e) ''webhook_id_suffix'' then []
      else [IssueCreated (ISSUE_ID_WEBHOOK_URLS_CHANGED @ ''_'' @ ce_id e)])"
proof -
  define e2 where "e2 = (if ce_version e = 1 then migrate_v1 e else e)"
  obtain d b where bf: "backfill secret id_suffix (ce_data e2) = (d, b)" by (cases "backfill secret id_suffix (ce_data e2)")
  have v2: "ce_version e2 = 2" "ce_id e2 = ce_id e" "ce_options e2 = ce_options e"
    using assms(1) by (auto simp: e2_def migrate_v1_def)
  have l2: "map_of (ce_data e2) k = (if k = ''is_unifi_os'' \<and> ce_version e = 1 then None else map_of (ce_data e) k)" for k
    by (simp add: e2_def migrate_v1_lookup)
  then have s2: "has_setting (ce_data e2) k = has_setting (ce_data e) k" if "k \<noteq> ''is_unifi_os''" for k
    using that by (simp add: has_setting_def dget_lookup)
  have e': "e' = migrate_v3 (e2\<lparr>ce_data := d, ce_version := 3\<rparr>)"
    "issues = (if b then [IssueCreated (ISSUE_ID_WEBHOOK_URLS_CHANGED @ ''_'' @ ce_id e)] else [])"
    using assms v2 bf by (auto simp: migrate_entry_def Let_def migrate_v2_def simp flip: e2_def)
  show "ce_version e' = 4 \<and> ce_id e' = ce_id e \<and> ce_options e' = ce_options e"
    by (simp add: e' migrate_v3_def v2)
  show "map_of (ce_data e') k = (if k \<in> set legacy_keys then None else
      if k = ''webhook_secret'' \<and> \<not> has_setting (ce_data e) k then Some (PStr secret)
      else if k = ''webhook_id_suffix'' \<and> \<not> has_setting (ce_data e) k then Some (PStr id_suffix)
      else if k = ''is_unifi_os'' \<and> ce_version e = 1 then None else map_of (ce_data e) k)"
    unfolding e'(1) migrate_v3_lookup using backfill_lookup(1) [OF bf, of k] s2 [of k] l2 [of k]
    by (cases "k = ''webhook_secret''"; cases "k = ''webhook_id_suffix''") simp_all
  show "issues = (if has_setting (ce_data e) ''webhook_id_suffix'' then []
      else [IssueCreated (ISSUE_ID_WEBHOOK_URLS_CHANGED @ ''_'' @ ce_id e)])"
    using e'(2) backfill_lookup(2) [OF bf] s2 [of "''webhook_id_suffix''"] by simp
qed

text \<open>C18: migrating an entry of any earlier version ends in version 4 in one go, keeps its identity and
  options, leaves no username, password or \<^verbatim>\<open>auth_method\<close> behind, makes sure that an entry from
  version 1 or 2 has a webhook secret and suffix, keeps every other setting and every secret or suffix
  that was there, and raises the issue about changed URLs exactly if the suffix was filled in.\<close>

theorem migration_reaches_v4:
  assumes "ce_version e \<in> {1, 2, 3}" "secret \<noteq> []" "id_suffix \<noteq> []"
    and "migrate_entry secret id_suffix e = (e', issues)"
  shows "ce_version e' = 4 \<and> ce_id e' = ce_id e \<and> ce_options e' = ce_options e \<and>
    list_all (\<lambda>k. map_of (ce_data e') k = None) legacy_keys \<and>
    (ce_version e < 3 \<longrightarrow> has_setting (ce_data e') ''webhook_secret'' \<and> has_setting (ce_data e') ''webhook_id_suffix'') \<and>
    (\<forall>k. k \<notin> set migrated_keys \<or> (has_setting (ce_data e) k \<and> k \<in> {''webhook_secret'', ''webhook_id_suffix''})
       \<longrightarrow> map_of (ce_data e') k = map_of (ce_data e) k) \<and>
    issues = (if ce_version e < 3 \<and> \<not> has_setting (ce_data e) ''webhook_id_suffix''
       then [IssueCreated (ISSUE_ID_WEBHOOK_URLS_CHANGED @ ''_'' @ ce_id e)] else [])"
proof (cases "ce_version e = 3")
  case True
  with assms(4) have e': "e' = migrate_v3 e" "issues = []" by (simp_all add: migrate_entry_def)
  with True show ?thesis
    using migrate_v3_lookup [of e]
    by (auto simp: list_all_iff migrated_keys_def legacy_keys_def) (simp_all add: migrate_v3_def)
next
  case False
  with assms(1) have "ce_version e \<in> {1, 2}" by auto
  note new = migrate_old [OF this assms(4)]
  have special: "k \<notin> set legacy_keys" "k \<noteq> ''is_unifi_os''" if "k \<in> {''webhook_secret'', ''webhook_id_suffix''}" for k
    using that by (auto simp: legacy_keys_def)
  have kept: "map_of (ce_data e') k = map_of (ce_data e) k"
    if "k \<notin> set migrated_keys \<or> (has_setting (ce_data e) k \<and> k \<in> {''webhook_secret'', ''webhook_id_suffix''})" for k
  proof (cases "k \<in> set migrated_keys")
    case True
    with that special [of k] new(2) [of k] show ?thesis by simp
  next
    case False
    then have "k \<notin> set legacy_keys" "k \<notin> {''webhook_secret'', ''webhook_id_suffix'', ''is_unifi_os''}"
      by (simp_all add: migrated_keys_def legacy_keys_def)
    with new(2) [of k] show ?thesis by simp
  qed
  have set: "has_setting (ce_data e') k" if "k \<in> {''webhook_secret'', ''webhook_id_suffix''}" for k
  proof (cases "has_setting (ce_data e) k")
    case True
    with that kept [of k] show ?thesis by (simp add: has_setting_def dget_lookup)
  next
    case False
    have "map_of (ce_data e') k = Some (PStr (if k = ''webhook_secret'' then secret else id_suffix))"
      using that special(1) [OF that] new(2) [of k] False
      by (cases "k = ''webhook_secret''") simp_all
    with assms(2,3) show ?thesis by (simp add: has_setting_def dget_lookup)
  qed
  from new(2) have "list_all (\<lambda>k. map_of (ce_data e') k = None) legacy_keys" by (simp add: list_all_iff)
  with new(1,3) set kept assms(1) False show ?thesis by auto
qed

lemma migration_reaches_v4_witness:
  "ce_version (fst (migrate_entry ''s'' ''0a'' \<lparr> ce_id = ''e'', ce_version = 1,
     ce_data = [(''is_unifi_os'', PBool True), (''username'', PStr ''u'')], ce_options = [] \<rparr>)) = 4"
proof -
  let ?e = "\<lparr> ce_id = ''e'', ce_version = 1,
     ce_data = [(''is_unifi_os'', PBool True), (''username'', PStr ''u'')], ce_options = [] \<rparr>"
  obtain e' issues where "migrate_entry ''s'' ''0a'' ?e = (e', issues)"
    by (cases "migrate_entry ''s'' ''0a'' ?e")
  with migration_reaches_v4 [OF _ _ _ this] show ?thesis by simp
qed

subsection \<open>Stale entities\<close>

definition created :: "coord \<Rightarrow> entity list" where
  "created s = binary_sensor_setup s @ sensor_setup s @ event_setup s @ button_setup s"

fun entity_category :: "entity \<Rightarrow> string option" where
  "entity_category (UniFiCategoryBinarySensor c) = Some c"
| "entity_category (UniFiCategoryMessageSensor c) = Some c"
| "entity_category (UniFiCategoryCountSensor c) = Some c"
| "entity_category (UniFiWebhookHealthSensor c) = Some c"
| "entity_category (UniFiAlertEventEntity c) = Some c"
| "entity_category (UniFiClearCategoryButton c) = Some c"
| "entity_category _ = None"

definition known_entity :: "entity \<Rightarrow> bool" where
  "known_entity e = (case entity_category e of None \<Rightarrow> True | Some c \<Rightarrow> c \<in> set ALL_CATEGORIES)"

lemma created_iff:
  "known_entity e \<Longrightarrow> e \<in> set (created s) \<longleftrightarrow>
     (case entity_category e of None \<Rightarrow> True | Some c \<Rightarrow> category_available s c)"
  by (cases e) (auto simp: created_def binary_sensor_setup_def sensor_setup_def event_setup_def
      button_setup_def known_entity_def)

lemma startswith_cancel [simp]: "startswith (x @ s) (x @ p) = startswith s p"
  by (simp add: startswith_def)

lemma startswith_Cons [simp]: "startswith (a # s) (b # p) \<longleftrightarrow> a = b \<and> startswith s p"
  by (auto simp: startswith_def)

definition id_tails :: "string list" where
  "id_tails = [''binary'', ''message'', ''count'', ''webhook_health'', ''event'', ''clear'']"

lemma category_ids_prefix:
  "list_all (\<lambda>c. list_all (\<lambda>d. list_all (\<lambda>t. startswith (c @ ''_'' @ t) (d @ ''_'') = (c = d)) id_tails)
     ALL_CATEGORIES) ALL_CATEGORIES"
  by code_simp

lemma hub_ids_prefix:
  "list_all (\<lambda>d. \<not> startswith ''rollup_binary'' (d @ ''_'') \<and> \<not> startswith ''rollup_count'' (d @ ''_'')
     \<and> \<not> startswith ''clear_all'' (d @ ''_'')) ALL_CATEGORIES"
  by code_simp

lemma category_id_prefix:
  assumes "c \<in> set ALL_CATEGORIES" "d \<in> set ALL_CATEGORIES" "t \<in> set id_tails"
  shows "startswith (c @ CHR ''_'' # t) (d @ ''_'') \<longleftrightarrow> c = d"
  using category_ids_prefix assms by (simp add: list_all_iff)

lemma unique_id_prefix:
  assumes "known_entity e" "d \<in> set ALL_CATEGORIES"
  shows "startswith (unique_id i e) (i @ ''_'' @ d @ ''_'') \<longleftrightarrow> entity_category e = Some d"
  using assms hub_ids_prefix category_id_prefix [OF _ assms(2)]
  by (cases e) (auto simp: known_entity_def list_all_iff id_tails_def)

text \<open>Pruning keeps exactly what setup creates: of any entities this entry may have registered in
  the past, those removed are the ones whose category is not enabled now; the rollup entities, the
  clear-all button and every entity of an enabled category stay.\<close>

theorem prune_keeps_created:
  assumes "list_all known_entity entities"
  shows "prune_disabled i s (map (\<lambda>e. \<lparr> re_unique_id = unique_id i e, re_entity_id = name e \<rparr>) entities)
    = map (\<lambda>e. \<lparr> re_unique_id = unique_id i e, re_entity_id = name e \<rparr>) (filter (\<lambda>e. e \<in> set (created s)) entities)"
proof -
  have one: "list_ex (startswith (unique_id i e)) (disabled_prefixes i s) \<longleftrightarrow> e \<notin> set (created s)"
    if "known_entity e" for e
  proof -
    have "list_ex (startswith (unique_id i e)) (disabled_prefixes i s)
        \<longleftrightarrow> (\<exists>d \<in> set ALL_CATEGORIES. \<not> category_available s d \<and> startswith (unique_id i e) (i @ ''_'' @ d @ ''_''))"
      by (auto simp: disabled_prefixes_def list_ex_iff)
    also have "\<dots> \<longleftrightarrow> (\<exists>d \<in> set ALL_CATEGORIES. \<not> category_available s d \<and> entity_category e = Some d)"
      using unique_id_prefix [OF that] by blast
    also have "\<dots> \<longleftrightarrow> e \<notin> set (created s)"
      using that unfolding created_iff [OF that] by (auto simp: known_entity_def split: option.splits)
    finally show ?thesis .
  qed
  have "filter (\<lambda>e. \<not> list_ex (startswith (unique_id i e)) (disabled_prefixes i s)) entities
      = filter (\<lambda>e. e \<in> set (created s)) entities"
    using assms one by (intro filter_cong) (auto simp: list_all_iff)
  then show ?thesis by (simp add: prune_disabled_def filter_map comp_def)
qed

lemma prune_keeps_created_witness:
  "prune_disabled ''e'' (demo\<lparr>co_states := []\<rparr>) [\<lparr> re_unique_id = ''e_power_event'', re_entity_id = ''x'' \<rparr>] = []"
proof -
  have "list_all known_entity [UniFiAlertEventEntity CATEGORY_POWER]"
    by (simp add: known_entity_def ALL_CATEGORIES_def)
  from prune_keeps_created [OF this, of "''e''" "demo\<lparr>co_states := []\<rparr>" "\<lambda>_. ''x''"] show ?thesis
    by (simp add: CATEGORY_POWER_def created_def binary_sensor_setup_def sensor_setup_def event_setup_def
        button_setup_def category_available_def get_category_state_def)
qed

subsection \<open>Setup\<close>

lemma setup_registers:
  assumes "registry_ok has (ev_reg env) (ev_unreg env)"
  obtains m where "register_all (ev_reg env) (ev_url env) (enabled_of (merged_config entry))
        (id_suffix_of (merged_config entry)) \<lparr> wm_hass = hm_webhooks home, wm_registered = [], wm_urls = [] \<rparr> = Inr m"
    and "map fst (wm_urls m) = to_register has (enabled_of (merged_config entry))
        (id_suffix_of (merged_config entry)) (hm_webhooks home) ALL_CATEGORIES"
    and "has (wm_hass (unregister_all (ev_unreg env) m)) = has (hm_webhooks home)"
  using register_all_spec [OF assms, of "\<lparr> wm_hass = hm_webhooks home, wm_registered = [], wm_urls = [] \<rparr>"
      "ev_url env" "enabled_of (merged_config entry)" "id_suffix_of (merged_config entry)"]
  by auto

lemma setup_platforms_cases:
  assumes "registry_ok has (ev_reg env) (ev_unreg env)" "setup_platforms env entry s home = (r, s', home')"
  shows "case ev_forward env of
      Some e \<Rightarrow> r = Inl e \<and> s' = shutdown s \<and> has (hm_webhooks home') = has (hm_webhooks home)
        \<and> hm_services home' = hm_services home
    | None \<Rightarrow> s' = s \<and> hm_services home' = register_services (hm_services home)
        \<and> hm_registry home' = prune_disabled (ce_id entry) s (hm_registry home)
        \<and> (\<exists>m. r = Inr m \<and> hm_webhooks home' = wm_hass m \<and> map fst (wm_urls m) = to_register has
            (enabled_of (merged_config entry)) (id_suffix_of (merged_config entry)) (hm_webhooks home) ALL_CATEGORIES)"
proof -
  obtain m where m: "register_all (ev_reg env) (ev_url env) (enabled_of (merged_config entry))
        (id_suffix_of (merged_config entry)) \<lparr> wm_hass = hm_webhooks home, wm_registered = [], wm_urls = [] \<rparr> = Inr m"
    "map fst (wm_urls m) = to_register has (enabled_of (merged_config entry))
        (id_suffix_of (merged_config entry)) (hm_webhooks home) ALL_CATEGORIES"
    "has (wm_hass (unregister_all (ev_unreg env) m)) = has (hm_webhooks home)"
    using setup_registers [OF assms(1)] by blast
  show ?thesis
  proof (cases "ev_forward env")
    case None
    with assms(2) m(1) have "r = Inr m" "s' = s" "home' = home\<lparr>hm_webhooks := wm_hass m,
        hm_registry := prune_disabled (ce_id entry) s (hm_registry home),
        hm_services := register_services (hm_services home)\<rparr>"
      by (auto simp: setup_platforms_def Let_def)
    with None m(2) show ?thesis by simp
  next
    case (Some e)
    with assms(2) m(1) have "r = Inl e" "s' = shutdown s" "home' = home\<lparr>hm_webhooks := wm_hass m,
        hm_registry := prune_disabled (ce_id entry) s (hm_registry home),
        hm_webhooks := wm_hass (unregister_all (ev_unreg env) m)\<rparr>"
      by (auto simp: setup_platforms_def Let_def)
    with Some m(3) show ?thesis by simp
  qed
qed

text \<open>The timers of a coordinator that still run.\<close>

definition running_timers :: "coord \<Rightarrow> nat" where
  "running_timers s = length (filter (\<lambda>task. case task of Sleeping cat due \<Rightarrow> True | _ \<Rightarrow> False) (co_tasks s))"

lemma coord_ok_first_refresh:
  assumes "coord_ok s"
  shows "coord_ok (snd (first_refresh env s))"
proof -
  have "keepsS coord_ok (update_data net t0 t1 t2 tick)" for net t0 t1 t2 tick
    using coord_ok_update_data by (simp add: keepsS_def)
  then have "keepsS coord_ok (first_refresh env)"
    unfolding first_refresh_def by (auto intro!: keepsS_try split: prod.split)
  then show ?thesis using assms by (rule keepsS_D)
qed

lemma setup_coordinator_ok:
  assumes "setup_coordinator env entry = Some (r, Some s)" "aware_data (ev_stored env)"
  shows "coord_ok s"
proof -
  have step: "coord_ok (snd (bindS (restore_watermarks now data) (\<lambda>_. first_refresh env) x))"
    if "new_coordinator c config i = Some x" "aware_data data" for now data c config i x
    using coord_ok_restore [OF new_coordinator_ok [OF that(1)] that(2), of now] coord_ok_first_refresh
    by (auto simp: bindS_def split: prod.split sum.split)
  from assms show ?thesis
    by (auto simp: setup_coordinator_def split: pyval.splits prod.splits sum.splits option.splits
        dest: step [where now = "ev_now env"])
qed

lemma shutdown_no_timer:
  assumes "coord_ok s"
  shows "running_timers (shutdown s) = 0"
  using shutdown_idle [OF assms]
  by (auto simp: running_timers_def filter_empty_conv list_all_iff split: task.splits)

text \<open>C20: however setup fails, the webhook registry and the services are as they were before, so a retry
  can register every webhook again; when the platforms fail, no timer of the discarded coordinator
  keeps running.\<close>

theorem failed_setup_releases_webhooks:
  assumes "registry_ok has (ev_reg env) (ev_unreg env)" "aware_data (ev_stored env)"
    and "setup_entry env entry home = Some (Inl e, left, home')"
  shows "has (hm_webhooks home') = has (hm_webhooks home) \<and> hm_services home' = hm_services home \<and>
    (case (setup_coordinator env entry, left) of
       (Some (Inr _, _), Some s) \<Rightarrow> running_timers s = 0 | _ \<Rightarrow> True)"
proof -
  obtain r so where c: "setup_coordinator env entry = Some (r, so)"
    using assms(3) by (auto simp: setup_entry_def split: option.splits)
  show ?thesis
  proof (cases r)
    case (Inl err)
    with c assms(3) show ?thesis by (simp add: setup_entry_def)
  next
    case (Inr u)
    with c assms(3) obtain s where s: "so = Some s" by (cases so) (simp_all add: setup_entry_def)
    obtain r' s' home'' where p: "setup_platforms env entry s home = (r', s', home'')"
      by (cases "setup_platforms env entry s home") auto
    with c Inr s assms(3) have e: "r' = Inl e" "left = Some s'" "home'' = home'"
      by (simp_all add: setup_entry_def)
    have "coord_ok s" using setup_coordinator_ok [OF c [unfolded s] assms(2)] .
    with setup_platforms_cases [OF assms(1) p] e c Inr show ?thesis
      by (simp add: shutdown_no_timer split: option.splits)
  qed
qed

text \<open>A controller that answers everything, with an empty list, and a setup against it.\<close>

definition empty_net :: net where
  "empty_net h rq = Response \<lparr> rs_status = 200, rs_json_type = True,
     rs_body = JsonBody (PDict [(''meta'', PDict [(''rc'', PStr ''ok'')]), (''data'', PList [])]) \<rparr>"

definition demo_env :: "net \<Rightarrow> exn option \<Rightarrow> string list env" where
  "demo_env net forward = \<lparr> ev_net = net, ev_now = utc0, ev_times = (utc0, utc0, utc0), ev_tick = 0,
     ev_stored = PNone, ev_reg = list_reg, ev_unreg = list_unreg, ev_url = id,
     ev_refresh_error = (\<lambda>e. ConfigEntryNotReady []), ev_forward = forward \<rparr>"

definition demo_entry :: config_entry where
  "demo_entry = \<lparr> ce_id = ''e'', ce_version = 4,
     ce_data = [(CONF_CONTROLLER_URL, PStr ''https://u''), (CONF_API_KEY, PStr ''k'')], ce_options = [] \<rparr>"

definition empty_home :: "string list home" where
  "empty_home = \<lparr> hm_webhooks = [], hm_services = [], hm_registry = [] \<rparr>"

lemma demo_env_simps [simp]:
  "ev_reg (demo_env net f) = list_reg" "ev_unreg (demo_env net f) = list_unreg" "aware_data (ev_stored (demo_env net f))"
  by (simp_all add: demo_env_def aware_data_def)

lemma failed_setup_releases_webhooks_witness:
  "\<exists>e left home. setup_entry (demo_env empty_net (Some ValueError)) demo_entry empty_home = Some (Inl e, left, home)
     \<and> hm_webhooks home = []"
proof -
  have "case setup_entry (demo_env empty_net (Some ValueError)) demo_entry empty_home of
      Some (r, _, _) \<Rightarrow> isl r | None \<Rightarrow> False" by code_simp
  then obtain e left home where run: "setup_entry (demo_env empty_net (Some ValueError)) demo_entry empty_home
      = Some (Inl e, left, home)" by (auto simp: isl_def split: option.splits prod.splits)
  from failed_setup_releases_webhooks [where has = "\<lambda>ids i. i \<in> set ids", OF _ _ run] list_registry_ok run
  show ?thesis by (auto simp: empty_home_def fun_eq_iff)
qed

text \<open>C21: a successful setup hands over a coordinator in its invariant, with a webhook for exactly the
  enabled categories whose identifier was free, a registry pruned to the enabled categories, and both
  services registered.\<close>

theorem successful_setup:
  assumes "registry_ok has (ev_reg env) (ev_unreg env)" "aware_data (ev_stored env)"
    and "setup_entry env entry home = Some (Inr m, left, home')"
  shows "\<exists>s. left = Some s \<and> coord_ok s \<and>
    map fst (wm_urls m) = to_register has (enabled_of (merged_config entry)) (id_suffix_of (merged_config entry))
        (hm_webhooks home) ALL_CATEGORIES \<and>
    hm_registry home' = prune_disabled (ce_id entry) s (hm_registry home) \<and>
    SERVICE_CLEAR_CATEGORY \<in> set (hm_services home') \<and> SERVICE_CLEAR_ALL \<in> set (hm_services home')"
proof -
  obtain s where c: "setup_coordinator env entry = Some (Inr (), Some s)"
    using assms(3) by (auto simp: setup_entry_def split: option.splits sum.splits)
  obtain r' s' home'' where p: "setup_platforms env entry s home = (r', s', home'')"
    by (cases "setup_platforms env entry s home") auto
  with c assms(3) have e: "r' = Inr m" "left = Some s'" "home'' = home'"
    by (simp_all add: setup_entry_def)
  from setup_coordinator_ok [OF c assms(2)] setup_platforms_cases [OF assms(1) p] e show ?thesis
    by (auto simp: register_services_def Let_def split: option.splits)
qed

lemma successful_setup_witness:
  "\<exists>m s home. setup_entry (demo_env empty_net None) demo_entry empty_home = Some (Inr m, Some s, home)
     \<and> map fst (wm_urls m) = ALL_CATEGORIES"
proof -
  have "case setup_entry (demo_env empty_net None) demo_entry empty_home of
      Some (r, _, _) \<Rightarrow> \<not> isl r | None \<Rightarrow> False" by code_simp
  then obtain m left home where run: "setup_entry (demo_env empty_net None) demo_entry empty_home
      = Some (Inr m, left, home)"
    by (auto simp: isl_def split: option.splits prod.splits) (metis sum.exhaust_sel isl_def)
  have e: "enabled_of (merged_config demo_entry) = map PStr ALL_CATEGORIES" by code_simp
  have "to_register (\<lambda>ids i. i \<in> set ids) (map PStr ALL_CATEGORIES) x [] ALL_CATEGORIES = ALL_CATEGORIES" for x
    by (simp add: to_register_def filter_id_conv)
  with successful_setup [where has = "\<lambda>ids i. i \<in> set ids", OF _ _ run] list_registry_ok run e
  show ?thesis by (auto simp: empty_home_def)
qed

text \<open>A controller with two legacy alarms, the second with a time without offset, and a store with a
  watermark for the category of the second.\<close>

definition mixed_net :: net where
  "mixed_net h rq = Response (if rq_method rq = POST
     then \<lparr> rs_status = 404, rs_json_type = True, rs_body = JsonBody PNone \<rparr>
     else \<lparr> rs_status = 200, rs_json_type = True, rs_body = JsonBody (PDict [(''meta'', PDict [(''rc'', PStr ''ok'')]),
        (''data'', PList [PDict [(''key'', PStr ''EVT_AP_Disconnected''), (''timestamp'', PInt 1709200000000)],
          PDict [(''key'', PStr ''EVT_IPS_IpsAlert''), (''datetime'', PStr ''2024-02-29T12:00:00'')]])]) \<rparr>)"

definition stored_watermark :: pyval where
  "stored_watermark = PDict [(CATEGORY_SECURITY_THREAT,
     PDict [(''last_cleared_at'', PStr ''2024-01-01T00:00:00+00:00'')])]"

text \<open>When the first poll of a setup raises after it has found an alert in an earlier category, setup
  fails but, unlike after a platform failure, the discarded coordinator keeps its running auto-clear
  timer: setup does not shut it down.\<close>

theorem failed_refresh_leaks_timer:
  "case setup_entry ((demo_env mixed_net None)\<lparr>ev_stored := stored_watermark\<rparr>) demo_entry empty_home of
     Some (r, Some s, _) \<Rightarrow> r = Inl (ConfigEntryNotReady []) \<and> running_timers s = 1
   | _ \<Rightarrow> False"
  by code_simp

subsection \<open>Services\<close>

definition targeted :: "string option \<Rightarrow> 'a known_entry_scheme \<Rightarrow> bool" where
  "targeted target e \<longleftrightarrow> ke_domain e = DOMAIN \<and> ke_loaded e \<and> (target = None \<or> target = Some (ke_id e))"

lemma filter_only:
  assumes "distinct (map f xs)" "x \<in> set xs" "\<And>y. y \<in> set xs \<Longrightarrow> P y \<longleftrightarrow> f y = f x \<and> Q"
  shows "filter P xs = (if Q then [x] else [])"
  using assms
proof (induction xs)
  case (Cons y ys)
  show ?case
  proof (cases "y = x")
    case True
    with Cons.prems have "\<And>z. z \<in> set ys \<Longrightarrow> \<not> P z" by (auto simp: image_iff)
    with True Cons.prems(3) [of x] show ?thesis by (simp add: filter_False)
  next
    case False
    with Cons.prems have "x \<in> set ys" "f y \<noteq> f x" by (auto simp: image_iff)
    with Cons show ?thesis by simp
  qed
qed simp

lemma find_entry_iff:
  "distinct (map ke_id entries) \<Longrightarrow> find_entry i entries = Some e \<longleftrightarrow> e \<in> set entries \<and> ke_id e = i"
  unfolding find_entry_def by (induction entries) (auto simp: image_iff)

lemma find_entry_None: "find_entry i entries = None \<longleftrightarrow> i \<notin> ke_id ` set entries"
  by (auto simp: find_entry_def find_None_iff)

text \<open>A call acts on the loaded entries of this domain it is asked for, in their order.\<close>

lemma get_coordinators_spec:
  fixes entries :: "'a known_entry_scheme list"
  assumes "distinct (map ke_id entries)"
  shows "case get_coordinators entries target of
      Inl err \<Rightarrow> target \<noteq> None \<and> filter (targeted target) entries = []
    | Inr ids \<Rightarrow> ids = map ke_id (filter (targeted target) entries)"
proof (cases target)
  case None
  have "targeted None = (\<lambda>e :: 'a known_entry_scheme. ke_domain e = DOMAIN \<and> ke_loaded e)"
    by (simp add: fun_eq_iff targeted_def)
  with None show ?thesis by (simp add: get_coordinators_def)
next
  case (Some i)
  show ?thesis
  proof (cases "find_entry i entries")
    case None
    then have "filter (targeted target) entries = []"
      by (auto simp: targeted_def Some find_entry_None filter_empty_conv)
    with None Some show ?thesis by (simp add: get_coordinators_def)
  next
    case found: (Some e)
    then have e: "e \<in> set entries" "ke_id e = i" by (simp_all add: find_entry_iff [OF assms])
    have same: "y = e" if "y \<in> set entries" "ke_id y = i" for y
      using that e assms by (auto simp: distinct_map dest: inj_onD)
    have "filter (targeted target) entries = (if ke_domain e = DOMAIN \<and> ke_loaded e then [e] else [])"
      using same by (intro filter_only [OF assms e(1)]) (auto simp: targeted_def Some e(2))
    with Some found e(2) show ?thesis by (auto simp: get_coordinators_def)
  qed
qed

text \<open>The entries a call gets to: up to the first whose save fails.\<close>

fun reached :: "(string \<Rightarrow> exn option) \<Rightarrow> string list \<Rightarrow> string list" where
  "reached saves [] = []"
| "reached saves (i # ids) = i # (if saves i = None then reached saves ids else [])"

fun first_failure :: "(string \<Rightarrow> exn option) \<Rightarrow> string list \<Rightarrow> exn + unit" where
  "first_failure saves [] = Inr ()"
| "first_failure saves (i # ids) = (case saves i of None \<Rightarrow> first_failure saves ids | Some e \<Rightarrow> Inl e)"

lemma reached_subset: "set (reached saves ids) \<subseteq> set ids"
  by (induction ids) auto

lemma clear_each_runs:
  assumes "distinct (map ke_id entries)" "distinct ids" "set ids \<subseteq> ke_id ` set entries"
    and "\<And>e. e \<in> set entries \<Longrightarrow> ke_id e \<in> set ids \<Longrightarrow>
      fst (m (ke_id e) (ke_coord e)) = (case saves (ke_id e) of None \<Rightarrow> Inr () | Some err \<Rightarrow> Inl err)"
  shows "forS ids (\<lambda>i. on_running i (m i)) entries = (first_failure saves ids,
    map (\<lambda>e. if ke_id e \<in> set (reached saves ids) then e\<lparr>ke_coord := snd (m (ke_id e) (ke_coord e))\<rparr> else e) entries)"
  using assms
proof (induction ids arbitrary: entries)
  case (Cons i ids)
  obtain e where e: "e \<in> set entries" "ke_id e = i" using Cons.prems(3) by auto
  have same: "x = e" if "x \<in> set entries" "ke_id x = i" for x
    using that e Cons.prems(1) by (auto simp: distinct_map dest: inj_onD)
  have f: "find_entry i entries = Some e" using e by (simp add: find_entry_iff [OF Cons.prems(1)])
  obtain r s where m: "m i (ke_coord e) = (r, s)" by (cases "m i (ke_coord e)")
  let ?up = "\<lambda>x. x\<lparr>ke_coord := snd (m (ke_id x) (ke_coord x))\<rparr>"
  let ?es = "map (\<lambda>x. if ke_id x = i then ?up x else x) entries"
  have upd: "map (\<lambda>x. if ke_id x = i then x\<lparr>ke_coord := s\<rparr> else x) entries = ?es"
    using same m by (intro map_cong) (auto simp: e(2))
  have r: "r = (case saves i of None \<Rightarrow> Inr () | Some err \<Rightarrow> Inl err)"
    using Cons.prems(4) [OF e(1)] m by (simp add: e(2))
  have step: "on_running i (m i) entries = (r, ?es)" by (simp add: on_running_def f m upd)
  have ids: "map ke_id ?es = map ke_id entries" by simp
  from arg_cong [OF this, of set] have "ke_id ` set ?es = ke_id ` set entries" by (simp only: set_map)
  note ids = ids this
  show ?case
  proof (cases "saves i")
    case None
    have "forS ids (\<lambda>i. on_running i (m i)) ?es = (first_failure saves ids,
      map (\<lambda>e. if ke_id e \<in> set (reached saves ids) then ?up e else e) ?es)"
    proof (rule Cons.IH)
      show "distinct (map ke_id ?es)" "set ids \<subseteq> ke_id ` set ?es"
        using Cons.prems(1,3) by (simp_all only: ids) simp
      show "distinct ids" using Cons.prems(2) by simp
      show "fst (m (ke_id x) (ke_coord x)) = (case saves (ke_id x) of None \<Rightarrow> Inr () | Some err \<Rightarrow> Inl err)"
        if "x \<in> set ?es" "ke_id x \<in> set ids" for x
        using that Cons.prems(2,4) by (auto split: if_splits)
    qed
    moreover have "i \<notin> set (reached saves ids)" using Cons.prems(2) reached_subset [of saves ids] by auto
    ultimately show ?thesis
      using None step r by (auto intro!: map_cong)
  next
    case (Some err)
    with step r show ?thesis by simp
  qed
qed simp

lemma await_clear_result:
  assumes "co_tasks s' = ts @ [Saving]" "length ts = length (co_tasks s)" "clear s = s'"
  shows "fst (await_clear clear failure s) = (case failure of None \<Rightarrow> Inr () | Some e \<Rightarrow> Inl e)"
  using assms by (simp add: await_clear_def Let_def split: option.split)

lemma clear_category_tasks:
  "map_of (co_states s) category \<noteq> None \<Longrightarrow>
     \<exists>ts. co_tasks (clear_category now category s) = ts @ [Saving] \<and> length ts = length (co_tasks s)"
  by (auto simp: clear_category_def clear_one_def start_save_def Let_def emit_def)

text \<open>C39: a clear service acts on exactly the loaded entries of this integration it is asked for: with an
  entry identifier that names none it raises and touches nothing, without one it acts on all of them. It
  clears their coordinators in order and waits for the save of each: when a save fails, the caller gets
  that exception, the coordinator whose save failed is cleared nonetheless, and the coordinators after it
  are not cleared; every other entry is left as it was.\<close>

theorem clear_service_targets:
  assumes "distinct (map ke_id entries)" "category \<in> set ALL_CATEGORIES"
    and "list_all (\<lambda>e. coord_ok (ke_coord e)) entries"
  shows "handle_clear_category id on_running saves now category target entries =
     (case get_coordinators entries target of
        Inl err \<Rightarrow> (Inl err, entries)
      | Inr ids \<Rightarrow> (first_failure saves ids, map (\<lambda>e. if ke_id e \<in> set (reached saves ids)
          then e\<lparr>ke_coord := snd (await_clear (clear_category now category) (saves (ke_id e)) (ke_coord e))\<rparr> else e) entries)) \<and>
    (case get_coordinators entries target of
        Inl err \<Rightarrow> target \<noteq> None \<and> filter (targeted target) entries = []
      | Inr ids \<Rightarrow> ids = map ke_id (filter (targeted target) entries))"
proof -
  note spec = get_coordinators_spec [OF assms(1), of target]
  have "forS ids (\<lambda>i. on_running i (await_clear (clear_category now category) (saves i))) entries =
      (first_failure saves ids, map (\<lambda>e. if ke_id e \<in> set (reached saves ids)
          then e\<lparr>ke_coord := snd (await_clear (clear_category now category) (saves (ke_id e)) (ke_coord e))\<rparr> else e) entries)"
    if "get_coordinators entries target = Inr ids" for ids
  proof (rule clear_each_runs [OF assms(1)])
    have ids: "ids = map ke_id (filter (targeted target) entries)" using spec that by simp
    then show "distinct ids" using assms(1) by (simp add: distinct_map_filter)
    show "set ids \<subseteq> ke_id ` set entries" using ids by auto
    fix e assume "e \<in> set entries"
    then have "states_ok (ke_coord e)" using assms(3) coord_states by (auto simp: list_all_iff)
    with assms(2) have "map_of (co_states (ke_coord e)) category \<noteq> None"
      by (auto simp: states_ok_def map_of_eq_None_iff simp flip: set_map)
    from clear_category_tasks [OF this] show
      "fst (await_clear (clear_category now category) (saves (ke_id e)) (ke_coord e))
        = (case saves (ke_id e) of None \<Rightarrow> Inr () | Some err \<Rightarrow> Inl err)"
      using await_clear_result by blast
  qed
  with spec show ?thesis
    by (simp add: handle_clear_category_def clear_each_def bindS_def getS_def liftS_def split: sum.split)
qed

lemma clear_service_targets_witness:
  "\<exists>es. handle_clear_category id on_running (\<lambda>i. if i = ''a'' then Some StoreError else None) utc0 CATEGORY_POWER None
     [\<lparr> ke_id = ''a'', ke_domain = DOMAIN, ke_loaded = True, ke_coord = alarmed \<rparr>,
      \<lparr> ke_id = ''b'', ke_domain = DOMAIN, ke_loaded = True, ke_coord = alarmed \<rparr>] = (Inl StoreError, es)
     \<and> es ! 1 = \<lparr> ke_id = ''b'', ke_domain = DOMAIN, ke_loaded = True, ke_coord = alarmed \<rparr>"
  using clear_service_targets [of "[\<lparr> ke_id = ''a'', ke_domain = DOMAIN, ke_loaded = True, ke_coord = alarmed \<rparr>,
      \<lparr> ke_id = ''b'', ke_domain = DOMAIN, ke_loaded = True, ke_coord = alarmed \<rparr>]" CATEGORY_POWER
      "\<lambda>i. if i = ''a'' then Some StoreError else None" utc0 None]
    reachable_ok [OF alarmed_reachable]
  by (simp add: get_coordinators_def ALL_CATEGORIES_def)

text \<open>Registering the services twice is registering them once, and unregistering undoes it.\<close>

lemma services_idempotent: "register_services (register_services xs) = register_services xs"
  by (simp add: register_services_def Let_def)

lemma services_undone:
  "SERVICE_CLEAR_CATEGORY \<notin> set xs \<Longrightarrow> SERVICE_CLEAR_ALL \<notin> set xs \<Longrightarrow>
     unregister_services (register_services xs) = xs"
  by (simp add: register_services_def unregister_services_def SERVICE_CLEAR_CATEGORY_def SERVICE_CLEAR_ALL_def)

end
