(* ===== verification/FlowProps.thy ===== *)
theory FlowProps
  imports ConfigFlow SetupProps
begin

section \<open>Properties of the config and options flows\<close>

text \<open>
  What the flows promise: no exception escapes a step against a well-behaved controller; a created
  entry is one that setup accepts; the options flow commits everything at its end or nothing;
  identifiers of entries stay distinct; and what re-authentication and discovery change.
\<close>

subsection \<open>Errors\<close>

lemma verify_tame:
  assumes "tame out" "handled False (respond out (verify_response ep)) = Inl e"
  shows "transport_error e"
proof (cases out)
  case (Response r)
  show ?thesis
  proof (cases "\<exists>v. resp_json True r = Inr v \<and> is_dict v \<and> v \<noteq> PDict []")
    case True
    then obtain v where v: "resp_json True r = Inr v" by blast
    with assms(1) Response have "envelope v" by (auto simp: tame_def resp_json_def split: body.splits if_splits)
    with assms(2) Response v show ?thesis
      using meta_field_envelope [of v "''rc''" PNone] meta_field_envelope [of v "''msg''" "PStr ''unknown error''"]
      by (auto simp: respond_def verify_response_def raise_for_status_def verify_body_def out_simps split: if_splits)
  next
    case False
    then show ?thesis using assms Response
      by (auto simp: respond_def verify_response_def raise_for_status_def verify_body_def out_simps resp_json_def
          tame_def envelope_def is_dict_def meta_field_def split: body.splits if_splits pyval.splits)
  qed
qed (use assms in \<open>auto simp: respond_def out_simps tame_def\<close>)

lemma authenticate_tame:
  assumes "\<And>h rq. tame (net h rq)" "fst (authenticate net c) = Inl e"
  shows "transport_error e"
  using assms(2) verify_tame [OF assms(1)]
  by (auto simp: authenticate_def verify_api_key_def Let_def split: if_splits)

lemma any_named_tame: "list_all is_dict es \<Longrightarrow> \<exists>b. any_named site es = Inr b"
  by (induction es) (auto simp: is_dict_iff)

lemma site_listed_tame: "tame out \<Longrightarrow> \<exists>b. site_listed site out = Inr b"
proof (cases out)
  case (Response r)
  moreover assume "tame out"
  moreover have "\<exists>b. bindE (py_get v ''data'' (PList [])) (\<lambda>d. bindE (py_iter d) (any_named site)) = Inr b"
    if "envelope v" for v
    using that any_named_tame by (auto simp: envelope_def split: pyval.splits)
  ultimately show ?thesis
    by (auto simp: site_listed_def respond_def tame_def resp_json_def split: body.splits if_splits)
qed (auto simp: site_listed_def respond_def tame_def)

lemma probe_tame:
  assumes "\<And>h rq. tame (net h rq)"
  shows "\<exists>v c'. probe_system_log_endpoint net site c = (Inr v, c')"
proof -
  have "\<exists>b. probe_outcome (net h rq) = Inr b" for h rq
    using assms [of h rq] by (auto simp: probe_outcome_def respond_def tame_def split: outcome.splits)
  then show ?thesis by (simp add: probe_system_log_endpoint_def act_defs send_def)
qed

lemma site_exists_tame:
  assumes "\<And>h rq. tame (net h rq)"
  shows "\<exists>b c'. site_exists net site c = (Inr b, c')"
  using site_listed_tame [OF assms] by (simp add: site_exists_def act_defs send_def)

lemma validate_connectivity_tame:
  assumes "\<And>h rq. tame (net h rq)" "fst (validate_connectivity net site c) = Inl e"
  shows "transport_error e"
proof -
  obtain v c' where p: "probe_system_log_endpoint net site c = (Inr v, c')"
    using probe_tame [of net, OF assms(1)] by blast
  obtain r c2 where f: "fetch_alarms net site c' = (r, c2)" by fastforce
  obtain b c3 where x: "site_exists net site c2 = (Inr b, c3)"
    using site_exists_tame [of net, OF assms(1)] by blast
  have "transport_error e'" if "r = Inl e'" for e'
    using fetch_alarms_tame [where net = net and site = site and c = c' and e = e'] assms(1) f that by simp
  with assms(2) p f x show ?thesis
    by (auto simp: validate_connectivity_def act_defs split: sum.splits exn.splits if_splits)
qed

lemma validate_controller_tame:
  assumes "\<And>h rq. tame (fe_net env h rq)" "validate_controller env url config site = Inl e"
  shows "transport_error e"
proof -
  let ?c = "new_client url config"
  obtain r c' where a: "authenticate (fe_net env) ?c = (r, c')" by fastforce
  obtain q c2 where v: "validate_connectivity (fe_net env) site c' = (q, c2)" by fastforce
  show ?thesis
    using authenticate_tame [of "fe_net env" ?c e, OF assms(1)]
      validate_connectivity_tame [of "fe_net env" site c' e, OF assms(1)] assms(2) a v
    by (cases r; cases q) (simp_all add: validate_controller_def bindS_def returnS_def)
qed

text \<open>Each handler has an entry for every transport error.\<close>

lemma credential_errors_total: "transport_error e \<Longrightarrow> \<exists>es. es \<noteq> [] \<and> credential_errors f e = Inr es"
  and reauth_errors_total: "transport_error e \<Longrightarrow> \<exists>es. es \<noteq> [] \<and> reauth_errors e = Inr es"
  and site_errors_total: "transport_error e \<Longrightarrow> \<exists>es. es \<noteq> [] \<and> site_errors e = Inr es"
  by (cases e; simp add: credential_errors_def reauth_errors_def site_errors_def transport_error_def)+

text \<open>A step that answers: it returns a result instead of raising.\<close>

definition answers :: "('s, 'a) act \<Rightarrow> 's \<Rightarrow> bool" where
  "answers m s \<longleftrightarrow> (\<exists>r. fst (m s) = Inr r)"

lemma answers_basic [simp]: "answers (returnS x) s" "answers (getS f) s" "answers (modifyS g) s"
  "answers (on_flow h) fs" "answers (flow_emit eff) fs" "answers (update_entry i k) fs"
  "answers (liftS r) s = (\<exists>x. r = Inr x)"
  by (simp_all add: answers_def act_defs on_flow_def flow_emit_def update_entry_def)

lemma answers_bind [simp]:
  "answers (bindS m f) s \<longleftrightarrow> answers m s \<and> (\<forall>x s'. m s = (Inr x, s') \<longrightarrow> answers (f x) s')"
  by (cases "m s"; cases "fst (m s)") (auto simp: answers_def bindS_def)

lemma answers_when [simp]: "answers (whenS b m) s \<longleftrightarrow> (b \<longrightarrow> answers m s)"
  by (simp add: whenS_def)

lemma get_own_entry_eq:
  "get_own_entry i s = (Inr e, s') \<longleftrightarrow> entry_of i (fs_entries s) = Some e \<and> s' = s"
  "answers (get_own_entry i) s \<longleftrightarrow> entry_of i (fs_entries s) \<noteq> None"
  by (auto simp: get_own_entry_def answers_def split: option.splits)

lemma run_simps [simp]:
  "liftS r s = (Inr x, s') \<longleftrightarrow> r = Inr x \<and> s' = s"
  "getS f s = (Inr x, s') \<longleftrightarrow> x = f s \<and> s' = s"
  "on_flow h fs = (Inr u, fs') \<longleftrightarrow> fs' = fs\<lparr>fs_flow := h (fs_flow fs)\<rparr>"
  "flow_emit eff fs = (Inr u, fs') \<longleftrightarrow> fs' = fs\<lparr>fs_effects := eff # fs_effects fs\<rparr>"
  by (auto simp: act_defs on_flow_def flow_emit_def)

text \<open>What a form has been validated to: a severity field holds text.\<close>

definition severity_text :: "dict \<Rightarrow> bool" where
  "severity_text ui \<longleftrightarrow> (\<forall>cat \<in> set ALL_CATEGORIES.
     \<exists>w. dget ui (''min_severity_'' @ cat) (PStr MIN_SEVERITY_NO_FILTER) = PStr w)"

definition stored_severity :: "dict \<Rightarrow> string \<Rightarrow> string" where
  "stored_severity ui cat = (case map_of WIDGET_TO_MIN_SEVERITY
      (text_of (dget ui (''min_severity_'' @ cat) (PStr MIN_SEVERITY_NO_FILTER))) of
    None \<Rightarrow> MIN_SEVERITY_NO_FILTER | Some m \<Rightarrow> m)"

lemma selected_min_severity_eq:
  "severity_text ui \<Longrightarrow> selected_min_severity ui = Inr (map (\<lambda>cat. (cat, PStr (stored_severity ui cat))) ALL_CATEGORIES)"
  unfolding selected_min_severity_def
  by (rule mapE_total) (auto simp: severity_text_def widget_to_min_severity_def stored_severity_def text_of_def)

lemma check_site_tame:
  assumes "\<And>h rq. tame (fe_net env h rq)"
  shows "\<exists>es. check_site env url config site = Inr es"
  using validate_controller_tame [of env url config "text_of site", OF assms] site_errors_total
  by (auto simp: check_site_def split: sum.splits)

lemma categories_answer:
  assumes "\<And>h rq. tame (fe_net env h rq)" "severity_text ui"
  shows "answers (step_categories env (Some ui)) s"
  using check_site_tame [of env, OF assms(1)]
  by (simp add: step_categories_def selected_min_severity_eq [OF assms(2)] step_finish_def)

lemma user_answers:
  assumes "\<And>h rq. tame (fe_net env h rq)" "\<And>url. \<exists>x. fe_scheme env url = Inr x" "map_of ui CONF_CONTROLLER_URL \<noteq> None"
  shows "answers (step_user env (Some ui)) s"
proof -
  have sch: "\<exists>b. is_valid_url_scheme env url = Inr b" for url
    using assms(2) [of url] by (auto simp: is_valid_url_scheme_def)
  have v: "answers (case validate_controller env url ui DEFAULT_SITE of
             Inl err \<Rightarrow> bindS (liftS (credential_errors CONF_CONTROLLER_URL err)) (\<lambda>errors. getS (f errors))
           | Inr x \<Rightarrow> bindS (on_flow g) (\<lambda>_. step_categories env None)) s'" for url f g and s' :: "config_flow flow_state"
    using validate_controller_tame [of env url ui DEFAULT_SITE, OF assms(1)] credential_errors_total [of _ CONF_CONTROLLER_URL]
    by (auto simp: step_categories_def split: sum.splits)
  from assms(3) sch show ?thesis
    by (auto simp: step_user_def Let_def claim_unique_id_def v split: option.splits)
qed

lemma reauth_answers:
  assumes "\<And>h rq. tame (fe_net env h rq)" "\<And>i. cf_reauth_entry (fs_flow s) = Some i \<Longrightarrow> entry_of i (fs_entries s) \<noteq> None"
  shows "answers (step_reauth_confirm env submitted) s"
proof -
  have a: "\<exists>es. reauth_errors e = Inr es" if "fst (authenticate (fe_net env) c) = Inl e" for c e
    using authenticate_tame [of "fe_net env" c e, OF assms(1) that] reauth_errors_total [of e] by auto
  from assms(2) a show ?thesis
    by (auto simp: step_reauth_confirm_def get_own_entry_eq split: option.splits sum.splits)
qed

text \<open>The validation shared by the reconfigure and the options flow.\<close>

lemma validation_answers:
  assumes "\<And>h rq. tame (fe_net env h rq)" "\<And>x. answers (ok x) s"
  shows "answers (case validate_controller env url config site of
             Inl err \<Rightarrow> bindS (liftS (credential_errors field err)) (\<lambda>errors. returnS (f errors))
           | Inr x \<Rightarrow> ok x) s"
  using validate_controller_tame [of env url config site, OF assms(1)] credential_errors_total [of _ field] assms(2)
  by (auto split: sum.splits)

lemma reconfigure_answers:
  assumes "\<And>h rq. tame (fe_net env h rq)" "\<And>url. \<exists>x. fe_scheme env url = Inr x"
    "entry_of i (fs_entries s) = Some e" "map_of (ce_data e) CONF_CONTROLLER_URL \<noteq> None"
  shows "answers (step_reconfigure env i submitted) s"
proof -
  have sch: "\<exists>b. is_valid_url_scheme env url = Inr b" for url
    using assms(2) [of url] by (auto simp: is_valid_url_scheme_def)
  have url: "\<exists>u. effective_url (ce_data e) p = Inr u" "\<exists>b. url_changed (ce_data e) u = Inr b" for p u
    using assms(4) by (auto simp: effective_url_def url_changed_def)
  show ?thesis
    by (auto simp: step_reconfigure_def get_own_entry_eq assms(3) Let_def update_reload_and_abort_def sch url
        split: option.splits intro!: validation_answers [OF assms(1)])
qed

lemma options_answer:
  assumes "\<And>h rq. tame (fe_net env h rq)" "entry_of (of_entry (fs_flow s)) (fs_entries s) = Some e"
  shows "answers (options_finish env submitted) s"
    and "(\<And>ui. submitted = Some ui \<Longrightarrow> severity_text ui) \<Longrightarrow> answers (options_categories env submitted) s"
proof -
  have f: "answers (options_finish env None) t"
    if "of_entry (fs_flow t) = of_entry (fs_flow s)" "fs_entries t = fs_entries s" for t
    using that assms(2) by (simp add: options_finish_def get_own_entry_eq Let_def)
  show "answers (options_finish env submitted) s"
    using assms(2) by (simp add: options_finish_def get_own_entry_eq Let_def)
  assume sev: "\<And>ui. submitted = Some ui \<Longrightarrow> severity_text ui"
  show "answers (options_categories env submitted) s"
  proof (cases submitted)
    case None
    then show ?thesis using assms(2) by (simp add: options_categories_def get_own_entry_eq)
  next
    case (Some ui)
    with sev show ?thesis
      using check_site_tame [of env, OF assms(1)] assms(2)
      by (simp add: options_categories_def get_own_entry_eq selected_min_severity_eq Let_def f)
  qed
qed

lemma options_credentials_answer:
  assumes "\<And>h rq. tame (fe_net env h rq)" "\<And>url. \<exists>x. fe_scheme env url = Inr x"
    "entry_of (of_entry (fs_flow s)) (fs_entries s) = Some e" "map_of (ce_data e) CONF_CONTROLLER_URL \<noteq> None"
  shows "answers (options_credentials env submitted) s"
proof -
  have sch: "\<exists>b. is_valid_url_scheme env url = Inr b" for url
    using assms(2) [of url] by (auto simp: is_valid_url_scheme_def)
  have url: "\<exists>u. effective_url (ce_data e) p = Inr u" "\<exists>b. url_changed (ce_data e) u = Inr b" for p u
    using assms(4) by (auto simp: effective_url_def url_changed_def)
  have cat: "answers (options_categories env None) t"
    if "of_entry (fs_flow t) = of_entry (fs_flow s)" "fs_entries t = fs_entries s" for t
    by (rule options_answer(2) [of env t e]) (use assms that in auto)
  show ?thesis
    by (auto simp: options_credentials_def get_own_entry_eq assms(3) Let_def sch url cat
        split: option.splits intro!: validation_answers [OF assms(1)])
qed


text \<open>A Home Assistant with one entry, whose check of unique ids is the documented one.\<close>

definition demo_flow_env :: "net \<Rightarrow> flow_env" where
  "demo_flow_env net = \<lparr> fe_net = net, fe_scheme = (\<lambda>url. Inr (takeWhile (\<lambda>c. c \<noteq> CHR '':'') url)),
     fe_hostname = (\<lambda>location. Inr (Some ''10.0.0.9'')),
     fe_unique_abort = (\<lambda>url entries. if list_ex (\<lambda>e. ce_unique_id e = Some url) entries
                                      then Some ''already_configured'' else None),
     fe_webhook_url = (\<lambda>i. i), fe_secret = ''fresh'', fe_suffix = ''0a1b2c3d'' \<rparr>"

definition flow_entry_at :: "string \<Rightarrow> string \<Rightarrow> string \<Rightarrow> flow_entry" where
  "flow_entry_at i url serial = \<lparr> ce_id = i, ce_version = 4,
     ce_data = [(CONF_CONTROLLER_URL, PStr url), (CONF_API_KEY, PStr ''k''), (CONF_WEBHOOK_SECRET, PStr ''old''),
                (CONF_DEVICE_SERIAL, PStr serial)],
     ce_options = [], ce_unique_id = Some url \<rparr>"

definition flow_start :: "'f \<Rightarrow> flow_entry list \<Rightarrow> 'f flow_state" where
  "flow_start f entries = \<lparr> fs_flow = f, fs_entries = entries, fs_effects = [] \<rparr>"

lemma empty_net_tame: "tame (empty_net h rq)"
  by (simp add: empty_net_def tame_def envelope_def is_dict_def)

lemma demo_flow_env_fields [simp]: "fe_net (demo_flow_env net) = net" "\<exists>x. fe_scheme (demo_flow_env net) url = Inr x"
  by (simp_all add: demo_flow_env_def)


subsection \<open>Creating an entry\<close>

lemma step_categories_None: "step_categories env None s = (Inr (step_categories_form []), s)"
  by (simp add: step_categories_def returnS_def)

lemma bindS_Inr: "bindS m f s = (Inr y, s') \<longleftrightarrow> (\<exists>x s1. m s = (Inr x, s1) \<and> f x s1 = (Inr y, s'))"
  by (auto simp: bindS_def split: prod.splits sum.splits)

lemma returnS_Inr: "returnS x s = (Inr y, s') \<longleftrightarrow> y = x \<and> s' = s"
  by (auto simp: returnS_def)

lemma raiseS_Inr [simp]: "raiseS e s \<noteq> (Inr y, s')"
  by (simp add: raiseS_def)

lemma user_to_categories:
  assumes "step_user env (Some u) s = (Inr (ShowForm ''categories'' sch errs ph), s1)"
  shows "\<exists>v. map_of u CONF_CONTROLLER_URL = Some v \<and>
    (let url = rstrip_char CHR ''/'' (text_of v) in
       is_valid_url_scheme env url = Inr True \<and> fe_unique_abort env url (fs_entries s) = None \<and>
       validate_controller env url u DEFAULT_SITE = Inr () \<and>
       s1 = s\<lparr>fs_flow := (fs_flow s)\<lparr>cf_unique_id := Some url, cf_controller_url := url,
              cf_credentials := staged_credentials env u (cf_device_serial (fs_flow s))\<rparr>\<rparr>)"
proof -
  obtain v where v: "map_of u CONF_CONTROLLER_URL = Some v"
    using assms by (cases "map_of u CONF_CONTROLLER_URL") (simp_all add: step_user_def)
  define url where "url = rstrip_char CHR ''/'' (text_of v)"
  define ok where "ok = (\<lambda>x :: unit. bindS (on_flow (\<lambda>f. f\<lparr>cf_controller_url := url,
     cf_credentials := staged_credentials env u (cf_device_serial f)\<rparr>)) (\<lambda>_. step_categories env None))"
  have nf: "step_user_form f x es \<noteq> ShowForm ''categories'' sch errs ph" for f x es
    by (simp add: step_user_form_def)
  from assms have "is_valid_url_scheme env url = Inr True \<and> fe_unique_abort env url (fs_entries s) = None \<and>
       validate_controller env url u DEFAULT_SITE = Inr () \<and>
       s1 = s\<lparr>fs_flow := (fs_flow s)\<lparr>cf_unique_id := Some url, cf_controller_url := url,
              cf_credentials := staged_credentials env u (cf_device_serial (fs_flow s))\<rparr>\<rparr>"
    unfolding step_user_def Let_def option.case v url_def [symmetric] ok_def [symmetric]
    by (auto simp: bindS_Inr returnS_Inr claim_unique_id_def nf nf [symmetric] ok_def step_categories_None
        split: option.splits sum.splits if_splits)
  with v show ?thesis by (simp add: url_def Let_def)
qed

lemma categories_to_finish:
  assumes "step_categories env (Some c) s = (Inr (ShowForm ''finish'' sch errs ph), s1)" "severity_text c"
  shows "selected_categories c \<noteq> [] \<and>
    check_site env (cf_controller_url (fs_flow s)) (cf_credentials (fs_flow s)) (dget c CONF_SITE (PStr DEFAULT_SITE)) = Inr [] \<and>
    s1 = s\<lparr>fs_flow := (fs_flow s)\<lparr>cf_entry_data := dict_merge (cf_credentials (fs_flow s))
      (category_settings c (selected_categories c) (dget c CONF_SITE (PStr DEFAULT_SITE))
        (map (\<lambda>cat. (cat, PStr (stored_severity c cat))) ALL_CATEGORIES))\<rparr>\<rparr>"
  using assms(1)
  by (auto simp: step_categories_def bindS_Inr returnS_Inr selected_min_severity_eq [OF assms(2)] step_finish_def
      step_categories_form_def split: if_splits)

lemma map_of_pairs: "map_of (map (\<lambda>cat. (cat, f cat)) cats) cat = (if cat \<in> set cats then Some (f cat) else None)"
  by (induction cats) auto

lemma stored_severity_ordered: "stored_severity c cat \<in> set MIN_SEVERITY_ORDER"
proof -
  have "snd ` set WIDGET_TO_MIN_SEVERITY \<subseteq> set MIN_SEVERITY_ORDER" "MIN_SEVERITY_NO_FILTER \<in> set MIN_SEVERITY_ORDER"
    by code_simp+
  then show ?thesis
    by (auto simp: stored_severity_def dest!: map_of_SomeD split: option.splits)
qed

lemma settings_distinct: "distinct (map fst (category_settings c en site m))"
  by (simp add: category_settings_def conf_keys)

lemma dget_merge:
  "distinct (map fst b) \<Longrightarrow> dget (dict_merge a b) k v = (case map_of b k of Some w \<Rightarrow> w | None \<Rightarrow> dget a k v)"
  by (simp add: dget_def map_of_dict_merge map_add_def split: option.split)

lemma dget_staged:
  "dget (staged_credentials env u serial) k v =
     (if k = CONF_DEVICE_SERIAL \<and> serial \<noteq> [] then PStr serial
      else if k = CONF_WEBHOOK_SECRET then PStr (fe_secret env)
      else if k = CONF_WEBHOOK_ID_SUFFIX then PStr (fe_suffix env) else dget u k v)"
proof -
  have "distinct (map fst [(CONF_WEBHOOK_SECRET, a), (CONF_WEBHOOK_ID_SUFFIX, b :: pyval)])" for a b
    by (simp add: conf_keys)
  then show ?thesis
    by (simp add: staged_credentials_def Let_def dget_merge update_conv' dget_def map_of_dict_merge conf_keys)
qed

lemma validate_authenticates:
  "validate_controller env url u site = Inr () \<Longrightarrow> fst (authenticate (fe_net env) (new_client url u)) = Inr ()"
  by (auto simp: validate_controller_def bindS_def split: prod.splits sum.splits)

text \<open>C17: an entry created by the three steps of the config flow is one setup can load. Its data holds
  the fields of the first form, with a key the controller accepted, a fresh secret and webhook
  suffix, a non-empty selection of categories and a minimum severity that the gate reads back as chosen;
  the coordinator built from it enables exactly the selected categories; the flow's unique id is the
  URL it validated, and no other entry has been touched.\<close>

theorem created_entry_loads:
  assumes "step_user env (Some u) s = (Inr (ShowForm ''categories'' sch errs ph), s1)"
    and "step_categories env (Some c) s1 = (Inr (ShowForm ''finish'' sch' errs' ph'), s2)"
    and "step_finish env (Some f) s2 = (Inr (CreateEntry title d), s3)"
    and "severity_text c" "dget c CONF_SITE (PStr DEFAULT_SITE) = PStr site"
    and "dget c CONF_POLL_INTERVAL (PInt DEFAULT_POLL_INTERVAL) = PInt p"
    and "dget c CONF_CLEAR_TIMEOUT (PInt DEFAULT_CLEAR_TIMEOUT) = PInt q"
  shows "fs_entries s3 = fs_entries s \<and> fs_effects s3 = fs_effects s \<and>
    (\<exists>url. cf_unique_id (fs_flow s3) = Some url \<and> fst (authenticate (fe_net env) (new_client url u)) = Inr ()) \<and>
    dget d CONF_API_KEY PNone = dget u CONF_API_KEY PNone \<and>
    dget d CONF_WEBHOOK_SECRET PNone = PStr (fe_secret env) \<and> id_suffix_of d = fe_suffix env \<and>
    (\<forall>cat \<in> set ALL_CATEGORIES. get_effective_min_severity d cat = stored_severity c cat) \<and>
    selected_categories c \<noteq> [] \<and>
    (\<exists>co. new_coordinator cl d i = Some co \<and> map cs_category (enabled_states co) = selected_categories c)"
proof -
  let ?settings = "category_settings c (selected_categories c) (PStr site) (map (\<lambda>cat. (cat, PStr (stored_severity c cat))) ALL_CATEGORIES)"
  obtain url where s1: "s1 = s\<lparr>fs_flow := (fs_flow s)\<lparr>cf_unique_id := Some url, cf_controller_url := url,
              cf_credentials := staged_credentials env u (cf_device_serial (fs_flow s))\<rparr>\<rparr>"
      and valid: "validate_controller env url u DEFAULT_SITE = Inr ()"
    using user_to_categories [OF assms(1)] by (auto simp: Let_def)
  note s2 = categories_to_finish [OF assms(2,4)]
  have d: "d = dict_merge (staged_credentials env u (cf_device_serial (fs_flow s))) ?settings" and s3: "s3 = s2"
    using assms(3,5) s1 s2 by (simp_all add: step_finish_def Let_def)
  have dg: "dget d k v = (case map_of ?settings k of Some w \<Rightarrow> w
      | None \<Rightarrow> dget (staged_credentials env u (cf_device_serial (fs_flow s))) k v)" for k v
    by (simp add: d dget_merge settings_distinct)
  have keys: "map_of ?settings CONF_API_KEY = None" "map_of ?settings CONF_WEBHOOK_SECRET = None"
      "map_of ?settings CONF_WEBHOOK_ID_SUFFIX = None"
    by (simp_all add: category_settings_def conf_keys)
  have kept: "dget d CONF_API_KEY PNone = dget u CONF_API_KEY PNone" "dget d CONF_WEBHOOK_SECRET PNone = PStr (fe_secret env)"
      "id_suffix_of d = fe_suffix env"
    by (simp_all add: dg keys dget_staged id_suffix_of_def) (simp_all add: conf_keys)
  have set: "dget d CONF_ENABLED_CATEGORIES v = PList (map PStr (selected_categories c))"
      "dget d CONF_POLL_INTERVAL v = PInt p" "dget d CONF_CLEAR_TIMEOUT v = PInt q" "dget d CONF_SITE v = PStr site"
      "dget d CONF_MIN_SEVERITY v = PDict (map (\<lambda>cat. (cat, PStr (stored_severity c cat))) ALL_CATEGORIES)" for v
    using assms(6,7) by (simp_all add: dg category_settings_def conf_keys)
  have gate: "get_effective_min_severity d cat = stored_severity c cat" if "cat \<in> set ALL_CATEGORIES" for cat
    using that stored_severity_ordered [of c cat]
    by (simp add: get_effective_min_severity_def set) (simp add: dget_def map_of_pairs)
  have sel: "filter (\<lambda>cat. cat \<in> set (selected_categories c)) ALL_CATEGORIES = selected_categories c"
    by (simp add: selected_categories_def cong: filter_cong)
  have co: "\<exists>co. new_coordinator cl d i = Some co \<and> map cs_category (enabled_states co) = selected_categories c"
    using sel by (simp add: new_coordinator_def set enabled_states_def new_category_state_def filter_map o_def
        image_iff)
  show ?thesis
    using s1 s2 s3 validate_authenticates [OF valid] kept gate co by simp
qed

definition demo_user_form :: dict where
  "demo_user_form = [(CONF_CONTROLLER_URL, PStr ''https://u/''), (CONF_API_KEY, PStr ''k'')]"

definition demo_categories_form :: dict where
  "demo_categories_form = [(''cat_security_threat'', PBool True), (''min_severity_security_threat'', PStr ''high''),
     (CONF_POLL_INTERVAL, PInt 60), (CONF_CLEAR_TIMEOUT, PInt 30), (CONF_SITE, PStr ''default'')]"

definition created :: "(config_flow flow_state, flow_result) act" where
  "created = (let env = demo_flow_env empty_net in
     bindS (step_user env (Some demo_user_form)) (\<lambda>_. bindS (step_categories env (Some demo_categories_form)) (\<lambda>_.
     step_finish env (Some []))))"

lemma created_entry_loads_witness:
  "\<exists>title d. fst (created (flow_start new_config_flow [])) = Inr (CreateEntry title d) \<and>
     get_effective_min_severity d CATEGORY_SECURITY_THREAT = SEVERITY_HIGH"
proof -
  let ?env = "demo_flow_env empty_net" and ?s = "flow_start new_config_flow []"
  have "case step_user ?env (Some demo_user_form) ?s of
      (Inr (ShowForm st _ _ _), _) \<Rightarrow> st = ''categories'' | _ \<Rightarrow> False" by code_simp
  then obtain sch errs ph s1 where 1: "step_user ?env (Some demo_user_form) ?s = (Inr (ShowForm ''categories'' sch errs ph), s1)"
    by (auto split: prod.splits sum.splits flow_result.splits)
  have "case step_categories ?env (Some demo_categories_form) (snd (step_user ?env (Some demo_user_form) ?s)) of
      (Inr (ShowForm st _ _ _), _) \<Rightarrow> st = ''finish'' | _ \<Rightarrow> False" by code_simp
  with 1 obtain sch' errs' ph' s2 where 2: "step_categories ?env (Some demo_categories_form) s1
      = (Inr (ShowForm ''finish'' sch' errs' ph'), s2)"
    by (auto split: prod.splits sum.splits flow_result.splits)
  obtain title d where 3: "step_finish ?env (Some []) s2 = (Inr (CreateEntry title d), s2)"
    by (simp add: step_finish_def getS_def Let_def)
  have form: "severity_text demo_categories_form" "dget demo_categories_form CONF_SITE (PStr DEFAULT_SITE) = PStr ''default''"
      "dget demo_categories_form CONF_POLL_INTERVAL (PInt DEFAULT_POLL_INTERVAL) = PInt 60"
      "dget demo_categories_form CONF_CLEAR_TIMEOUT (PInt DEFAULT_CLEAR_TIMEOUT) = PInt 30"
    by (simp_all add: severity_text_def demo_categories_form_def conf_keys)
  have "CATEGORY_SECURITY_THREAT \<in> set ALL_CATEGORIES"
      "stored_severity demo_categories_form CATEGORY_SECURITY_THREAT = SEVERITY_HIGH" by code_simp+
  with created_entry_loads [OF 1 2 3 form] 1 2 3 show ?thesis
    by (simp add: created_def Let_def bindS_def)
qed

subsection \<open>The options flow\<close>

datatype options_event =
    Credentials flow_env "dict option"
  | Categories flow_env "dict option"
  | Review flow_env

text \<open>Everything that can happen to an options flow before its last form is submitted.\<close>

primrec options_step :: "options_flow flow_state \<Rightarrow> options_event \<Rightarrow> options_flow flow_state" where
  "options_step s (Credentials env ui) = snd (options_credentials env ui s)"
| "options_step s (Categories env ui) = snd (options_categories env ui s)"
| "options_step s (Review env) = snd (options_finish env None s)"

text \<open>The rest of Home Assistant as seen by a flow.\<close>

definition outside :: "flow_entry list \<Rightarrow> flow_effect list \<Rightarrow> string \<Rightarrow> options_flow flow_state \<Rightarrow> bool" where
  "outside entries effects i s \<longleftrightarrow> fs_entries s = entries \<and> fs_effects s = effects \<and> of_entry (fs_flow s) = i"

lemma keepsS_get_own [simp]: "keepsS P (get_own_entry i)"
  by (simp add: keepsS_def get_own_entry_def split: option.split)

lemma keeps_stage:
  "(\<And>f. of_entry (h f) = of_entry f) \<Longrightarrow> keepsS (outside es fx i) (on_flow h)"
  by (simp add: keepsS_def on_flow_def modifyS_def outside_def)

lemma keeps_finish_None: "keepsS (outside es fx i) (options_finish env None)"
  unfolding options_finish_def Let_def by (auto intro!: keepsS_bind)

lemma keeps_categories: "keepsS (outside es fx i) (options_categories env ui)"
  unfolding options_categories_def Let_def
  by (auto intro!: keepsS_bind keeps_stage keeps_finish_None split: option.splits)

lemma keeps_credentials: "keepsS (outside es fx i) (options_credentials env ui)"
  unfolding options_credentials_def Let_def
  by (auto intro!: keepsS_bind keeps_stage keeps_categories split: option.splits sum.splits)

lemma keeps_options_step: "outside es fx i s \<Longrightarrow> outside es fx i (options_step s ev)"
  by (cases ev) (auto intro: keepsS_D keeps_credentials keeps_categories keeps_finish_None)

interpretation options: event_machine options_step "outside es fx i"
  by unfold_locales (rule keeps_options_step)

text \<open>An options flow that is abandoned leaves nothing behind: whatever is submitted to the
  credentials and categories steps, in whatever order, and whatever the controller answers, no
  entry, no issue and nothing else outside the flow changes before the last form is submitted.\<close>

theorem options_flow_atomic:
  "fs_entries (foldl options_step s events) = fs_entries s \<and> fs_effects (foldl options_step s events) = fs_effects s"
  using options.run_inv [of "fs_entries s" "fs_effects s" "of_entry (fs_flow s)" s events]
  by (simp add: outside_def)

lemma credentials_to_categories:
  assumes "options_credentials env (Some ui) s = (Inr (ShowForm ''categories'' sch errs ph), s1)"
    and "entry_of (of_entry (fs_flow s)) (fs_entries s) = Some e"
  defines "p \<equiv> parse_credentials_form_input ui (ce_data e)"
  shows "\<exists>pending. s1 = s\<lparr>fs_flow := (fs_flow s)\<lparr>of_pending_data := pending\<rparr>\<rparr> \<and>
    (if credentials_changed p then
       \<exists>url. effective_url (ce_data e) p = Inr url \<and>
         validate_controller env url (build_credentials_test_data (ce_data e) url p) DEFAULT_SITE = Inr () \<and>
         (\<exists>b. url_changed (ce_data e) url = Inr b \<and>
            (b \<longrightarrow> find_duplicate_entry (fs_entries s) (of_entry (fs_flow s)) url = None)) \<and>
         pending = build_credentials_pending_data (fe_secret env) (ce_data e) url p
     else if regenerate_secret p \<or> verify_ssl_changed p
     then pending = build_verify_ssl_and_secret_only_pending (fe_secret env) (ce_data e) p
     else pending = of_pending_data (fs_flow s))"
proof -
  have nf: "options_credentials_form d es \<noteq> ShowForm ''categories'' sch errs ph" for d es
    by (simp add: options_credentials_form_def)
  have oc: "options_categories env None t = (Inr r, t') \<Longrightarrow> t' = t" for t t' r
    by (auto simp: options_categories_def bindS_Inr get_own_entry_eq returnS_Inr)
  from assms(1,2) show ?thesis
    by (auto simp: options_credentials_def bindS_Inr get_own_entry_eq returnS_Inr Let_def p_def [symmetric] nf nf [symmetric]
        split: if_splits sum.splits dest!: oc)
qed

lemma options_to_finish:
  assumes "options_categories env (Some c) s = (Inr (ShowForm ''finish'' sch errs ph), s1)" "severity_text c"
  shows "selected_categories c \<noteq> [] \<and> s1 = s\<lparr>fs_flow := (fs_flow s)\<lparr>of_pending_options :=
     category_settings c (selected_categories c) (dget c CONF_SITE (PStr DEFAULT_SITE))
        (map (\<lambda>cat. (cat, PStr (stored_severity c cat))) ALL_CATEGORIES)\<rparr>\<rparr>"
  using assms(1)
  by (auto simp: options_categories_def bindS_Inr returnS_Inr selected_min_severity_eq [OF assms(2)] get_own_entry_eq
      options_finish_def Let_def options_categories_form_def split: if_splits)

lemma options_commit:
  assumes "entry_of (of_entry (fs_flow s)) (fs_entries s) = Some e"
  defines "i \<equiv> of_entry (fs_flow s)" and "pending \<equiv> of_pending_data (fs_flow s)"
  shows "options_finish env (Some x) s = (Inr (CreateEntry [] (of_pending_options (fs_flow s))),
    if pending = [] then s else s\<lparr>
      fs_entries := map (\<lambda>e'. if ce_id e' = i then e'\<lparr>ce_data := pending, ce_unique_id :=
         (if truthy (dget pending CONF_CONTROLLER_URL PNone)
             \<and> dget pending CONF_CONTROLLER_URL PNone \<noteq> dget (ce_data e) CONF_CONTROLLER_URL PNone
          then Some (text_of (dget pending CONF_CONTROLLER_URL PNone)) else ce_unique_id e')\<rparr> else e') (fs_entries s),
      fs_effects := UpdateEntry i #
        (if dget pending CONF_WEBHOOK_SECRET (dget (ce_data e) CONF_WEBHOOK_SECRET (PStr []))
             \<noteq> dget (ce_data e) CONF_WEBHOOK_SECRET (PStr [])
         then [CreateIssue (rotated_issue i)] else []) @ fs_effects s\<rparr>)"
  using assms(1)
  by (simp add: options_finish_def act_defs get_own_entry_def Let_def i_def pending_def flow_emit_def update_entry_def)

text \<open>What the credentials step stages, key by key.\<close>

lemma dget_update: "dget (AList.update k' w d) k v = (if k = k' then w else dget d k v)"
  by (simp add: dget_def dict.lookup_put)

lemma typed_distinct: "distinct (map fst ([(CONF_CONTROLLER_URL, a), (CONF_VERIFY_SSL, b)] @ credential_overrides p))"
  by (simp add: credential_overrides_def conf_keys)

lemma dget_pending:
  "dget (build_credentials_pending_data secret d url p) k v =
     (if k = CONF_WEBHOOK_SECRET \<and> regenerate_secret p then PStr secret
      else if k = CONF_CONTROLLER_URL then PStr url
      else if k = CONF_VERIFY_SSL then new_verify_ssl p
      else if k = CONF_API_KEY \<and> new_api_key p \<noteq> [] then PStr (new_api_key p) else dget d k v)"
proof -
  have m: "dget (dict_merge d ([(CONF_CONTROLLER_URL, PStr url), (CONF_VERIFY_SSL, new_verify_ssl p)] @ credential_overrides p)) k v
    = (if k = CONF_CONTROLLER_URL then PStr url else if k = CONF_VERIFY_SSL then new_verify_ssl p
       else if k = CONF_API_KEY \<and> new_api_key p \<noteq> [] then PStr (new_api_key p) else dget d k v)" for k
    unfolding dget_merge [OF typed_distinct] by (simp add: credential_overrides_def conf_keys)
  show ?thesis
    by (cases "regenerate_secret p")
      (simp_all only: build_credentials_pending_data_def Let_def if_True if_False dget_update m simp_thms)
qed

lemma dget_secret_only:
  "dget (build_verify_ssl_and_secret_only_pending secret d p) k v =
     (if k = CONF_WEBHOOK_SECRET \<and> regenerate_secret p then PStr secret
      else if k = CONF_VERIFY_SSL \<and> verify_ssl_changed p then new_verify_ssl p else dget d k v)"
  by (simp add: build_verify_ssl_and_secret_only_pending_def Let_def dget_update) 

lemma pending_not_empty: "dget pending k PNone \<noteq> PNone \<Longrightarrow> pending \<noteq> []"
  by auto

lemma credentials_changed_iff:
  "credentials_changed (parse_credentials_form_input ui d) \<longleftrightarrow>
     new_url_raw (parse_credentials_form_input ui d) \<noteq> [] \<or> new_api_key (parse_credentials_form_input ui d) \<noteq> []"
  by (simp add: parse_credentials_form_input_def Let_def)

text \<open>The stored value under a key after the typed changes.\<close>

definition typed :: "string \<Rightarrow> credentials_form \<Rightarrow> dict \<Rightarrow> string \<Rightarrow> pyval \<Rightarrow> pyval" where
  "typed secret p d k v =
     (if k = CONF_WEBHOOK_SECRET \<and> regenerate_secret p then PStr secret
      else if k = CONF_CONTROLLER_URL \<and> new_url_raw p \<noteq> [] then PStr (rstrip_char CHR ''/'' (new_url_raw p))
      else if k = CONF_VERIFY_SSL \<and> (verify_ssl_changed p \<or> credentials_changed p) then new_verify_ssl p
      else if k = CONF_API_KEY \<and> new_api_key p \<noteq> [] then PStr (new_api_key p) else dget d k v)"

lemma dget_dget [simp]: "dget d k (dget d k v) = dget d k v"
  by (simp add: dget_def split: option.split)

lemma dget_present: "dget d k PNone = PStr x \<Longrightarrow> dget d k v = PStr x" "dget d k PNone = PStr x \<Longrightarrow> map_of d k = Some (PStr x)"
  by (auto simp: dget_def split: option.splits)

lemma staged_typed:
  assumes p: "p = parse_credentials_form_input ui d" and stored: "dget d CONF_CONTROLLER_URL PNone = PStr url\<^sub>0"
    and pend: "if credentials_changed p then effective_url d p = Inr url \<and> pending = build_credentials_pending_data secret d url p
     else if regenerate_secret p \<or> verify_ssl_changed p
     then pending = build_verify_ssl_and_secret_only_pending secret d p else pending = []"
  shows "(if pending = [] then d else pending) \<noteq> [] \<and>
    (pending = [] \<longleftrightarrow> \<not> credentials_changed p \<and> \<not> regenerate_secret p \<and> \<not> verify_ssl_changed p) \<and>
    (\<forall>k v. dget (if pending = [] then d else pending) k v = typed secret p d k v)"
proof -
  have d: "d \<noteq> []" using stored by auto
  note cc = credentials_changed_iff [of ui d, folded p]
  have sep: "CONF_API_KEY \<noteq> CONF_VERIFY_SSL" "CONF_VERIFY_SSL \<noteq> CONF_CONTROLLER_URL" "CONF_API_KEY \<noteq> CONF_CONTROLLER_URL"
      "CONF_WEBHOOK_SECRET \<noteq> CONF_CONTROLLER_URL" by (simp_all add: conf_keys)
  consider (cred) "credentials_changed p" | (secret) "\<not> credentials_changed p" "regenerate_secret p \<or> verify_ssl_changed p"
    | (none) "\<not> credentials_changed p" "\<not> regenerate_secret p" "\<not> verify_ssl_changed p" by blast
  then show ?thesis
  proof cases
    case cred
    with pend have q: "pending = build_credentials_pending_data secret d url p" by simp
    have "dget pending CONF_CONTROLLER_URL PNone \<noteq> PNone" using sep by (simp add: q dget_pending)
    then have "pending \<noteq> []" by auto
    moreover have "PStr url = typed secret p d CONF_CONTROLLER_URL v" for v
      using cred pend sep dget_present [OF stored]
      by (auto simp: effective_url_def typed_def text_of_def split: if_splits)
    ultimately show ?thesis using cred sep by (auto simp: q dget_pending) (auto simp: typed_def)
  next
    case secret
    with pend have q: "pending = build_verify_ssl_and_secret_only_pending secret d p" by simp
    have "dget pending CONF_CONTROLLER_URL PNone \<noteq> PNone" using sep stored by (simp add: q dget_secret_only)
    then have "pending \<noteq> []" by auto
    with secret cc show ?thesis by (auto simp: q dget_secret_only typed_def)
  next
    case none
    with pend cc d show ?thesis by (auto simp: typed_def)
  qed
qed

lemma typed_secret: "typed secret p d CONF_WEBHOOK_SECRET v = (if regenerate_secret p then PStr secret else dget d CONF_WEBHOOK_SECRET v)"
  by (simp add: typed_def conf_keys)

lemma typed_url:
  assumes "dget d CONF_CONTROLLER_URL PNone = PStr url\<^sub>0"
  shows "\<exists>u. typed secret p d CONF_CONTROLLER_URL PNone = PStr u"
    and "effective_url d p = Inr url \<Longrightarrow> PStr url = typed secret p d CONF_CONTROLLER_URL PNone"
  using assms dget_present [OF assms] by (auto simp: effective_url_def typed_def text_of_def conf_keys split: if_splits)

text \<open>C14: what an options flow commits when it is submitted to the end. The entry's data is the stored
  data with exactly the typed changes: a new URL or key (validated against the controller together
  with the rest), the new certificate setting, a fresh secret when rotation was asked for; every
  other key, the webhook suffix among them, is as it was. The unique id follows the URL, the issue about
  the rotated secret is raised exactly when the secret differs, other entries are untouched, and
  the options are the submitted settings.\<close>

theorem options_flow_commits:
  assumes "options_credentials env (Some ui) s = (Inr (ShowForm ''categories'' sch errs ph), s1)"
    and "options_categories env' (Some c) s1 = (Inr (ShowForm ''finish'' sch' errs' ph'), s2)"
    and "options_finish env'' (Some x) s2 = (Inr r, s3)"
    and "entry_of (of_entry (fs_flow s)) (fs_entries s) = Some e" "of_pending_data (fs_flow s) = []"
    and "dget (ce_data e) CONF_CONTROLLER_URL PNone = PStr url\<^sub>0" "severity_text c"
  defines "p \<equiv> parse_credentials_form_input ui (ce_data e)"
  shows "\<exists>upd. fs_entries s3 = map (\<lambda>e'. if ce_id e' = of_entry (fs_flow s) then upd e' else e') (fs_entries s) \<and>
    (\<forall>k v. dget (ce_data (upd e)) k v = typed (fe_secret env) p (ce_data e) k v) \<and>
    (credentials_changed p \<longrightarrow> (\<exists>url. PStr url = dget (ce_data (upd e)) CONF_CONTROLLER_URL PNone \<and>
        validate_controller env url (build_credentials_test_data (ce_data e) url p) DEFAULT_SITE = Inr ())) \<and>
    (let url = text_of (dget (ce_data (upd e)) CONF_CONTROLLER_URL PNone) in
       ce_unique_id (upd e) = (if url \<noteq> [] \<and> url \<noteq> url\<^sub>0 then Some url else ce_unique_id e)) \<and>
    (\<exists>new. fs_effects s3 = new @ fs_effects s \<and>
      (CreateIssue (rotated_issue (of_entry (fs_flow s))) \<in> set new \<longleftrightarrow>
         regenerate_secret p \<and> PStr (fe_secret env) \<noteq> dget (ce_data e) CONF_WEBHOOK_SECRET (PStr []))) \<and>
    r = CreateEntry [] (category_settings c (selected_categories c) (dget c CONF_SITE (PStr DEFAULT_SITE))
        (map (\<lambda>cat. (cat, PStr (stored_severity c cat))) ALL_CATEGORIES))"
proof -
  let ?i = "of_entry (fs_flow s)" and ?d = "ce_data e"
  obtain pending url where s1: "s1 = s\<lparr>fs_flow := (fs_flow s)\<lparr>of_pending_data := pending\<rparr>\<rparr>"
    and pend: "if credentials_changed p then effective_url ?d p = Inr url \<and> pending = build_credentials_pending_data (fe_secret env) ?d url p
     else if regenerate_secret p \<or> verify_ssl_changed p
     then pending = build_verify_ssl_and_secret_only_pending (fe_secret env) ?d p else pending = []"
    and valid: "credentials_changed p \<Longrightarrow> validate_controller env url (build_credentials_test_data ?d url p) DEFAULT_SITE = Inr ()"
    using credentials_to_categories [OF assms(1,4)] unfolding assms(5) p_def
    by (cases "credentials_changed (parse_credentials_form_input ui ?d)") auto
  note staged = staged_typed [OF p_def [THEN meta_eq_to_obj_eq] assms(6) pend]
  note s2 = options_to_finish [OF assms(2,7)]
  have e2: "entry_of (of_entry (fs_flow s2)) (fs_entries s2) = Some e" using assms(4) s1 s2 by simp
  define upd where "upd = (\<lambda>e' :: flow_entry. if pending = [] then e' else e'\<lparr>ce_data := pending, ce_unique_id :=
         (if truthy (dget pending CONF_CONTROLLER_URL PNone) \<and> dget pending CONF_CONTROLLER_URL PNone \<noteq> dget ?d CONF_CONTROLLER_URL PNone
          then Some (text_of (dget pending CONF_CONTROLLER_URL PNone)) else ce_unique_id e')\<rparr>)"
  have data: "ce_data (upd e) = (if pending = [] then ?d else pending)" by (simp add: upd_def)
  have lookup: "dget (ce_data (upd e)) k v = typed (fe_secret env) p ?d k v" for k v
    unfolding data using staged by blast
  have pe: "pending = [] \<longleftrightarrow> \<not> credentials_changed p \<and> \<not> regenerate_secret p \<and> \<not> verify_ssl_changed p"
    using staged by blast
  have commit: "options_finish env'' (Some x) s2 = (Inr r, s3)" by (rule assms(3))
  have "fs_entries s3 = map (\<lambda>e'. if ce_id e' = ?i then upd e' else e') (fs_entries s)"
    using options_commit [OF e2, of env'' x] assms(3) s1 s2
    by (auto simp: upd_def split: if_splits intro!: map_idI [symmetric])
  moreover have "credentials_changed p \<Longrightarrow> PStr url = typed (fe_secret env) p ?d CONF_CONTROLLER_URL PNone"
    using pend typed_url(2) [OF assms(6)] by simp
  moreover have "\<exists>u. typed (fe_secret env) p ?d CONF_CONTROLLER_URL PNone = PStr u"
    by (rule typed_url(1) [OF assms(6)])
  moreover have "ce_unique_id (upd e) = (let u = text_of (dget (ce_data (upd e)) CONF_CONTROLLER_URL PNone) in
      if u \<noteq> [] \<and> u \<noteq> url\<^sub>0 then Some u else ce_unique_id e)"
    using calculation(3) lookup [of CONF_CONTROLLER_URL PNone] assms(6)
    by (cases "pending = []") (auto simp: upd_def text_of_def)
  moreover have "\<exists>new. fs_effects s3 = new @ fs_effects s \<and> (CreateIssue (rotated_issue ?i) \<in> set new \<longleftrightarrow>
         regenerate_secret p \<and> PStr (fe_secret env) \<noteq> dget ?d CONF_WEBHOOK_SECRET (PStr []))"
  proof -
    have "fs_effects s3 = (if pending = [] then [] else UpdateEntry ?i #
        (if typed (fe_secret env) p ?d CONF_WEBHOOK_SECRET (dget ?d CONF_WEBHOOK_SECRET (PStr []))
             \<noteq> dget ?d CONF_WEBHOOK_SECRET (PStr []) then [CreateIssue (rotated_issue ?i)] else [])) @ fs_effects s"
      using options_commit [OF e2, of env'' x] commit s1 s2 lookup by (auto simp: data)
    then show ?thesis using pe by (auto simp: typed_secret)
  qed
  moreover have "r = CreateEntry [] (category_settings c (selected_categories c) (dget c CONF_SITE (PStr DEFAULT_SITE))
        (map (\<lambda>cat. (cat, PStr (stored_severity c cat))) ALL_CATEGORIES))"
    using options_commit [OF e2, of env'' x] commit s2 by simp
  ultimately show ?thesis
    using lookup valid by (intro exI [of _ upd]) (simp add: Let_def, metis)
qed

lemma options_flow_commits_witness:
  "\<exists>r s3. bindS (options_credentials (demo_flow_env empty_net) (Some [(CONF_CONTROLLER_URL, PStr ''https://v/''),
        (CONF_REGENERATE_WEBHOOK_SECRET, PBool True)])) (\<lambda>_.
      bindS (options_categories (demo_flow_env empty_net) (Some demo_categories_form)) (\<lambda>_.
      options_finish (demo_flow_env empty_net) (Some []))) (flow_start (new_options_flow ''e'') [flow_entry_at ''e'' ''https://u'' ''S''])
      = (Inr r, s3) \<and> CreateIssue (rotated_issue ''e'') \<in> set (fs_effects s3)"
proof -
  let ?env = "demo_flow_env empty_net" and ?s = "flow_start (new_options_flow ''e'') [flow_entry_at ''e'' ''https://u'' ''S'']"
  let ?ui = "[(CONF_CONTROLLER_URL, PStr ''https://v/''), (CONF_REGENERATE_WEBHOOK_SECRET, PBool True)]"
  have "case options_credentials ?env (Some ?ui) ?s of
      (Inr (ShowForm st _ _ _), _) \<Rightarrow> st = ''categories'' | _ \<Rightarrow> False" by code_simp
  then obtain sch errs ph s1 where 1: "options_credentials ?env (Some ?ui) ?s = (Inr (ShowForm ''categories'' sch errs ph), s1)"
    by (auto split: prod.splits sum.splits flow_result.splits)
  have "case options_categories ?env (Some demo_categories_form) (snd (options_credentials ?env (Some ?ui) ?s)) of
      (Inr (ShowForm st _ _ _), _) \<Rightarrow> st = ''finish'' | _ \<Rightarrow> False" by code_simp
  with 1 obtain sch' errs' ph' s2 where 2: "options_categories ?env (Some demo_categories_form) s1
      = (Inr (ShowForm ''finish'' sch' errs' ph'), s2)"
    by (auto split: prod.splits sum.splits flow_result.splits)
  have s: "entry_of (of_entry (fs_flow ?s)) (fs_entries ?s) = Some (flow_entry_at ''e'' ''https://u'' ''S'')"
      "of_pending_data (fs_flow ?s) = []"
      "dget (ce_data (flow_entry_at ''e'' ''https://u'' ''S'')) CONF_CONTROLLER_URL PNone = PStr ''https://u''"
      "severity_text demo_categories_form"
    by (simp_all add: flow_start_def new_options_flow_def entry_of_def flow_entry_at_def severity_text_def demo_categories_form_def conf_keys)
  have "entry_of (of_entry (fs_flow s2)) (fs_entries s2) = Some (flow_entry_at ''e'' ''https://u'' ''S'')"
    using credentials_to_categories [OF 1 s(1)] options_to_finish [OF 2 s(4)] s(1) by auto
  from options_commit [OF this, of ?env "[]"] obtain r s3 where 3: "options_finish ?env (Some []) s2 = (Inr r, s3)" by blast
  have "regenerate_secret (parse_credentials_form_input ?ui (ce_data (flow_entry_at ''e'' ''https://u'' ''S'')))"
      "PStr (fe_secret ?env) \<noteq> dget (ce_data (flow_entry_at ''e'' ''https://u'' ''S'')) CONF_WEBHOOK_SECRET (PStr [])"
    by code_simp+
  with options_flow_commits [OF 1 2 3 s] 1 2 3 show ?thesis
    by (auto simp: bindS_def flow_start_def new_options_flow_def)
qed

end
