(* ===== verification/FlowEntryProps.thy ===== *)
theory FlowEntryProps
  imports FlowProps
begin

section \<open>Entries under the flows\<close>

text \<open>
  The flows that change an existing entry (discovery, reconfiguration, re-authentication and the
  submitted options flow) and the identity of entries: the unique id follows the URL, and two
  entries never share one, unless a trailing slash gets into the stored URL.
\<close>

subsection \<open>Unique identifiers\<close>

text \<open>Every entry's unique id is its controller URL, and no two entries share one.\<close>

definition url_of :: "flow_entry \<Rightarrow> string" where
  "url_of e = text_of (dget (ce_data e) CONF_CONTROLLER_URL PNone)"

definition entries_ok :: "flow_entry list \<Rightarrow> bool" where
  "entries_ok entries \<longleftrightarrow> distinct (map ce_id entries) \<and> distinct (map ce_unique_id entries) \<and>
     (\<forall>e \<in> set entries. dget (ce_data e) CONF_CONTROLLER_URL PNone = PStr (url_of e) \<and> ce_unique_id e = Some (url_of e))"

text \<open>Replacing the entry with an identifier by one with the same URL, or with a URL nobody else has.\<close>

lemma entries_ok_update:
  assumes "entries_ok entries"
    and "\<And>e. e \<in> set entries \<Longrightarrow> ce_id e = i \<Longrightarrow> ce_id (f e) = i \<and>
        dget (ce_data (f e)) CONF_CONTROLLER_URL PNone = PStr (url_of (f e)) \<and> ce_unique_id (f e) = Some (url_of (f e)) \<and>
        (url_of (f e) \<noteq> url_of e \<longrightarrow> (\<forall>e' \<in> set entries. ce_id e' \<noteq> i \<longrightarrow> url_of e' \<noteq> url_of (f e)))"
  shows "entries_ok (map (\<lambda>e. if ce_id e = i then f e else e) entries)"
proof -
  let ?f = "\<lambda>e. if ce_id e = i then f e else e"
  have ids: "map ce_id (map ?f entries) = map ce_id entries" using assms(2) by (auto simp: o_def)
  have u: "ce_unique_id e = Some (url_of e)" if "e \<in> set entries" for e
    using assms(1) that by (simp add: entries_ok_def)
  have inj: "inj_on ce_unique_id (set entries)" "inj_on ce_id (set entries)" "distinct entries"
    using assms(1) by (auto simp: entries_ok_def distinct_map)
  have "inj_on (ce_unique_id \<circ> ?f) (set entries)"
  proof (rule inj_onI)
    fix x y assume xy: "x \<in> set entries" "y \<in> set entries" "(ce_unique_id \<circ> ?f) x = (ce_unique_id \<circ> ?f) y"
    have same: "ce_id x = ce_id y \<Longrightarrow> x = y" using inj(2) xy(1,2) by (auto dest: inj_onD)
    have uni: "url_of x = url_of y \<Longrightarrow> x = y" using inj_onD [OF inj(1), of x y] xy(1,2) u by simp
    show "x = y"
    proof (cases "ce_id x = ce_id y")
      case False
      then show ?thesis
        using xy u assms(2) [of x] assms(2) [of y] uni by (auto split: if_splits)
    qed (rule same)
  qed
  with inj(3) have "distinct (map ce_unique_id (map ?f entries))" by (simp add: distinct_map)
  moreover have "distinct (map ce_id (map ?f entries))" unfolding ids using assms(1) by (simp add: entries_ok_def)
  moreover have "\<forall>e \<in> set (map ?f entries). dget (ce_data e) CONF_CONTROLLER_URL PNone = PStr (url_of e) \<and> ce_unique_id e = Some (url_of e)"
    using assms by (auto simp: entries_ok_def)
  ultimately show ?thesis unfolding entries_ok_def by blast
qed

lemma fs_entries_effects [simp]:
  "fs_entries (snd (returnS r s)) = fs_entries s" "fs_entries (snd (getS g s)) = fs_entries s"
  "fs_entries (snd (raiseS e s)) = fs_entries s"
  by (simp_all add: act_defs)

lemma update_entry_state:
  "snd (update_entry i f s) = s\<lparr>fs_entries := map (\<lambda>e. if ce_id e = i then f e else e) (fs_entries s),
      fs_effects := UpdateEntry i # fs_effects s\<rparr>"
  by (simp add: update_entry_def modifyS_def)

lemma find_Some_props: "find P xs = Some x \<Longrightarrow> x \<in> set xs \<and> P x"
  by (auto simp: find_Some_iff)

lemma entry_of_Some: "entry_of i es = Some e \<Longrightarrow> e \<in> set es \<and> ce_id e = i"
  by (auto simp: entry_of_def dest: find_Some_props)

lemma entries_ok_at:
  assumes "entries_ok es" "e \<in> set es" "e' \<in> set es" "ce_id e' = ce_id e"
  shows "e' = e"
  using assms by (auto simp: entries_ok_def distinct_map dest: inj_onD)

lemma url_of_refresh: "dget (ce_data (refresh_entry url serial e)) CONF_CONTROLLER_URL PNone = PStr url"
  "url_of (refresh_entry url serial e) = url" "ce_id (refresh_entry url serial e) = ce_id e"
  "ce_unique_id (refresh_entry url serial e) = Some url"
proof -
  have "distinct (map fst [(CONF_CONTROLLER_URL, PStr url), (CONF_DEVICE_SERIAL, PStr serial)])" by (simp add: conf_keys)
  then show "dget (ce_data (refresh_entry url serial e)) CONF_CONTROLLER_URL PNone = PStr url"
    by (simp add: refresh_entry_def dget_merge)
  then show "url_of (refresh_entry url serial e) = url" by (simp add: url_of_def text_of_def)
qed (simp_all add: refresh_entry_def)

text \<open>What discovery does to the entries.\<close>

lemma ssdp_entries:
  "fs_entries (snd (step_ssdp env info s)) = fs_entries s \<or>
   (\<exists>host serial e. fe_unique_abort env (''https://'' @ host) (fs_entries s) = None \<and>
      find_entry_by_serial (fs_entries s) serial = Some e \<and>
      fs_entries (snd (step_ssdp env info s)) =
        map (\<lambda>e'. if ce_id e' = ce_id e then refresh_entry (''https://'' @ host) serial e' else e') (fs_entries s))"
proof -
  obtain h where "fe_hostname env (case sd_location info of None \<Rightarrow> [] | Some l \<Rightarrow> l) = h" by blast
  then show ?thesis
    by (cases h)
      (auto simp: step_ssdp_def bindS_def liftS_def returnS_def on_flow_def modifyS_def claim_unique_id_def getS_def Let_def
        step_user_def update_entry_def split: option.splits if_splits)
qed

lemma show_errors_state [simp]: "snd (bindS (liftS r) (\<lambda>x. returnS (g x)) s) = s"
  by (cases r) (simp_all add: bindS_def liftS_def returnS_def)

text \<open>What reconfiguration and re-authentication do to them.\<close>

lemma bindS_seq:
  "bindS (liftS (Inr x)) f s = f x s" "bindS (liftS (Inl e)) f s = raiseS e s" "bindS (getS g) f s = f (g s) s"
  "m s = (Inr y, s') \<Longrightarrow> bindS m f s = f y s'" "m s = (Inl e, s') \<Longrightarrow> bindS m f s = (Inl e, s')"
  by (simp_all add: bindS_def liftS_def getS_def raiseS_def)

lemma get_own_entry_run: "entry_of i (fs_entries s) = Some e \<Longrightarrow> get_own_entry i s = (Inr e, s)"
  "entry_of i (fs_entries s) = None \<Longrightarrow> get_own_entry i s = (Inl KeyError, s)"
  by (simp_all add: get_own_entry_def)

definition reconfigured :: "string \<Rightarrow> dict \<Rightarrow> string option \<Rightarrow> flow_entry list \<Rightarrow> flow_entry list" where
  "reconfigured i data u = map (\<lambda>e. if ce_id e = i then e\<lparr>ce_data := data,
      ce_unique_id := (case u of None \<Rightarrow> ce_unique_id e | Some v \<Rightarrow> Some v)\<rparr> else e)"

lemma update_reload_entries:
  "fs_entries (snd (update_reload_and_abort i data u s)) = reconfigured i data u (fs_entries s)"
  by (simp add: update_reload_and_abort_def bindS_def update_entry_def modifyS_def flow_emit_def returnS_def reconfigured_def)

lemma reconfigure_entries:
  assumes "entry_of i (fs_entries s) = Some e"
  shows "fs_entries (snd (step_reconfigure env i (Some ui) s)) \<in> {fs_entries s,
      reconfigured i (build_verify_ssl_and_secret_only_pending (fe_secret env) (ce_data e)
                        (parse_credentials_form_input ui (ce_data e))) None (fs_entries s)}
    \<or> (\<exists>url b. effective_url (ce_data e) (parse_credentials_form_input ui (ce_data e)) = Inr url \<and>
        url_changed (ce_data e) url = Inr b \<and> (b \<longrightarrow> find_duplicate_entry (fs_entries s) i url = None) \<and>
        fs_entries (snd (step_reconfigure env i (Some ui) s)) = reconfigured i
          (build_credentials_pending_data (fe_secret env) (ce_data e) url (parse_credentials_form_input ui (ce_data e)))
          (if b then Some url else None) (fs_entries s))"
proof -
  let ?p = "parse_credentials_form_input ui (ce_data e)"
  note unf = step_reconfigure_def Let_def get_own_entry_run(1) [OF assms] bindS_seq
  obtain u where u: "effective_url (ce_data e) ?p = u" by blast
  show ?thesis
  proof (cases u)
    case (Inr url)
    obtain v b where vb: "is_valid_url_scheme env url = v" "url_changed (ce_data e) url = b" by blast
    with u Inr show ?thesis
      by (cases v; cases b) (auto simp: unf update_reload_entries split: sum.splits)
  qed (use u in \<open>auto simp: unf update_reload_entries\<close>)
qed

definition reauthed :: "string \<Rightarrow> dict \<Rightarrow> flow_entry list \<Rightarrow> flow_entry list" where
  "reauthed i ui = map (\<lambda>e. if ce_id e = i then e\<lparr>ce_data := dict_merge (ce_data e) ui\<rparr> else e)"

lemma reauth_entries:
  "fs_entries (snd (step_reauth_confirm env submitted s)) = fs_entries s \<or>
   (\<exists>ui i. submitted = Some ui \<and> fs_entries (snd (step_reauth_confirm env submitted s)) = reauthed i ui (fs_entries s))"
proof (cases "submitted = None \<or> cf_reauth_entry (fs_flow s) = None")
  case False
  then obtain ui i where ui: "submitted = Some ui" "cf_reauth_entry (fs_flow s) = Some i" by auto
  show ?thesis
  proof (cases "entry_of i (fs_entries s)")
    case (Some e)
    with ui show ?thesis
      by (auto simp: step_reauth_confirm_def get_own_entry_run bindS_seq split: sum.splits)
        (auto simp: bindS_def update_entry_def flow_emit_def modifyS_def returnS_def reauthed_def [symmetric])
  qed (use ui in \<open>simp add: step_reauth_confirm_def get_own_entry_run bindS_seq\<close>)
qed (auto simp: step_reauth_confirm_def bindS_seq split: option.split)

lemma find_None_props: "find P xs = None \<Longrightarrow> x \<in> set xs \<Longrightarrow> \<not> P x"
  by (auto simp: find_None_iff)

lemma reconfigured_ok:
  assumes "entries_ok es" "entry_of i es = Some e" "dget data CONF_CONTROLLER_URL PNone = PStr u"
    and "new = None \<and> u = url_of e \<or> new = Some u \<and> (\<forall>e' \<in> set es. ce_id e' \<noteq> i \<longrightarrow> url_of e' \<noteq> u)"
  shows "entries_ok (reconfigured i data new es)"
  unfolding reconfigured_def
proof (rule entries_ok_update [OF assms(1)])
  fix e' assume e': "e' \<in> set es" "ce_id e' = i"
  have e: "e \<in> set es" "ce_id e = i" using entry_of_Some [OF assms(2)] by auto
  then have "e' = e" using entries_ok_at [OF assms(1) e(1) e'(1)] e' by simp
  moreover have "ce_unique_id e = Some (url_of e)" using assms(1) e by (simp add: entries_ok_def)
  ultimately show "ce_id (e'\<lparr>ce_data := data, ce_unique_id := (case new of None \<Rightarrow> ce_unique_id e' | Some v \<Rightarrow> Some v)\<rparr>) = i \<and>
      dget (ce_data (e'\<lparr>ce_data := data, ce_unique_id := (case new of None \<Rightarrow> ce_unique_id e' | Some v \<Rightarrow> Some v)\<rparr>)) CONF_CONTROLLER_URL PNone
       = PStr (url_of (e'\<lparr>ce_data := data, ce_unique_id := (case new of None \<Rightarrow> ce_unique_id e' | Some v \<Rightarrow> Some v)\<rparr>)) \<and>
      ce_unique_id (e'\<lparr>ce_data := data, ce_unique_id := (case new of None \<Rightarrow> ce_unique_id e' | Some v \<Rightarrow> Some v)\<rparr>)
       = Some (url_of (e'\<lparr>ce_data := data, ce_unique_id := (case new of None \<Rightarrow> ce_unique_id e' | Some v \<Rightarrow> Some v)\<rparr>)) \<and>
      (url_of (e'\<lparr>ce_data := data, ce_unique_id := (case new of None \<Rightarrow> ce_unique_id e' | Some v \<Rightarrow> Some v)\<rparr>) \<noteq> url_of e' \<longrightarrow>
        (\<forall>x \<in> set es. ce_id x \<noteq> i \<longrightarrow> url_of x \<noteq> url_of (e'\<lparr>ce_data := data, ce_unique_id := (case new of None \<Rightarrow> ce_unique_id e' | Some v \<Rightarrow> Some v)\<rparr>)))"
    using assms(3,4) e'(2) by (auto simp: url_of_def text_of_def)
qed

lemma no_duplicate_url:
  assumes "entries_ok es" "find_duplicate_entry es i url = None" "e' \<in> set es" "ce_id e' \<noteq> i"
  shows "url_of e' \<noteq> url"
  using assms find_None_props [OF assms(2) [unfolded find_duplicate_entry_def] assms(3)]
  by (auto simp: entries_ok_def)

text \<open>What the credentials form makes of an entry is again an entry with an identity of its own.\<close>

lemma credentials_ok:
  assumes "entries_ok es" "entry_of i es = Some e"
  defines "p ui \<equiv> parse_credentials_form_input ui (ce_data e)"
  shows "entries_ok (reconfigured i (build_verify_ssl_and_secret_only_pending secret (ce_data e) (p ui)) None es)"
    and "effective_url (ce_data e) (p ui) = Inr url \<Longrightarrow> url_changed (ce_data e) url = Inr b \<Longrightarrow>
      (b \<longrightarrow> find_duplicate_entry es i url = None) \<Longrightarrow>
      entries_ok (reconfigured i (build_credentials_pending_data secret (ce_data e) url (p ui)) (if b then Some url else None) es)"
proof -
  have e: "dget (ce_data e) CONF_CONTROLLER_URL PNone = PStr (url_of e)"
    using assms(1) entry_of_Some [OF assms(2)] by (simp add: entries_ok_def)
  have sep: "CONF_WEBHOOK_SECRET \<noteq> CONF_CONTROLLER_URL" "CONF_VERIFY_SSL \<noteq> CONF_CONTROLLER_URL" by (simp_all add: conf_keys)
  show "entries_ok (reconfigured i (build_verify_ssl_and_secret_only_pending secret (ce_data e) (p ui)) None es)"
    by (rule reconfigured_ok [OF assms(1,2)]) (use e sep in \<open>auto simp: dget_secret_only\<close>)
  assume u: "effective_url (ce_data e) (p ui) = Inr url" "url_changed (ce_data e) url = Inr b"
    "b \<longrightarrow> find_duplicate_entry es i url = None"
  have "b \<longleftrightarrow> url \<noteq> url_of e" using u(2) dget_present(2) [OF e] by (auto simp: url_changed_def)
  then show "entries_ok (reconfigured i (build_credentials_pending_data secret (ce_data e) url (p ui)) (if b then Some url else None) es)"
    using u(3) no_duplicate_url [OF assms(1)] sep
    by (intro reconfigured_ok [OF assms(1,2), of _ url]) (auto simp: dget_pending)
qed

text \<open>What an options flow has staged: nothing, or data whose URL is the entry's or nobody else's.\<close>

definition pending_ok :: "flow_entry list \<Rightarrow> string \<Rightarrow> dict \<Rightarrow> bool" where
  "pending_ok es i pending \<longleftrightarrow> pending = [] \<or> (\<exists>e u. entry_of i es = Some e \<and> dget pending CONF_CONTROLLER_URL PNone = PStr u \<and>
     (u \<noteq> url_of e \<longrightarrow> u \<noteq> [] \<and> (\<forall>e' \<in> set es. ce_id e' \<noteq> i \<longrightarrow> url_of e' \<noteq> u)))"

definition staged_ok :: "flow_entry list \<Rightarrow> flow_effect list \<Rightarrow> string \<Rightarrow> options_flow flow_state \<Rightarrow> bool" where
  "staged_ok es fx i s \<longleftrightarrow> outside es fx i s \<and> pending_ok es i (of_pending_data (fs_flow s))"

lemma keeps_stage_pending:
  "(\<And>f. of_pending_data (h f) = of_pending_data f) \<Longrightarrow> keepsS (\<lambda>s. of_pending_data (fs_flow s) = pd) (on_flow h)"
  by (simp add: keepsS_def on_flow_def modifyS_def)

lemma keeps_pending_review: "keepsS (\<lambda>s. of_pending_data (fs_flow s) = pd) (options_finish env None)"
  unfolding options_finish_def Let_def by (auto intro!: keepsS_bind)

lemma keeps_pending: "keepsS (\<lambda>s. of_pending_data (fs_flow s) = pd) (options_categories env ui)"
  unfolding options_categories_def Let_def
  by (auto intro!: keepsS_bind keeps_stage_pending keeps_pending_review split: option.splits)

lemma pending_after_categories:
  "of_pending_data (fs_flow (snd (bindS (on_flow (\<lambda>f. f\<lparr>of_pending_data := pd\<rparr>)) (\<lambda>_. options_categories env ui) s))) = pd"
  "of_pending_data (fs_flow (snd (options_categories env ui s))) = of_pending_data (fs_flow s)"
  using keeps_pending [of _ env ui] by (auto simp: bindS_def on_flow_def modifyS_def keepsS_def)

lemma credentials_pending:
  assumes "entry_of (of_entry (fs_flow s)) (fs_entries s) = Some e"
  defines "p ui \<equiv> parse_credentials_form_input ui (ce_data e)"
  shows "of_pending_data (fs_flow (snd (options_credentials env (Some ui) s))) \<in> {of_pending_data (fs_flow s),
      build_verify_ssl_and_secret_only_pending (fe_secret env) (ce_data e) (p ui)}
    \<or> (\<exists>url b. effective_url (ce_data e) (p ui) = Inr url \<and> is_valid_url_scheme env url = Inr True \<and>
        url_changed (ce_data e) url = Inr b \<and> (b \<longrightarrow> find_duplicate_entry (fs_entries s) (of_entry (fs_flow s)) url = None) \<and>
        of_pending_data (fs_flow (snd (options_credentials env (Some ui) s)))
          = build_credentials_pending_data (fe_secret env) (ce_data e) url (p ui))"
proof -
  note unf = options_credentials_def Let_def get_own_entry_run(1) [OF assms(1)] bindS_seq p_def pending_after_categories
    returnS_def raiseS_def
  obtain u where u: "effective_url (ce_data e) (p ui) = u" by blast
  show ?thesis
  proof (cases u)
    case (Inr url)
    obtain v b where vb: "is_valid_url_scheme env url = v" "url_changed (ce_data e) url = b" by blast
    with u Inr show ?thesis
      by (cases v; cases b) (auto simp: unf show_errors_state [unfolded returnS_def] split: sum.splits)
  qed (use u in \<open>auto simp: unf\<close>)
qed

lemma options_step_staged:
  assumes "staged_ok es fx i s" "entries_ok es" "entry_of i es = Some e"
    and "\<And>env ui. ev = Credentials env ui \<Longrightarrow> fe_scheme env [] = Inr []"
  shows "staged_ok es fx i (options_step s ev)"
proof -
  have out: "outside es fx i (options_step s ev)"
    using assms(1) keeps_options_step by (simp add: staged_ok_def)
  have fs: "fs_entries s = es" "of_entry (fs_flow s) = i" using assms(1) by (simp_all add: staged_ok_def outside_def)
  have own: "entry_of (of_entry (fs_flow s)) (fs_entries s) = Some e" using fs assms(3) by simp
  have e: "dget (ce_data e) CONF_CONTROLLER_URL PNone = PStr (url_of e)"
    using assms(2) entry_of_Some [OF assms(3)] by (simp add: entries_ok_def)
  have sep: "CONF_WEBHOOK_SECRET \<noteq> CONF_CONTROLLER_URL" "CONF_VERIFY_SSL \<noteq> CONF_CONTROLLER_URL" by (simp_all add: conf_keys)
  have "pending_ok es i (of_pending_data (fs_flow (options_step s ev)))"
  proof (cases ev)
    case (Credentials env submitted)
    show ?thesis
    proof (cases submitted)
      case None
      then show ?thesis using Credentials assms(1) own
        by (simp add: options_credentials_def bindS_seq get_own_entry_run returnS_def staged_ok_def)
    next
      case (Some ui)
      have scheme: "url \<noteq> []" if "is_valid_url_scheme env url = Inr True" for url
        using that assms(4) [OF Credentials] by (auto simp: is_valid_url_scheme_def)
      have changed: "b \<longleftrightarrow> url \<noteq> url_of e" if "url_changed (ce_data e) url = Inr b" for url b
        using that dget_present(2) [OF e] by (auto simp: url_changed_def)
      show ?thesis
        using credentials_pending [OF own, of env ui] assms(1,3) e sep scheme changed no_duplicate_url [OF assms(2)] fs
        unfolding Credentials Some staged_ok_def options_step.simps
        by (auto simp: pending_ok_def dget_secret_only dget_pending)
    qed
  next
    case (Categories env ui)
    then show ?thesis using assms(1) by (simp add: staged_ok_def pending_after_categories)
  next
    case (Review env)
    then show ?thesis using assms(1) own
      by (simp add: options_finish_def bindS_seq get_own_entry_run returnS_def staged_ok_def Let_def)
  qed
  with out show ?thesis by (simp add: staged_ok_def)
qed

lemma options_commit_ok:
  assumes "staged_ok es fx i s" "entries_ok es" "entry_of i es = Some e"
  shows "entries_ok (fs_entries (snd (options_finish env (Some x) s)))"
proof -
  let ?pd = "of_pending_data (fs_flow s)"
  have fs: "fs_entries s = es" "of_entry (fs_flow s) = i" "pending_ok es i ?pd"
    using assms(1) by (simp_all add: staged_ok_def outside_def)
  have e: "dget (ce_data e) CONF_CONTROLLER_URL PNone = PStr (url_of e)"
    using assms(2) entry_of_Some [OF assms(3)] by (simp add: entries_ok_def)
  have own: "entry_of (of_entry (fs_flow s)) (fs_entries s) = Some e" using fs assms(3) by simp
  show ?thesis
  proof (cases "?pd = []")
    case True
    then show ?thesis using options_commit [OF own, of env x] fs assms(2) by simp
  next
    case False
    then obtain u where u: "dget ?pd CONF_CONTROLLER_URL PNone = PStr u"
      "u \<noteq> url_of e \<longrightarrow> u \<noteq> [] \<and> (\<forall>e' \<in> set es. ce_id e' \<noteq> i \<longrightarrow> url_of e' \<noteq> u)"
      using fs(3) assms(3) by (auto simp: pending_ok_def)
    have "entries_ok (reconfigured i ?pd (if u \<noteq> url_of e then Some u else None) es)"
      using u by (intro reconfigured_ok [OF assms(2,3) u(1)]) auto
    moreover have "fs_entries (snd (options_finish env (Some x) s)) = reconfigured i ?pd (if u \<noteq> url_of e then Some u else None) es"
      using options_commit [OF own, of env x] False u e fs
      by (auto simp: reconfigured_def text_of_def)
    ultimately show ?thesis by simp
  qed
qed

lemma ssdp_ok:
  assumes "entries_ok (fs_entries s)"
    and "\<And>url es. fe_unique_abort env url es = None \<Longrightarrow> Some url \<notin> ce_unique_id ` set es"
  shows "entries_ok (fs_entries (snd (step_ssdp env info s)))"
  using ssdp_entries [of env info s]
proof
  assume "\<exists>host serial e. fe_unique_abort env (''https://'' @ host) (fs_entries s) = None \<and>
      find_entry_by_serial (fs_entries s) serial = Some e \<and>
      fs_entries (snd (step_ssdp env info s)) =
        map (\<lambda>e'. if ce_id e' = ce_id e then refresh_entry (''https://'' @ host) serial e' else e') (fs_entries s)"
  then obtain host serial and e :: flow_entry where h: "fe_unique_abort env (''https://'' @ host) (fs_entries s) = None"
    and m: "fs_entries (snd (step_ssdp env info s)) =
        map (\<lambda>e'. if ce_id e' = ce_id e then refresh_entry (''https://'' @ host) serial e' else e') (fs_entries s)" by blast
  have "url_of e' \<noteq> ''https://'' @ host" if "e' \<in> set (fs_entries s)" for e'
    using assms(2) [OF h] assms(1) that by (force simp: entries_ok_def image_iff)
  with m show ?thesis by (simp add: entries_ok_update [OF assms(1)] url_of_refresh)
qed (use assms in simp)

lemma reauthed_ok:
  assumes "entries_ok es" "distinct (map fst ui)" "CONF_CONTROLLER_URL \<notin> fst ` set ui"
  shows "entries_ok (reauthed i ui es)"
proof -
  have k: "dget (dict_merge d ui) CONF_CONTROLLER_URL v = dget d CONF_CONTROLLER_URL v" for d v
    using assms(2,3) by (simp add: dget_merge map_of_eq_None_iff [THEN iffD2])
  have "url_of (e\<lparr>ce_data := dict_merge (ce_data e) ui\<rparr>) = url_of e" for e :: flow_entry
    by (simp add: url_of_def k)
  with assms(1) k show ?thesis
    unfolding reauthed_def by (intro entries_ok_update) (auto simp: entries_ok_def)
qed

text \<open>C15: no flow makes two entries share an identity. If every entry's unique id is its controller URL
  and they are distinct, then they are after discovery has refreshed an entry, after a reconfiguration,
  after a re-authentication, and after an options flow, whatever has been submitted to its steps,
  has been committed.\<close>

theorem flows_keep_unique_ids:
  assumes "entries_ok (fs_entries s)" "entries_ok (fs_entries t)"
    and "\<And>url es. fe_unique_abort env url es = None \<Longrightarrow> Some url \<notin> ce_unique_id ` set es"
    and "distinct (map fst form)" "CONF_CONTROLLER_URL \<notin> fst ` set form"
    and "entry_of i (fs_entries s) = Some e"
    and "entry_of (of_entry (fs_flow t)) (fs_entries t) = Some e'" "of_pending_data (fs_flow t) = []"
    and "\<And>env' ui'. Credentials env' ui' \<in> set events \<Longrightarrow> fe_scheme env' [] = Inr []"
  shows "entries_ok (fs_entries (snd (step_ssdp env info s))) \<and>
    entries_ok (fs_entries (snd (step_reconfigure env i (Some ui) s))) \<and>
    entries_ok (fs_entries (snd (step_reauth_confirm env (Some form) s))) \<and>
    entries_ok (fs_entries (snd (options_finish env (Some x) (foldl options_step t events))))"
proof (intro conjI)
  show "entries_ok (fs_entries (snd (step_ssdp env info s)))" using assms(1,3) by (rule ssdp_ok)
  show "entries_ok (fs_entries (snd (step_reconfigure env i (Some ui) s)))"
    using reconfigure_entries [OF assms(6), of env ui]
  proof
    assume "\<exists>url b. effective_url (ce_data e) (parse_credentials_form_input ui (ce_data e)) = Inr url \<and>
        url_changed (ce_data e) url = Inr b \<and> (b \<longrightarrow> find_duplicate_entry (fs_entries s) i url = None) \<and>
        fs_entries (snd (step_reconfigure env i (Some ui) s)) = reconfigured i
          (build_credentials_pending_data (fe_secret env) (ce_data e) url (parse_credentials_form_input ui (ce_data e)))
          (if b then Some url else None) (fs_entries s)"
    then show ?thesis using credentials_ok(2) [OF assms(1,6)] by (elim exE conjE) metis
  qed (use assms(1) credentials_ok(1) [OF assms(1,6)] in auto)
  show "entries_ok (fs_entries (snd (step_reauth_confirm env (Some form) s)))"
    using reauth_entries [of env "Some form" s] assms(1) reauthed_ok [OF assms(1,4,5)] by auto
  let ?ok = "staged_ok (fs_entries t) (fs_effects t) (of_entry (fs_flow t))"
  have "?ok t" using assms(8) by (simp add: staged_ok_def outside_def pending_ok_def)
  then have "?ok (foldl options_step t events)"
    using assms(9)
  proof (induction events arbitrary: rule: rev_induct)
    case (snoc ev evs)
    then have "?ok (foldl options_step t evs)" by auto
    then show ?case
      using options_step_staged [OF _ assms(2,7), of _ _ ev] snoc.prems(2) by auto
  qed simp
  from options_commit_ok [OF this assms(2,7)]
  show "entries_ok (fs_entries (snd (options_finish env (Some x) (foldl options_step t events))))" .
qed

lemma flows_keep_unique_ids_witness:
  "entries_ok (fs_entries (snd (options_finish (demo_flow_env empty_net) (Some [])
     (foldl options_step (flow_start (new_options_flow ''e'') [flow_entry_at ''e'' ''https://u'' ''S'', flow_entry_at ''f'' ''https://w'' ''T''])
        [Credentials (demo_flow_env empty_net) (Some [(CONF_CONTROLLER_URL, PStr ''https://v/'')])]))))"
proof -
  let ?es = "[flow_entry_at ''e'' ''https://u'' ''S'', flow_entry_at ''f'' ''https://w'' ''T'']"
  let ?e = "flow_entry_at ''e'' ''https://u'' ''S''" and ?env = "demo_flow_env empty_net"
  have "entries_ok ?es"
    by (simp add: entries_ok_def flow_entry_at_def url_of_def text_of_def)
  moreover have "entry_of ''e'' ?es = Some ?e" by (simp add: entry_of_def flow_entry_at_def)
  moreover have "fe_unique_abort ?env url es = None \<Longrightarrow> Some url \<notin> ce_unique_id ` set es" for url es
    by (auto simp: demo_flow_env_def list_ex_iff split: if_splits)
  moreover have "fe_scheme ?env [] = Inr []" by (simp add: demo_flow_env_def)
  ultimately show ?thesis
    using flows_keep_unique_ids [of "flow_start new_config_flow ?es" "flow_start (new_options_flow ''e'') ?es" ?env "[]" "''e''" ?e ?e
        "[Credentials ?env (Some [(CONF_CONTROLLER_URL, PStr ''https://v/'')])]"]
    by (simp add: flow_start_def new_options_flow_def)
qed

subsection \<open>Where the identity breaks\<close>

text \<open>The URL the first form was submitted with goes into the data as typed, trailing slash included,
  while the unique id and the comparisons use it without. The entry the created data becomes:\<close>

definition as_entry :: "string \<Rightarrow> config_flow \<Rightarrow> dict \<Rightarrow> flow_entry" where
  "as_entry i flow data = \<lparr> ce_id = i, ce_version = 4, ce_data = data, ce_options = [], ce_unique_id = cf_unique_id flow \<rparr>"

text \<open>An entry created with the URL \<^verbatim>\<open>https://u/\<close> does not stop another entry from being reconfigured
  to \<^verbatim>\<open>https://u\<close>: the duplicate is not found, and the two entries end with the same unique id.\<close>

theorem trailing_slash_hides_duplicate:
  "case created (flow_start new_config_flow []) of
     (Inr (CreateEntry title d), s) \<Rightarrow>
       (let other = flow_entry_at ''f'' ''https://w'' ''T'';
            s' = snd (step_reconfigure (demo_flow_env empty_net) ''f'' (Some [(CONF_CONTROLLER_URL, PStr ''https://u'')])
                   (flow_start new_config_flow [as_entry ''e'' (fs_flow s) d, other]))
        in map ce_unique_id (fs_entries s') = [Some ''https://u'', Some ''https://u''])
   | _ \<Rightarrow> False"
  by code_simp

subsection \<open>Discovery\<close>

lemma dget_refresh:
  "dget (ce_data (refresh_entry url serial e)) k v =
     (if k = CONF_CONTROLLER_URL then PStr url else if k = CONF_DEVICE_SERIAL then PStr serial else dget (ce_data e) k v)"
proof -
  have "distinct (map fst [(CONF_CONTROLLER_URL, PStr url), (CONF_DEVICE_SERIAL, PStr serial)])" by (simp add: conf_keys)
  from dget_merge [OF this] show ?thesis by (simp add: refresh_entry_def conf_keys)
qed



subsection \<open>Re-authentication\<close>

lemma bindS_seq2: "bindS (on_flow h) f s = f () (s\<lparr>fs_flow := h (fs_flow s)\<rparr>)"
  "bindS (flow_emit e) f s = f () (s\<lparr>fs_effects := e # fs_effects s\<rparr>)"
  "bindS (returnS x) g s = g x s"
  by (simp_all add: bindS_def on_flow_def flow_emit_def modifyS_def returnS_def)

text \<open>C36: re-authentication repairs an entry and nothing else. It starts with one issue, which
  explains the migration exactly when the entry holds no key; a submission ends the flow only if the controller
  has accepted it at the entry's URL, and then merges the submitted fields into the entry's data, removes
  the issue and reloads the entry; any other submission changes nothing.\<close>

theorem reauth_repairs_entry:
  assumes "entry_of i (fs_entries s) = Some e" "distinct (map fst ui)"
    and "step_reauth env i s = (r\<^sub>1, s\<^sub>1)" "step_reauth_confirm env' (Some ui) s\<^sub>1 = (r, s\<^sub>2)"
  shows "\<exists>issue. fs_entries s\<^sub>1 = fs_entries s \<and> fs_effects s\<^sub>1 = CreateIssue issue # fs_effects s \<and>
    issue = (if truthy (dget (ce_data e) CONF_API_KEY PNone) then auth_failed_issue i else apikey_migration_issue i) \<and>
    (if fst (authenticate (fe_net env') (new_client (text_of (dget (ce_data e) CONF_CONTROLLER_URL (PStr []))) ui)) = Inr ()
     then r = Inr (Abort ''reauth_successful'') \<and>
       (\<exists>new. fs_effects s\<^sub>2 = new @ fs_effects s\<^sub>1 \<and> DeleteIssue issue \<in> set new \<and> Reload i \<in> set new) \<and>
       (\<exists>upd. fs_entries s\<^sub>2 = map (\<lambda>e'. if ce_id e' = i then upd e' else e') (fs_entries s) \<and>
          ce_unique_id (upd e) = ce_unique_id e \<and> ce_options (upd e) = ce_options e \<and>
          (\<forall>k v. dget (ce_data (upd e)) k v = (case map_of ui k of Some w \<Rightarrow> w | None \<Rightarrow> dget (ce_data e) k v)))
     else r \<noteq> Inr (Abort ''reauth_successful'') \<and> s\<^sub>2 = s\<^sub>1)"
proof -
  let ?issue = "if truthy (dget (ce_data e) CONF_API_KEY PNone) then auth_failed_issue i else apikey_migration_issue i"
  let ?auth = "fst (authenticate (fe_net env') (new_client (text_of (dget (ce_data e) CONF_CONTROLLER_URL (PStr []))) ui))"
  have i: "ce_id e = i" using entry_of_Some [OF assms(1)] by simp
  have s1: "s\<^sub>1 = s\<lparr>fs_flow := (fs_flow s)\<lparr>cf_reauth_entry := Some i\<rparr>, fs_effects := CreateIssue ?issue # fs_effects s\<rparr>"
    using assms(3) i by (simp add: step_reauth_def step_reauth_confirm_def bindS_seq bindS_seq2 assms(1)
        entry_needs_apikey_migration_def returnS_def split: if_splits)
  have flow: "cf_reauth_entry (fs_flow s\<^sub>1) = Some i" "fs_entries s\<^sub>1 = fs_entries s"
      "fs_effects s\<^sub>1 = CreateIssue ?issue # fs_effects s" by (simp_all add: s1)
  have own: "get_own_entry i s\<^sub>1 = (Inr e, s\<^sub>1)" using assms(1) s1 by (simp add: get_own_entry_def)
  show ?thesis
  proof (cases "?auth = Inr ()")
    case True
    have run: "step_reauth_confirm env' (Some ui) s\<^sub>1 = (Inr (Abort ''reauth_successful''),
       s\<^sub>1\<lparr>fs_entries := map (\<lambda>e'. if ce_id e' = i then e'\<lparr>ce_data := dict_merge (ce_data e') ui\<rparr> else e') (fs_entries s),
          fs_effects := [Reload i, DeleteIssue (apikey_migration_issue i), DeleteIssue (auth_failed_issue i), UpdateEntry i]
             @ fs_effects s\<^sub>1\<rparr>)"
      using flow(1,2) True
      by (simp add: step_reauth_confirm_def bindS_seq own)
        (simp add: bindS_def update_entry_def modifyS_def flow_emit_def returnS_def)
    show ?thesis
      using assms(4) unfolding run
      by (intro exI [of _ ?issue] conjI) (auto simp: flow True dget_merge [OF assms(2)] split: option.splits
          intro!: exI [of _ "\<lambda>e'. e'\<lparr>ce_data := dict_merge (ce_data e') ui\<rparr>"])
  next
    case False
    then obtain err where err: "?auth = Inl err" by (cases ?auth) auto
    have "step_reauth_confirm env' (Some ui) s\<^sub>1 =
        (case reauth_errors err of Inl x \<Rightarrow> Inl x | Inr es \<Rightarrow> Inr (reauth_form es), s\<^sub>1)"
      using flow err
      by (cases "reauth_errors err") (simp_all add: step_reauth_confirm_def bindS_seq own returnS_def raiseS_def)
    with assms(4) have "s\<^sub>2 = s\<^sub>1 \<and> r \<noteq> Inr (Abort ''reauth_successful'')"
      by (auto simp: reauth_form_def split: sum.splits)
    with False flow show ?thesis by simp
  qed
qed

lemma reauth_repairs_entry_witness:
  "\<exists>s2. step_reauth_confirm (demo_flow_env empty_net) (Some [(CONF_API_KEY, PStr ''new'')])
      (snd (step_reauth (demo_flow_env empty_net) ''e'' (flow_start new_config_flow [flow_entry_at ''e'' ''https://u'' ''S''])))
      = (Inr (Abort ''reauth_successful''), s2) \<and> Reload ''e'' \<in> set (fs_effects s2)"
proof -
  let ?s = "flow_start new_config_flow [flow_entry_at ''e'' ''https://u'' ''S'']" and ?env = "demo_flow_env empty_net"
  let ?ui = "[(CONF_API_KEY, PStr ''new'')]" and ?e = "flow_entry_at ''e'' ''https://u'' ''S''"
  obtain r1 s1 where 1: "step_reauth ?env ''e'' ?s = (r1, s1)" by fastforce
  obtain r s2 where 2: "step_reauth_confirm ?env (Some ?ui) s1 = (r, s2)" by fastforce
  have "entry_of ''e'' (fs_entries ?s) = Some ?e" by (simp add: entry_of_def flow_start_def flow_entry_at_def)
  moreover have "fst (authenticate (fe_net ?env) (new_client (text_of (dget (ce_data ?e) CONF_CONTROLLER_URL (PStr []))) ?ui)) = Inr ()"
    by code_simp
  ultimately show ?thesis
    using reauth_repairs_entry [OF _ _ 1 2] 1 2 by auto
qed

subsection \<open>The options form shows the settings in force\<close>

text \<open>What a form submits when nothing is touched.\<close>

definition untouched :: "form_field list \<Rightarrow> dict" where
  "untouched schema = concat (map (\<lambda>f. case ff_default f of None \<Rightarrow> [] | Some v \<Rightarrow> [(ff_name f, v)]) schema)"

lemma untouched_categories:
  assumes "cat \<in> set ALL_CATEGORIES"
  shows "dget (untouched (categories_schema on widget poll clear site)) (''cat_'' @ cat) v = PBool (on cat)"
    and "dget (untouched (categories_schema on widget poll clear site)) (''min_severity_'' @ cat) v = PStr (widget cat)"
  using assms
  by (auto simp: untouched_def categories_schema_def setting_field_def ALL_CATEGORIES_def category_defs conf_keys)

lemmas untouched_at = untouched_categories [unfolded append.simps]

lemma untouched_settings:
  "dget (untouched (categories_schema on widget poll clear site)) CONF_POLL_INTERVAL v = poll"
  "dget (untouched (categories_schema on widget poll clear site)) CONF_CLEAR_TIMEOUT v = clear"
  "dget (untouched (categories_schema on widget poll clear site)) CONF_SITE v = site"
  by (simp_all add: untouched_def categories_schema_def setting_field_def ALL_CATEGORIES_def category_defs conf_keys)

text \<open>The two tables of the severity widget are inverse to each other.\<close>

definition widget_of :: "string \<Rightarrow> string" where
  "widget_of m = (case map_of MIN_SEVERITY_TO_WIDGET m of None \<Rightarrow> MIN_SEVERITY_NO_FILTER | Some w \<Rightarrow> w)"

definition minimum_of :: "string \<Rightarrow> string" where
  "minimum_of w = (case map_of WIDGET_TO_MIN_SEVERITY w of None \<Rightarrow> MIN_SEVERITY_NO_FILTER | Some m \<Rightarrow> m)"

lemma widget_roundtrip: "minimum_of (widget_of m) = (if m \<in> set MIN_SEVERITY_ORDER then m else MIN_SEVERITY_NO_FILTER)"
  by (simp add: minimum_of_def widget_of_def WIDGET_TO_MIN_SEVERITY_def MIN_SEVERITY_TO_WIDGET_def MIN_SEVERITY_ORDER_def
      SEVERITY_ORDER_def severity_defs)

interpretation severity_widget: codec widget_of "\<lambda>w. Some (minimum_of w)" "\<lambda>m. m \<in> set MIN_SEVERITY_ORDER"
  by unfold_locales (simp add: widget_roundtrip)

text \<open>The setting in force is the one of the merged configuration.\<close>

lemma setting_merged:
  "distinct (map fst (ce_options e)) \<Longrightarrow> setting e k v = dget (merged_config e) k v"
  by (simp add: setting_def merged_config_def dget_merge) (simp add: dget_def [of "ce_options e"])

lemma effective_widget:
  "get_effective_min_severity config cat = minimum_of (widget_of (text_of (dget
     (case dget config CONF_MIN_SEVERITY (PDict []) of PDict m \<Rightarrow> m | _ \<Rightarrow> []) cat (PStr MIN_SEVERITY_NO_FILTER))))"
proof -
  have "[] \<notin> set MIN_SEVERITY_ORDER" by code_simp
  then show ?thesis
    by (simp add: get_effective_min_severity_def Let_def widget_roundtrip text_of_def split: pyval.split)
qed

text \<open>The categories form of the options flow shows the settings in force, and submitting it
  untouched keeps them: the options it stages give every category the same minimum severity and the
  same enablement, and the same interval, timeout and site, as the merged configuration of the entry.\<close>

theorem untouched_options_keep_settings:
  assumes "entry_of (of_entry (fs_flow s)) (fs_entries s) = Some e" "distinct (map fst (ce_options e))"
    and "options_categories env None s = (Inr (ShowForm st sch errs ph), s\<^sub>0)"
    and "options_categories env' (Some (untouched sch)) s = (Inr (ShowForm ''finish'' sch' errs' ph'), s\<^sub>1)"
  defines "old \<equiv> merged_config (config_entry.truncate e)" and "new \<equiv> of_pending_options (fs_flow s\<^sub>1)"
  shows "dget new CONF_POLL_INTERVAL v = dget old CONF_POLL_INTERVAL (PInt DEFAULT_POLL_INTERVAL) \<and>
    dget new CONF_CLEAR_TIMEOUT v = dget old CONF_CLEAR_TIMEOUT (PInt DEFAULT_CLEAR_TIMEOUT) \<and>
    dget new CONF_SITE v = dget old CONF_SITE (PStr DEFAULT_SITE) \<and>
    (\<forall>cat \<in> set ALL_CATEGORIES. get_effective_min_severity new cat = get_effective_min_severity old cat \<and>
       (PStr cat \<in> set (enabled_of new) \<longleftrightarrow> PStr cat \<in> set (enabled_of old)))"
proof -
  let ?e = "config_entry.truncate e"
  have set: "setting ?e k v = dget old k v" for k v
    unfolding old_def by (rule setting_merged) (use assms(2) in \<open>simp add: config_entry.defs\<close>)
  let ?on = "\<lambda>cat. PStr cat \<in> set (enabled_of old)"
  let ?w = "\<lambda>cat. widget_of (text_of (dget (case dget old CONF_MIN_SEVERITY (PDict []) of PDict m \<Rightarrow> m | _ \<Rightarrow> []) cat
              (PStr MIN_SEVERITY_NO_FILTER)))"
  have sch: "sch = categories_schema ?on ?w (dget old CONF_POLL_INTERVAL (PInt DEFAULT_POLL_INTERVAL))
      (dget old CONF_CLEAR_TIMEOUT (PInt DEFAULT_CLEAR_TIMEOUT)) (dget old CONF_SITE (PStr DEFAULT_SITE))"
    using assms(3)
    by (simp add: options_categories_def bindS_Inr get_own_entry_eq assms(1) returnS_Inr options_categories_form_def Let_def
        set enabled_of_def widget_of_def)
  have sev: "severity_text (untouched sch)"
    by (simp add: sch severity_text_def untouched_at)
  have min: "stored_severity (untouched sch) cat = get_effective_min_severity old cat" if "cat \<in> set ALL_CATEGORIES" for cat
    using that effective_widget [of old cat]
    by (simp add: sch stored_severity_def untouched_at minimum_of_def text_of_def)
  have sel: "selected_categories (untouched sch) = filter ?on ALL_CATEGORIES"
    by (simp add: sch selected_categories_def untouched_at cong: filter_cong)
  have new: "new = category_settings (untouched sch) (filter ?on ALL_CATEGORIES) (dget (untouched sch) CONF_SITE (PStr DEFAULT_SITE))
        (map (\<lambda>cat. (cat, PStr (stored_severity (untouched sch) cat))) ALL_CATEGORIES)"
    using options_to_finish [OF assms(4) sev] by (simp add: new_def sel)
  have n: "dget new CONF_POLL_INTERVAL v = dget (untouched sch) CONF_POLL_INTERVAL (PInt DEFAULT_POLL_INTERVAL)"
      "dget new CONF_CLEAR_TIMEOUT v = dget (untouched sch) CONF_CLEAR_TIMEOUT (PInt DEFAULT_CLEAR_TIMEOUT)"
      "dget new CONF_SITE v = dget (untouched sch) CONF_SITE (PStr DEFAULT_SITE)"
      "dget new CONF_ENABLED_CATEGORIES v = PList (map PStr (filter ?on ALL_CATEGORIES))"
      "dget new CONF_MIN_SEVERITY v = PDict (map (\<lambda>cat. (cat, PStr (stored_severity (untouched sch) cat))) ALL_CATEGORIES)" for v
    by (simp_all add: new category_settings_def conf_keys)
  have "get_effective_min_severity new cat = get_effective_min_severity old cat" if "cat \<in> set ALL_CATEGORIES" for cat
  proof -
    have "get_effective_min_severity old cat \<in> set MIN_SEVERITY_ORDER" by (rule effective_range)
    with that show ?thesis
      by (simp add: get_effective_min_severity_def [of new] n min [OF that, symmetric])
        (simp add: dget_def map_of_pairs)
  qed
  moreover have "PStr cat \<in> set (enabled_of new) \<longleftrightarrow> PStr cat \<in> set (enabled_of old)" if "cat \<in> set ALL_CATEGORIES" for cat
    using that by (auto simp: enabled_of_def [of new] n image_iff)
  ultimately show ?thesis by (simp add: n sch untouched_settings)
qed

definition tuned_entry :: flow_entry where
  "tuned_entry = (flow_entry_at ''e'' ''https://u'' ''S'')\<lparr>ce_options :=
     [(CONF_ENABLED_CATEGORIES, PList [PStr CATEGORY_POWER]), (CONF_POLL_INTERVAL, PInt 15),
      (CONF_MIN_SEVERITY, PDict [(CATEGORY_POWER, PStr SEVERITY_VERY_HIGH)])]\<rparr>"

lemma untouched_options_keep_settings_witness:
  "\<exists>st sch errs ph s0 r s1. options_categories (demo_flow_env empty_net) None (flow_start (new_options_flow ''e'') [tuned_entry])
      = (Inr (ShowForm st sch errs ph), s0) \<and>
    options_categories (demo_flow_env empty_net) (Some (untouched sch)) (flow_start (new_options_flow ''e'') [tuned_entry]) = (Inr r, s1) \<and>
    dget (of_pending_options (fs_flow s1)) CONF_POLL_INTERVAL PNone = PInt 15"
proof -
  let ?env = "demo_flow_env empty_net" and ?s = "flow_start (new_options_flow ''e'') [tuned_entry]"
  have own: "entry_of (of_entry (fs_flow ?s)) (fs_entries ?s) = Some tuned_entry"
    by (simp add: entry_of_def flow_start_def new_options_flow_def tuned_entry_def flow_entry_at_def)
  obtain st sch errs ph where 1: "options_categories ?env None ?s = (Inr (ShowForm st sch errs ph), ?s)"
    using own by (simp add: options_categories_def bindS_def getS_def get_own_entry_def returnS_def options_categories_form_def Let_def)
  have "case options_categories ?env None ?s of (Inr (ShowForm _ sch _ _), _) \<Rightarrow>
      (case options_categories ?env (Some (untouched sch)) ?s of (Inr (ShowForm st _ _ _), _) \<Rightarrow> st = ''finish'' | _ \<Rightarrow> False)
    | _ \<Rightarrow> False" by code_simp
  with 1 obtain sch' errs' ph' s1 where 2: "options_categories ?env (Some (untouched sch)) ?s = (Inr (ShowForm ''finish'' sch' errs' ph'), s1)"
    by (auto split: prod.splits sum.splits flow_result.splits)
  have "distinct (map fst (ce_options tuned_entry))" by code_simp
  moreover have "dget (merged_config (config_entry.truncate tuned_entry)) CONF_POLL_INTERVAL (PInt DEFAULT_POLL_INTERVAL) = PInt 15"
    by code_simp
  ultimately show ?thesis
    using untouched_options_keep_settings [OF own _ 1 2] 1 2 by auto
qed

end
