(* ===== verification/Panel.thy ===== *)
theory Panel
  imports EntityProps
begin

section \<open>The coordinator as an alarm panel\<close>

text \<open>
  What the coordinator promises its users, without tasks, store, pushes and watermarks: a panel with a
  lamp, a counter and a deadline per category. The panel has four actions. The coordinator's
  operations implement them: the locale \<open>simulation\<close> states what has to be shown of one step, and
  lifts it to runs.
\<close>

subsection \<open>The panel\<close>

record lamp =
  lm_on :: bool
  lm_count :: int
  lm_due :: "int option"

datatype action =
    Alarm string int
  | Acknowledge "string list"
  | Timeout string int
  | Observe "string list" int

text \<open>An action on the lamp of a category. An alarm lights it, counts and sets the deadline anew; an
  acknowledgement turns it off; a timeout does so once the deadline has passed; an observation
  of open alarms only lights lamps that are off, and does not count.\<close>

fun act_on :: "action \<Rightarrow> string \<Rightarrow> lamp \<Rightarrow> lamp" where
  "act_on (Alarm c due) cat l =
     (if cat = c then \<lparr> lm_on = True, lm_count = lm_count l + 1, lm_due = Some due \<rparr> else l)"
| "act_on (Acknowledge cs) cat l =
     (if cat \<in> set cs then \<lparr> lm_on = False, lm_count = lm_count l, lm_due = None \<rparr> else l)"
| "act_on (Timeout c now) cat l =
     (if cat = c \<and> (case lm_due l of None \<Rightarrow> False | Some due \<Rightarrow> due \<le> now)
      then \<lparr> lm_on = False, lm_count = lm_count l, lm_due = None \<rparr> else l)"
| "act_on (Observe cs due) cat l =
     (if cat \<in> set cs \<and> \<not> lm_on l then \<lparr> lm_on = True, lm_count = lm_count l, lm_due = Some due \<rparr> else l)"

definition panel_act :: "(string \<Rightarrow> lamp option) \<Rightarrow> action \<Rightarrow> string \<Rightarrow> lamp option" where
  "panel_act p a = (\<lambda>cat. map_option (act_on a cat) (p cat))"

text \<open>The lamp a coordinator shows for a category.\<close>

definition deadline :: "coord \<Rightarrow> string \<Rightarrow> int option" where
  "deadline s cat = (case map_of (co_clear_tasks s) cat of
       None \<Rightarrow> None
     | Some i \<Rightarrow> (case co_tasks s ! i of Sleeping c due \<Rightarrow> Some due | _ \<Rightarrow> None))"

definition panel :: "coord \<Rightarrow> string \<Rightarrow> lamp option" where
  "panel s cat = map_option (\<lambda>st. \<lparr> lm_on = cs_is_alerting st, lm_count = cs_alert_count st, lm_due = deadline s cat \<rparr>)
     (map_of (co_states s) cat)"

subsection \<open>Simulations\<close>

locale simulation =
  fixes step :: "'s \<Rightarrow> 'e \<Rightarrow> 's" and inv :: "'s \<Rightarrow> bool" and view :: "'s \<Rightarrow> 'v"
    and astep :: "'v \<Rightarrow> 'a \<Rightarrow> 'v" and allowed :: "'s \<Rightarrow> 'e \<Rightarrow> 'a \<Rightarrow> bool"
  assumes inv_step: "inv s \<Longrightarrow> inv (step s e)"
    and sim_step: "inv s \<Longrightarrow> \<exists>a. allowed s e a \<and> view (step s e) = astep (view s) a"
begin

lemma sim_run: "inv s \<Longrightarrow> \<exists>as. length as = length es \<and> view (foldl step s es) = foldl astep (view s) as"
proof (induction es arbitrary: s)
  case (Cons e es)
  obtain a where a: "view (step s e) = astep (view s) a" using sim_step [OF Cons.prems] by blast
  from Cons.IH [OF inv_step [OF Cons.prems]] obtain as
    where "length as = length es" "view (foldl step (step s e) es) = foldl astep (view (step s e)) as" by blast
  with a show ?case by (intro exI [of _ "a # as"]) simp
qed simp

lemma sim_invariant:
  assumes "inv s" "P (view s)" "\<And>v a. P v \<Longrightarrow> P (astep v a)"
  shows "P (view (foldl step s es))"
proof -
  obtain as where as: "view (foldl step s es) = foldl astep (view s) as" using sim_run [OF assms(1)] by blast
  have "P (foldl astep v as)" if "P v" for v using that assms(3) by (induction as arbitrary: v) auto
  with as assms(2) show ?thesis by simp
qed

end

subsection \<open>Deadlines\<close>

lemma deadline_same:
  "co_clear_tasks s' = co_clear_tasks s \<Longrightarrow> co_tasks s' = co_tasks s \<Longrightarrow> deadline s' = deadline s"
  by (rule ext) (simp add: deadline_def split: option.split)

lemma deadline_Some:
  assumes "timers_ok s"
  shows "deadline s cat = Some due \<longleftrightarrow> (\<exists>i. i < length (co_tasks s) \<and> co_tasks s ! i = Sleeping cat due)"
proof
  assume "deadline s cat = Some due"
  then obtain i c where "map_of (co_clear_tasks s) cat = Some i" "co_tasks s ! i = Sleeping c due"
    by (auto simp: deadline_def split: option.splits task.splits)
  with timers_in_range [OF assms this(1)] timers_own [OF assms this]
  show "\<exists>i. i < length (co_tasks s) \<and> co_tasks s ! i = Sleeping cat due" by blast
next
  assume "\<exists>i. i < length (co_tasks s) \<and> co_tasks s ! i = Sleeping cat due"
  then obtain i where "i < length (co_tasks s)" "co_tasks s ! i = Sleeping cat due" by blast
  with timers_registered [OF assms this] show "deadline s cat = Some due" by (simp add: deadline_def)
qed

lemma option_eqI: "(\<And>x. a = Some x \<longleftrightarrow> b = Some x) \<Longrightarrow> a = b"
  by (cases a; cases b) auto

lemma deadline_schedule:
  assumes "timers_ok s"
  shows "deadline (schedule_clear tick c s) cat
    = (if cat = c then Some (tick + co_clear_timeout s * 60 * 1000000) else deadline s cat)"
proof (cases "cat = c")
  case True
  then show ?thesis by (simp add: deadline_def schedule_clear_tasks dict.lookup_put)
next
  case False
  let ?s = "schedule_clear tick c s" and ?n = "length (co_tasks s)"
  have "(\<exists>i. i < length (co_tasks ?s) \<and> co_tasks ?s ! i = Sleeping cat d)
      \<longleftrightarrow> (\<exists>i. i < ?n \<and> co_tasks s ! i = Sleeping cat d)" (is "?l \<longleftrightarrow> ?r") for d
  proof
    assume ?l
    then obtain i where i: "i < Suc ?n" "co_tasks ?s ! i = Sleeping cat d" by (auto simp: schedule_clear_tasks)
    then have "i < ?n" using schedule_clear_tasks(3) [of tick c s] False by (cases "i = ?n") auto
    with i show ?r using schedule_clear_sleeping by blast
  next
    assume ?r
    then obtain i where i: "i < ?n" "co_tasks s ! i = Sleeping cat d" by blast
    then have "map_of (co_clear_tasks s) c \<noteq> Some i" using timers_own [OF assms, of c i cat d] False by auto
    with i schedule_clear_sleeping [OF i(1)] have "co_tasks ?s ! i = Sleeping cat d" by blast
    with i show ?l by (intro exI [of _ i]) (simp add: schedule_clear_tasks)
  qed
  then have "deadline ?s cat = Some d \<longleftrightarrow> deadline s cat = Some d" for d
    unfolding deadline_Some [OF timers_ok_schedule [OF assms]] deadline_Some [OF assms] .
  with False show ?thesis by (auto intro: option_eqI)
qed

lemma deadline_cancel:
  assumes "timers_ok s"
  shows "deadline (cancel_clear c s) cat = (if cat = c then None else deadline s cat)"
proof (cases "cat = c")
  case True
  then show ?thesis by (simp add: deadline_def cancel_clear_tasks)
next
  case False
  have "co_tasks (cancel_clear c s) ! i = Sleeping cat d \<longleftrightarrow> co_tasks s ! i = Sleeping cat d" if "i < length (co_tasks s)" for i d
    using cancel_clear_sleeping [OF that] timers_own [OF assms, of c i cat d] False by blast
  then have "deadline (cancel_clear c s) cat = Some d \<longleftrightarrow> deadline s cat = Some d" for d
    unfolding deadline_Some [OF timers_ok_cancel [OF assms]] deadline_Some [OF assms] by auto
  with False show ?thesis by (auto intro: option_eqI)
qed

subsection \<open>The operations on the panel\<close>

lemma panel_same:
  "co_states s' = co_states s \<Longrightarrow> co_clear_tasks s' = co_clear_tasks s \<Longrightarrow> co_tasks s' = co_tasks s \<Longrightarrow> panel s' = panel s"
  by (rule ext) (simp add: panel_def deadline_same [of s' s])

lemma panel_effects [simp]:
  "panel (emit e s) = panel s" "panel (schedule_persist s) = panel s" "panel (start_save s) = panel s"
  by (rule panel_same; simp add: emit_def schedule_persist_def start_save_def)+

lemma timers_ok_same:
  "co_clear_tasks s' = co_clear_tasks s \<Longrightarrow> co_tasks s' = co_tasks s \<Longrightarrow> timers_ok s' = timers_ok s"
  by (simp add: timers_ok_def)

lemma panel_update:
  "co_clear_tasks s' = co_clear_tasks s \<Longrightarrow> co_tasks s' = co_tasks s \<Longrightarrow> co_states s' = AList.update c st' (co_states s) \<Longrightarrow>
   panel s' = (panel s)(c \<mapsto> \<lparr> lm_on = cs_is_alerting st', lm_count = cs_alert_count st', lm_due = deadline s c \<rparr>)"
  by (rule ext) (simp add: panel_def deadline_same [of s' s] dict.lookup_put)

lemma panel_schedule:
  "timers_ok s \<Longrightarrow> panel (schedule_clear tick c s) = (panel s)(c := map_option
     (\<lambda>l. l\<lparr>lm_due := Some (tick + co_clear_timeout s * 60 * 1000000)\<rparr>) (panel s c))"
  by (rule ext) (simp add: panel_def deadline_schedule option.map_comp comp_def)

lemma panel_act_idle [simp]: "panel_act q (Observe [] d) = q"
proof
  show "panel_act q (Observe [] d) cat = q cat" for cat by (cases "q cat") (simp_all add: panel_act_def)
qed

lemma panel_push:
  assumes "coord_ok s" "is_aware (al_received_at al)"
  shows "panel (snd (push_alert tick c al s)) = panel_act (panel s)
    (if accepted s tick c al then Alarm c (tick + co_clear_timeout s * 60 * 1000000) else Observe [] 0)"
proof (cases "accepted s tick c al")
  case True
  obtain st where st: "map_of (co_states s) c = Some st" "cs_enabled st"
    using True by (auto simp: accepted_def category_available_def get_category_state_def split: option.splits)
  have ok: "cat_ok st" using states_okD [OF coord_states [OF assms(1)] st(1)] .
  then have so: "state_ok st" by (simp add: cat_ok_def)
  from push_alert_cases [OF assms, of c tick] True st
  obtain table where p: "snd (push_alert tick c al s) = emit Notified (schedule_clear tick c (schedule_persist
      (s\<lparr>co_last_push_at := table, co_states := AList.update c (snd (push_state al st)) (co_states s)\<rparr>)))"
    by (auto simp: accepted_def passes_def)
  let ?s = "schedule_persist (s\<lparr>co_last_push_at := table, co_states := AList.update c (snd (push_state al st)) (co_states s)\<rparr>)"
  have t: "timers_ok ?s" using coord_timers [OF assms(1)] timers_ok_same [of ?s s] by (simp add: schedule_persist_def emit_def)
  have ps: "panel ?s = (panel s)(c \<mapsto> \<lparr> lm_on = True, lm_count = cs_alert_count st + 1, lm_due = deadline s c \<rparr>)"
  proof -
    have "cs_is_alerting (snd (push_state al st))" "cs_alert_count (snd (push_state al st)) = cs_alert_count st + 1"
      by (simp_all add: push_state_ok [OF ok assms(2)] apply_alert_ok [OF so])
    moreover have "panel ?s = (panel s)(c \<mapsto> \<lparr> lm_on = cs_is_alerting (snd (push_state al st)),
        lm_count = cs_alert_count (snd (push_state al st)), lm_due = deadline s c \<rparr>)"
      by (rule panel_update) (simp_all add: schedule_persist_def emit_def)
    ultimately show ?thesis by simp
  qed
  have "co_clear_timeout ?s = co_clear_timeout s" by (simp add: schedule_persist_def emit_def)
  with True st ps show ?thesis
    by (auto simp: p panel_schedule [OF t] panel_act_def fun_eq_iff panel_def [of s] option.map_comp comp_def)
next
  case False
  have "panel (snd (push_alert tick c al s)) = panel s"
    using push_alert_cases [OF assms, of c tick] False
  proof (elim disjE exE conjE)
    fix st assume st: "map_of (co_states s) c = Some st"
      and p: "push_alert tick c al s = (Inr (), schedule_persist (s\<lparr>co_states := AList.update c
               ((record_filtered al st)\<lparr>cs_last_webhook_at := Some (al_received_at al)\<rparr>) (co_states s)\<rparr>))"
    have "panel (s\<lparr>co_states := AList.update c
               ((record_filtered al st)\<lparr>cs_last_webhook_at := Some (al_received_at al)\<rparr>) (co_states s)\<rparr>) = panel s"
    proof (rule ext)
      fix cat
      have "deadline (s\<lparr>co_states := d\<rparr>) = deadline s" for d by (rule deadline_same) simp_all
      then show "panel (s\<lparr>co_states := AList.update c ((record_filtered al st)\<lparr>cs_last_webhook_at := Some (al_received_at al)\<rparr>)
          (co_states s)\<rparr>) cat = panel s cat"
        using st by (simp add: panel_def dict.lookup_put record_filtered_def)
    qed
    with p show ?thesis by simp
  qed (auto simp: accepted_def category_available_def get_category_state_def passes_def)
  with False show ?thesis by simp
qed

lemma panel_append_saving: "timers_ok s \<Longrightarrow> panel (s\<lparr>co_tasks := co_tasks s @ [Saving]\<rparr>) = panel s"
proof (rule ext)
  fix cat assume t: "timers_ok s"
  have "deadline (s\<lparr>co_tasks := co_tasks s @ [Saving]\<rparr>) cat = deadline s cat"
    using timers_in_range [OF t] by (auto simp: deadline_def nth_append split: option.split)
  then show "panel (s\<lparr>co_tasks := co_tasks s @ [Saving]\<rparr>) cat = panel s cat" by (simp add: panel_def)
qed

lemma panel_clear_one:
  assumes "timers_ok s"
  shows "panel (clear_one now c s) = panel_act (panel s) (Acknowledge [c])"
proof (rule ext)
  fix cat
  have "deadline (clear_one now c s) = deadline (cancel_clear c s)"
    by (rule deadline_same) (simp_all add: clear_one_def Let_def)
  then show "panel (clear_one now c s) cat = panel_act (panel s) (Acknowledge [c]) cat"
    by (cases "map_of (co_states s) cat")
      (auto simp: panel_def panel_act_def deadline_cancel [OF assms] clear_one_def Let_def clear_state_def)
qed

lemma acknowledge_append: "panel_act (panel_act p (Acknowledge cs)) (Acknowledge ds) = panel_act p (Acknowledge (cs @ ds))"
  by (rule ext) (auto simp: panel_act_def option.map_comp comp_def fun_eq_iff intro!: option.map_cong)

lemma panel_fold_clear:
  assumes "coord_ok s" "is_aware now"
  shows "panel (fold (clear_one now) cs s) = panel_act (panel s) (Acknowledge cs)"
  using assms
proof (induction cs arbitrary: s)
  case Nil
  have "panel_act (panel s) (Acknowledge []) cat = panel s cat" for cat by (cases "panel s cat") (simp_all add: panel_act_def)
  then show ?case by (simp add: fun_eq_iff)
next
  case (Cons c cs)
  then show ?case
    using panel_clear_one [OF coord_timers [OF Cons.prems(1)]] clear_one_ok
    by (simp add: acknowledge_append)
qed

lemma panel_clear_category:
  assumes "coord_ok s" "is_aware now"
  shows "panel (clear_category now c s) = panel_act (panel s) (Acknowledge [c])"
proof (cases "map_of (co_states s) c")
  case None
  then have "panel_act (panel s) (Acknowledge [c]) cat = panel s cat" for cat
    by (cases "panel s cat") (auto simp: panel_act_def panel_def)
  with None show ?thesis by (simp add: clear_category_def fun_eq_iff)
next
  case (Some st)
  have "timers_ok (start_save (clear_one now c s))"
    using coord_timers [OF clear_one_ok [OF assms]] timers_ok_same [of "start_save (clear_one now c s)" "clear_one now c s"]
    by (simp add: start_save_def emit_def)
  from panel_append_saving [OF this] Some show ?thesis
    by (simp add: clear_category_def Let_def panel_clear_one [OF coord_timers [OF assms(1)]])
qed

lemma panel_clear_all:
  assumes "coord_ok s" "is_aware now"
  shows "panel (clear_all now s) = panel_act (panel s) (Acknowledge (map fst (filter (\<lambda>(cat, st). cs_enabled st) (co_states s))))"
proof -
  let ?s = "fold (clear_one now) (map fst (filter (\<lambda>(cat, st). cs_enabled st) (co_states s))) s"
  have "coord_ok (fold (clear_one now) cs t)" if "coord_ok t" for cs t
    using that assms(2) by (induction cs arbitrary: t) (simp_all add: clear_one_ok)
  then have "timers_ok (start_save ?s)"
    using coord_timers assms(1) timers_ok_same [of "start_save ?s" ?s] by (simp add: start_save_def emit_def)
  from panel_append_saving [OF this] panel_fold_clear [OF assms] show ?thesis
    by (simp add: clear_all_def Let_def)
qed

lemma panel_finish_save:
  assumes "timers_ok s" "i < length (co_tasks s)" "co_tasks s ! i = Saving"
  shows "panel (finish_save ok i s) = panel s"
proof -
  have d: "deadline (s\<lparr>co_tasks := (co_tasks s)[i := t]\<rparr>) cat = deadline s cat"
    if "t = Finished \<or> t = Failed" for t cat
  proof (cases "map_of (co_clear_tasks s) cat")
    case (Some k)
    with timers_in_range [OF assms(1) Some] assms(3) that show ?thesis by (cases "k = i") (auto simp: deadline_def)
  qed (simp add: deadline_def)
  have "panel (s\<lparr>co_tasks := (co_tasks s)[i := t]\<rparr>) = panel s" if "t = Finished \<or> t = Failed" for t
    by (rule ext) (simp add: panel_def d [OF that])
  with assms(3) show ?thesis by (simp add: finish_save_def)
qed

lemma start_save_view: "co_states (start_save s) = co_states s" "deadline (start_save s) = deadline s"
proof -
  show "co_states (start_save s) = co_states s" by (simp add: start_save_def emit_def)
  show "deadline (start_save s) = deadline s" by (rule deadline_same) (simp_all add: start_save_def emit_def)
qed

lemma panel_wake:
  assumes "coord_ok s" "enabled_event s (Wake now tick i)"
  shows "\<exists>c. panel (wake now i s) = panel_act (panel s) (Timeout c tick)"
proof -
  obtain c due where t: "i < length (co_tasks s)" "co_tasks s ! i = Sleeping c due" "due \<le> tick"
    using assms(2) by (auto split: task.splits)
  note reg = timers_registered [OF coord_timers [OF assms(1)] t(1,2)]
  have dl: "deadline s c = Some due" using reg t by (simp add: deadline_def)
  have d: "deadline (s\<lparr>co_states := x, co_tasks := (co_tasks s)[i := v]\<rparr>) cat = (if cat = c then None else deadline s cat)"
    if "v = Saving \<or> v = Finished" for v cat x
  proof (cases "map_of (co_clear_tasks s) cat")
    case None
    with reg show ?thesis by (auto simp: deadline_def)
  next
    case (Some k)
    have "k = i \<Longrightarrow> c = cat" using timers_own [OF coord_timers [OF assms(1)] Some, of c due] t(2) by simp
    moreover have "cat = c \<Longrightarrow> k = i" using Some reg by simp
    ultimately have "k = i \<longleftrightarrow> cat = c" by blast
    with Some timers_in_range [OF coord_timers [OF assms(1)] Some] that t show ?thesis
      by (cases "k = i") (auto simp: deadline_def)
  qed
  have d': "deadline (s\<lparr>co_tasks := (co_tasks s)[i := Finished]\<rparr>) cat = (if cat = c then None else deadline s cat)" for cat
    using d [of Finished "co_states s" cat] by simp
  have "panel (wake now i s) cat = panel_act (panel s) (Timeout c tick) cat" for cat
    using t dl
    by (cases "map_of (co_states s) c"; cases "map_of (co_states s) cat")
      (auto simp: wake_def panel_act_def panel_def d d' start_save_view clear_state_def)
  then show ?thesis by (intro exI [of _ c] ext)
qed

text \<open>A poll: each category lights its own lamp, and the observations add up.\<close>

lemma observe_append: "panel_act (panel_act p (Observe cs d)) (Observe ds d) = panel_act p (Observe (cs @ ds) d)"
  by (rule ext) (auto simp: panel_act_def option.map_comp comp_def fun_eq_iff intro!: option.map_cong)

lemma poll_state_lamp:
  "poll_state minimum alerts st = (r, st') \<Longrightarrow> cs_alert_count st' = cs_alert_count st \<and>
     (if r = Inr True then \<not> cs_is_alerting st \<and> cs_is_alerting st' else cs_is_alerting st' = cs_is_alerting st)"
  by (auto simp: poll_state_def act_defs dest!: track_newest_frame split: sum.splits if_splits prod.splits)

definition observed :: "int \<Rightarrow> coord \<Rightarrow> coord \<Rightarrow> bool" where
  "observed tick s s' \<longleftrightarrow> timers_ok s' \<and> co_clear_timeout s' = co_clear_timeout s \<and>
     (\<exists>cs. panel s' = panel_act (panel s) (Observe cs (tick + co_clear_timeout s * 60 * 1000000)))"

lemma observed_same:
  assumes "timers_ok s'" "co_clear_timeout s' = co_clear_timeout s" "panel s' = panel s"
  shows "observed tick s s'"
  unfolding observed_def using assms by (intro conjI exI [of _ "[]"]) simp_all

lemma observed_trans:
  assumes "observed tick s s'" "observed tick s' s''"
  shows "observed tick s s''"
proof -
  obtain cs ds where "panel s' = panel_act (panel s) (Observe cs (tick + co_clear_timeout s * 60 * 1000000))"
    "panel s'' = panel_act (panel s') (Observe ds (tick + co_clear_timeout s * 60 * 1000000))"
    using assms by (auto simp: observed_def)
  then show ?thesis using assms by (auto simp: observed_def observe_append)
qed

lemma observed_poll_category:
  assumes "timers_ok s"
  shows "observed tick s (snd (poll_category tick (cat, alerts) s))"
proof (cases "\<exists>st. map_of (co_states s) cat = Some st \<and> cs_enabled st")
  case True
  then obtain st where st: "map_of (co_states s) cat = Some st" "cs_enabled st" by blast
  obtain r st' where p: "poll_state (get_effective_min_severity (co_config s) cat) alerts st = (r, st')" by fastforce
  let ?s = "s\<lparr>co_states := AList.update cat st' (co_states s)\<rparr>"
  have res: "snd (poll_category tick (cat, alerts) s) = (if r = Inr True then schedule_clear tick cat ?s else ?s)"
    using st p by (cases r) (auto simp: poll_category_def bindS_def on_state_def whenS_def modifyS_def returnS_def)
  have t: "timers_ok ?s" using assms timers_ok_same [of ?s s] by simp
  have ps: "panel ?s = (panel s)(cat \<mapsto> \<lparr> lm_on = cs_is_alerting st', lm_count = cs_alert_count st', lm_due = deadline s cat \<rparr>)"
    by (rule panel_update) simp_all
  note lamp = poll_state_lamp [OF p]
  have psc: "panel s cat = Some \<lparr> lm_on = cs_is_alerting st, lm_count = cs_alert_count st, lm_due = deadline s cat \<rparr>"
    using st by (simp add: panel_def)
  show ?thesis
  proof (cases "r = Inr True")
    case True
    have "panel (schedule_clear tick cat ?s) = panel_act (panel s) (Observe [cat] (tick + co_clear_timeout s * 60 * 1000000))"
    proof (rule ext)
      fix c
      show "panel (schedule_clear tick cat ?s) c = panel_act (panel s) (Observe [cat] (tick + co_clear_timeout s * 60 * 1000000)) c"
        using True lamp psc by (cases "c = cat"; cases "panel s c") (auto simp: panel_schedule [OF t] ps panel_act_def)
    qed
    then show ?thesis
      using res True timers_ok_schedule [OF t] by (auto simp: observed_def schedule_clear_def Let_def split: option.split)
  next
    case False
    with lamp ps psc have "panel ?s = panel s" by (auto simp: fun_eq_iff)
    with res False t show ?thesis by (simp add: observed_same)
  qed
next
  case False
  then have "snd (poll_category tick (cat, alerts) s) = s" by (auto simp: poll_category_def split: option.split)
  with assms show ?thesis by (simp add: observed_same)
qed

lemma panel_poll:
  assumes "coord_ok s"
  shows "\<exists>cs. panel (snd (update_data net t0 t1 t2 tick s))
     = panel_act (panel s) (Observe cs (tick + co_clear_timeout s * 60 * 1000000))"
proof -
  have 1: "keepsS (observed tick s) (fetch_categorised net t0 t1 t2)"
    unfolding keepsS_def
  proof (intro allI impI)
    fix s' assume o: "observed tick s s'"
    have c: "same_core s' (snd (fetch_categorised net t0 t1 t2 s'))" using keepsS_D [OF core_fetch same_core_refl] .
    then have "timers_ok (snd (fetch_categorised net t0 t1 t2 s')) = timers_ok s'"
      "panel (snd (fetch_categorised net t0 t1 t2 s')) = panel s'"
      by (auto simp: same_core_def intro!: timers_ok_same panel_same)
    with o c have "observed tick s' (snd (fetch_categorised net t0 t1 t2 s'))"
      by (intro observed_same) (auto simp: observed_def same_core_def)
    with o show "observed tick s (snd (fetch_categorised net t0 t1 t2 s'))" by (rule observed_trans)
  qed
  have 2: "keepsS (observed tick s) (poll_category tick entry)" for entry
    unfolding keepsS_def
  proof (intro allI impI)
    fix s' assume o: "observed tick s s'"
    then have "timers_ok s'" by (simp add: observed_def)
    then have "observed tick s' (snd (poll_category tick entry s'))" by (cases entry) (simp add: observed_poll_category)
    with o show "observed tick s (snd (poll_category tick entry s'))" by (rule observed_trans)
  qed
  have z: "map_of (co_states (zero_unpolled polled s')) c = map_option (\<lambda>st. if cs_enabled st \<and> c \<notin> set polled
      then st\<lparr>cs_open_count := 0\<rparr> else st) (map_of (co_states s') c)" for polled s' c
  proof -
    have "map_of (map (\<lambda>(cat, st). (cat, if cs_enabled st \<and> cat \<notin> set polled
        then st\<lparr>cs_open_count := 0\<rparr> else st)) d) c
      = map_option (\<lambda>st. if cs_enabled st \<and> c \<notin> set polled then st\<lparr>cs_open_count := 0\<rparr> else st) (map_of d c)"
      for d by (induction d) auto
    then show ?thesis by (simp add: zero_unpolled_def)
  qed
  have 3: "keepsS (observed tick s) (modifyS (zero_unpolled polled))" for polled
    unfolding keepsS_def
  proof (intro allI impI)
    fix s' assume o: "observed tick s s'"
    have tt: "co_clear_tasks (zero_unpolled polled s') = co_clear_tasks s'" "co_tasks (zero_unpolled polled s') = co_tasks s'"
      "co_clear_timeout (zero_unpolled polled s') = co_clear_timeout s'" by (simp_all add: zero_unpolled_def)
    have "panel (zero_unpolled polled s') c = panel s' c" for c
      using deadline_same [OF tt(1,2)] by (cases "map_of (co_states s') c") (simp_all add: panel_def z)
    then have "observed tick s' (zero_unpolled polled s')"
      using o tt timers_ok_same [OF tt(1,2)] by (intro observed_same) (auto simp: observed_def)
    with o show "observed tick s (snd (modifyS (zero_unpolled polled) s'))" by (simp add: modifyS_def observed_trans)
  qed
  have "keepsS (observed tick s) (update_data net t0 t1 t2 tick)"
    unfolding update_data_def by (auto intro!: keepsS_bind keepsS_try keepsS_for 1 2 3)
  from keepsS_D [OF this observed_same [OF coord_timers [OF assms]]] show ?thesis by (simp add: observed_def)
qed

subsection \<open>The coordinator refines the panel\<close>

text \<open>The panel actions an event of the coordinator may be.\<close>

fun panel_action :: "coord \<Rightarrow> event \<Rightarrow> action \<Rightarrow> bool" where
  "panel_action s (Push tick c al) a =
     (a = (if accepted s tick c al then Alarm c (tick + co_clear_timeout s * 60 * 1000000) else Observe [] 0))"
| "panel_action s (Poll net t0 t1 t2 tick) a = (\<exists>cs. a = Observe cs (tick + co_clear_timeout s * 60 * 1000000))"
| "panel_action s (ClearCategory now c) a = (a = Acknowledge [c])"
| "panel_action s (ClearAll now) a = (a = Acknowledge (map fst (filter (\<lambda>(cat, st). cs_enabled st) (co_states s))))"
| "panel_action s (Wake now tick i) a = (\<exists>c. a = Timeout c tick)"
| "panel_action s (SaveDone ok i) a = (a = Observe [] 0)"

lemma perform_panel:
  assumes "coord_ok s" "enabled_event s e"
  shows "\<exists>a. panel_action s e a \<and> panel (perform s e) = panel_act (panel s) a"
proof (cases e)
  case (Poll net t0 t1 t2 tick)
  with panel_poll [OF assms(1), of net t0 t1 t2 tick] show ?thesis by auto
next
  case (Wake now tick i)
  with panel_wake [OF assms(1), of now tick i] assms(2) show ?thesis by auto
next
  case (SaveDone ok i)
  with panel_finish_save [OF coord_timers [OF assms(1)], of i ok] assms(2) show ?thesis by auto
next
  case (ClearAll now)
  with assms panel_clear_all [OF assms(1), of now] show ?thesis by simp
qed (use assms in \<open>simp_all add: panel_push panel_clear_category\<close>)

interpretation panel_sim: simulation run_event coord_ok panel panel_act
  "\<lambda>s e a. if enabled_event s e then panel_action s e a else a = Observe [] 0"
proof
  show "coord_ok (run_event s e)" if "coord_ok s" for s e
    using that coord_runs.step_inv by blast
  show "\<exists>a. (if enabled_event s e then panel_action s e a else a = Observe [] 0) \<and> panel (run_event s e) = panel_act (panel s) a"
    if "coord_ok s" for s e
    using perform_panel [OF that, of e] by (auto simp: run_event_def)
qed

text \<open>C3: the coordinator refines the panel. Over any sequence of polls against any controller, pushes,
  clears, waking timers and saves, what it shows of every category (the lamp, the counter and the
  deadline) changes exactly by one panel action per event: an accepted push alarms with a deadline of
  the configured minutes, a clear acknowledges, a timer times out, a poll only observes, and a save,
  a rejected push or a disabled event does nothing.\<close>

theorem coordinator_refines_panel:
  assumes "reachable client config entry_id s"
  shows "\<exists>as. length as = length es \<and> panel (foldl run_event s es) = foldl panel_act (panel s) as \<and>
    (\<forall>e. enabled_event s e \<longrightarrow> (\<exists>a. panel_action s e a \<and> panel (perform s e) = panel_act (panel s) a))"
  using panel_sim.sim_run [OF reachable_ok [OF assms], of es] perform_panel [OF reachable_ok [OF assms]] by blast

lemma coordinator_refines_panel_witness:
  "\<exists>l. panel alarmed CATEGORY_POWER = Some l \<and> lm_on l \<and> lm_count l = 1 \<and> lm_due l = Some (30 * 60 * 1000000)"
proof -
  have acc: "accepted demo 0 CATEGORY_POWER sample_alert"
    by (simp add: accepted_def category_available_def get_category_state_def demo_power passes_def
        demo_fields sample_passes dedup_def) (simp add: new_category_state_def)
  have "enabled_event demo (Push 0 CATEGORY_POWER sample_alert)" by simp
  with coordinator_refines_panel [OF demo_reachable, of "[]"] acc
  have "panel alarmed = panel_act (panel demo) (Alarm CATEGORY_POWER (0 + co_clear_timeout demo * 60 * 1000000))"
    unfolding alarmed_def by fastforce
  then show ?thesis
    by (simp add: panel_act_def panel_def [of demo] demo_power demo_fields new_category_state_def)
qed

text \<open>The counter of a lamp never falls, whatever happens.\<close>

lemma count_monotone: "lm_count l \<le> lm_count (act_on a cat l)"
  by (cases a) auto

lemma alert_count_never_falls:
  assumes "coord_ok s" "map_of (co_states s) cat = Some st"
  shows "\<exists>st'. map_of (co_states (foldl run_event s es)) cat = Some st' \<and> cs_alert_count st \<le> cs_alert_count st'"
proof -
  let ?P = "\<lambda>p :: string \<Rightarrow> lamp option. \<exists>l. p cat = Some l \<and> cs_alert_count st \<le> lm_count l"
  have "?P (panel_act p a)" if "?P p" for p a
    using that count_monotone order_trans by (fastforce simp: panel_act_def)
  moreover have "?P (panel s)" using assms(2) by (simp add: panel_def)
  ultimately have "?P (panel (foldl run_event s es))"
    using panel_sim.sim_invariant [OF assms(1), of ?P] by blast
  then show ?thesis by (auto simp: panel_def)
qed

end
