(* ===== verification/Restart.thy ===== *)
theory Restart
  imports PollProps
begin

section \<open>Acknowledgements across restarts\<close>

text \<open>
  The composition of a poll, a clear, the store and the restore of the next start: what was
  acknowledged before a restart stays acknowledged after it. The new coordinator reads exactly what the clear
  handed to the store.
\<close>

lemma persist_states: "co_states s = co_states s' \<Longrightarrow> build_persist_data s = build_persist_data s'"
  by (simp add: build_persist_data_def)

lemma clear_category_saves:
  assumes "map_of (co_states s) cat = Some st"
  shows "\<exists>rest. co_effects (clear_category now cat s) = SaveRequested (build_persist_data (clear_category now cat s)) # rest"
  using assms by (auto simp: clear_category_def start_save_def emit_def Let_def intro: persist_states)

text \<open>The stored watermark decides what a restored category counts.\<close>

lemma restored_cat_ok:
  assumes "cat_ok st" "cat_ok new"
  shows "cat_ok (restored st new)"
  using assms by (auto simp: cat_ok_def state_ok_def restored_def split: option.splits)

lemma restored_new: "restored st (new_category_state cat b) = (new_category_state cat b)\<lparr>
    cs_last_cleared_at := cs_last_cleared_at st, cs_alert_count := cs_alert_count st,
    cs_last_alert := cs_last_alert st, cs_last_webhook_at := cs_last_webhook_at st\<rparr>"
  by (simp add: restored_def new_category_state_def split: option.split)

text \<open>C7: an acknowledgement survives a restart. A category is polled and cleared, and Home Assistant
  starts again with what the clear handed to the store: then a poll that fetches any of the acknowledged alarms
  counts none of them and does not make the category alert, whatever the clocks show, as long as the category
  is still enabled and keeps its minimum severity.\<close>

theorem acknowledged_after_restart:
  assumes "coord_ok s" "map_of (co_states s) cat = Some st" "cs_enabled st" "is_aware now"
    and "list_all (\<lambda>a. is_aware (al_received_at a)) alerts" "set again \<subseteq> set alerts"
    and "new_coordinator client config entry_id = Some fresh"
    and "map_of (co_states fresh) cat = Some new" "cs_enabled new"
    and "get_effective_min_severity config cat = get_effective_min_severity (co_config s) cat"
    and "list_all (\<lambda>e. storable (snd e)) (co_states (clear_category now cat (snd (poll_category tick (cat, alerts) s))))"
  shows "\<exists>saved rest restarted st'.
     co_effects (clear_category now cat (snd (poll_category tick (cat, alerts) s))) = SaveRequested saved # rest \<and>
     restore_watermarks now' (PDict saved) fresh = (Inr (), restarted) \<and>
     map_of (co_states (snd (poll_category tick' (cat, again) restarted))) cat = Some st' \<and>
     cs_open_count st' = 0 \<and> \<not> cs_is_alerting st'"
proof -
  define cleared where "cleared = clear_category now cat (snd (poll_category tick (cat, alerts) s))"
  let ?m = "get_effective_min_severity (co_config s) cat"
  obtain st1 where ok: "coord_ok cleared"
    and get: "map_of (co_states cleared) cat = Some (clear_state now st1)"
    and none: "\<And>st'. cs_last_cleared_at st' = cs_last_cleared_at (clear_state now st1) \<Longrightarrow> filter (counts_as_open ?m st') again = []"
    by (rule cleared_covers [OF assms(1-6) cleared_def]) blast
  have "map_of (co_states (snd (poll_category tick (cat, alerts) s))) cat \<noteq> None"
    using get by (auto simp: cleared_def clear_category_states)
  then obtain rest where saved: "co_effects cleared = SaveRequested (build_persist_data cleared) # rest"
    unfolding cleared_def using clear_category_saves by blast
  obtain states where run: "restore_watermarks now' (PDict (build_persist_data cleared)) fresh = (Inr (), fresh\<lparr>co_states := states\<rparr>)"
    and states: "map_of states cat = Some (restored (clear_state now st1) new)"
    using persist_restored [OF coord_states [OF ok] assms(11) [folded cleared_def] assms(7), of now'] get assms(8)
    by auto
  let ?st = "restored (clear_state now st1) new" and ?s = "fresh\<lparr>co_states := states\<rparr>"
  obtain b where new: "new = new_category_state cat b"
    using new_coordinator_fields [OF assms(7)] assms(8) by (auto simp: map_of_map_restrict restrict_map_def split: if_splits)
  have off: "\<not> cs_is_alerting ?st" by (simp add: new restored_def) (simp add: new_category_state_def)
  have "filter (counts_as_open ?m ?st) again = []" by (rule none) (simp add: new restored_new)
  moreover have "cat_ok ?st"
    using states_okD [OF coord_states [OF ok] get] states_okD [OF coord_states [OF new_coordinator_ok [OF assms(7)]] assms(8)]
    by (rule restored_cat_ok)
  moreover have "\<forall>a \<in> set again. is_aware (al_received_at a)" using assms(5,6) by (auto simp: list_all_iff)
  ultimately obtain st' where p: "poll_state ?m again ?st = (Inr False, st')" "polled ?m again ?st st'"
    using poll_state_polled [OF _ effective_range, of ?st again "co_config s" cat] by force
  have "co_config ?s = config" using new_coordinator_fields [OF assms(7)] by auto
  with poll_category_eq [of ?s cat ?st again False st' tick'] p(1) states assms(9,10)
  have "poll_category tick' (cat, again) ?s = (Inr (), ?s\<lparr>co_states := AList.update cat st' states\<rparr>)"
    by (simp add: new restored_new)
  moreover have "cs_open_count st' = 0 \<and> \<not> cs_is_alerting st'"
    using p(2) \<open>filter (counts_as_open ?m ?st) again = []\<close> off by (simp add: polled_def)
  ultimately show ?thesis using run saved by (auto simp: dict.lookup_put simp flip: cleared_def)
qed

lemma sample_polled:
  "case poll_state (get_effective_min_severity [] CATEGORY_POWER) [sample_alert] (new_category_state CATEGORY_POWER True) of
     (r, st) \<Rightarrow> r = Inr True \<and> storable (clear_state utc0 st)"
  by code_simp

lemma all_storable:
  assumes "states_ok s" "\<And>c st. map_of (co_states s) c = Some st \<Longrightarrow> storable st"
  shows "list_all (\<lambda>e. storable (snd e)) (co_states s)"
proof -
  have "distinct (map fst (co_states s))"
    using assms(1) by (simp add: states_ok_def ALL_CATEGORIES_def category_defs)
  then show ?thesis using assms(2) map_of_is_SomeI by (fastforce simp: list_all_iff)
qed

lemma acknowledged_after_restart_witness:
  "\<exists>saved rest restarted st'.
     co_effects (clear_category utc0 CATEGORY_POWER (snd (poll_category 0 (CATEGORY_POWER, [sample_alert]) demo))) = SaveRequested saved # rest \<and>
     restore_watermarks utc0 (PDict saved) demo = (Inr (), restarted) \<and>
     map_of (co_states (snd (poll_category 9 (CATEGORY_POWER, [sample_alert]) restarted))) CATEGORY_POWER = Some st' \<and>
     cs_open_count st' = 0 \<and> \<not> cs_is_alerting st'"
proof (rule acknowledged_after_restart [OF demo_ok demo_power _ utc0_aware _ _ demo_new demo_power])
  let ?polled = "snd (poll_category 0 (CATEGORY_POWER, [sample_alert]) demo)"
  obtain st where poll: "poll_state (get_effective_min_severity (co_config demo) CATEGORY_POWER) [sample_alert]
      (new_category_state CATEGORY_POWER True) = (Inr True, st)" and st: "storable (clear_state utc0 st)"
    using sample_polled by (auto simp: demo_fields split: prod.splits)
  from poll_category_eq [OF demo_power _ poll, of 0] have "?polled = schedule_clear 0 CATEGORY_POWER
      (demo\<lparr>co_states := AList.update CATEGORY_POWER st (co_states demo)\<rparr>)"
    by (simp add: new_category_state_def)
  then have states: "map_of (co_states (clear_category utc0 CATEGORY_POWER ?polled)) c =
      (if c = CATEGORY_POWER then Some (clear_state utc0 st) else map_of (co_states demo) c)" for c
    by (simp add: clear_category_states dict.lookup_put)
  have "storable x" if "map_of (co_states demo) c = Some x" for c x
    using new_coordinator_fields [OF demo_new] that
    by (auto simp: map_of_map_restrict restrict_map_def storable_def new_category_state_def split: if_splits)
  with st states have each: "map_of (co_states (clear_category utc0 CATEGORY_POWER ?polled)) c = Some x \<Longrightarrow> storable x" for c x
    by (simp split: if_splits)
  have "coord_ok (clear_category utc0 CATEGORY_POWER ?polled)"
    using coord_ok_poll_category [OF demo_ok] utc0_aware by (rule coord_ok_clear_category)
  from all_storable [OF coord_states [OF this] each]
  show "list_all (\<lambda>e. storable (snd e)) (co_states (clear_category utc0 CATEGORY_POWER ?polled))" .
qed (simp_all add: new_category_state_def demo_fields)

end
