(* ===== verification/System.thy ===== *)
theory System
  imports SetupProps
begin

section \<open>The system of all entries\<close>

text \<open>
  The composition of the components: the entries of the integration in one Home Assistant, with what a successful
  setup leaves for each (coordinator, webhook manager, event entities), the shared registries and the events fired so
  far. An input is anything the outside may do: set up, unload or remove an entry, a poll, a timer or a
  finished save of a coordinator, a button, a service call, or an HTTP request to a webhook
  identifier, which Home Assistant gives to the handler registered under it.

  A service call is one step here (theory \<open>Setup\<close> has its loop); a save that a button
  or a timer started finishes in a step of its own, so other steps may come in between.
\<close>

record 'h installation = running_entry +
  in_config :: dict
  in_manager :: "'h manager"
  in_seen :: "(string \<times> int) list"

record 'h system =
  sy_home :: "'h home"
  sy_entries :: "string list"
  sy_running :: "'h installation list"
  sy_events :: "(string \<times> string \<times> dict) list"

subsection \<open>Entities\<close>

text \<open>The event entities when they are added, with the count each has seen.\<close>

definition added_events :: "coord \<Rightarrow> (string \<times> int) list" where
  "added_events s =
     List.map_filter (\<lambda>e. case e of
         UniFiAlertEventEntity category \<Rightarrow> Some (category, event_added_to_hass s category 0)
       | _ \<Rightarrow> None) (event_setup s)"

text \<open>All event entities of an entry handle a coordinator update: the counts they have seen then, and
  the events they fire.\<close>

definition notify_events :: "coord \<Rightarrow> (string \<times> int) list \<Rightarrow> (string \<times> int) list \<times> (string \<times> dict) list" where
  "notify_events s seen =
     (map (\<lambda>(category, n). (category, fst (handle_coordinator_update s category n))) seen,
      List.map_filter (\<lambda>(category, n). map_option (Pair category) (snd (handle_coordinator_update s category n))) seen)"

text \<open>Whether \<open>async_set_updated_data\<close> was called between two states.\<close>

definition announced :: "coord \<Rightarrow> coord \<Rightarrow> bool" where
  "announced s s' \<longleftrightarrow> Notified \<in> set (take (length (co_effects s') - length (co_effects s)) (co_effects s'))"

text \<open>
  Running a method of the coordinator of a loaded entry; its entities are updated if the
  method announces new data, or if \<open>told\<close>, which is Home Assistant's choice after a poll.
\<close>

definition on_running_entry :: "bool \<Rightarrow> string \<Rightarrow> (coord, 'r) act \<Rightarrow> 'h system \<Rightarrow> (exn + 'r) option \<times> 'h system" where
  "on_running_entry told i m sys =
     (case find_entry i (sy_running sys) of
        None \<Rightarrow> (None, sys)
      | Some inst \<Rightarrow>
          (case m (ke_coord inst) of (r, s) \<Rightarrow>
            (case (if told \<or> announced (ke_coord inst) s then notify_events s (in_seen inst) else (in_seen inst, [])) of
               (seen, fired) \<Rightarrow>
                 (Some r, sys\<lparr>sy_running := map (\<lambda>x. if ke_id x = i then inst\<lparr>ke_coord := s, in_seen := seen\<rparr> else x) (sy_running sys),
                              sy_events := sy_events sys @ map (Pair i) fired\<rparr>))))"

definition on_entry :: "bool \<Rightarrow> string \<Rightarrow> (coord \<Rightarrow> coord) \<Rightarrow> 'h system \<Rightarrow> 'h system" where
  "on_entry told i f sys = snd (on_running_entry told i (\<lambda>s. (Inr (), f s)) sys)"

subsection \<open>Webhook requests\<close>

text \<open>The handler registered under an identifier: that of the entry whose manager registered it, for the
  category the identifier was made from.\<close>

definition route :: "'h system \<Rightarrow> string \<Rightarrow> ('h installation \<times> string) option" where
  "route sys webhook_id =
     (case find (\<lambda>inst. webhook_id \<in> set (wm_registered (in_manager inst))) (sy_running sys) of
        None \<Rightarrow> None
      | Some inst \<Rightarrow> map_option (Pair inst)
          (find (\<lambda>c. webhook_id_for_category c (id_suffix_of (in_config inst)) = webhook_id) ALL_CATEGORIES))"

definition serve ::
    "(nat list \<Rightarrow> exn + pyval) \<Rightarrow> string \<Rightarrow> webhook_request \<Rightarrow> pydatetime \<Rightarrow> int \<Rightarrow> 'h system
       \<Rightarrow> (exn + nat option) option \<times> 'h system" where
  "serve loads webhook_id request now tick sys =
     (case route sys webhook_id of
        None \<Rightarrow> (None, sys)
      | Some (inst, category) \<Rightarrow>
          on_running_entry False (ke_id inst)
            (handle_webhook loads (ke_id inst) category (dget (in_config inst) CONF_WEBHOOK_SECRET (PStr [])) now tick request) sys)"

subsection \<open>Services\<close>

text \<open>What Home Assistant knows of the entries: the loaded ones have runtime data.\<close>

definition known_entries :: "'h system \<Rightarrow> known_entry list" where
  "known_entries sys =
     map (\<lambda>i. \<lparr> ke_id = i, ke_domain = DOMAIN, ke_loaded = list_ex (\<lambda>inst. ke_id inst = i \<and> ke_loaded inst) (sy_running sys) \<rparr>) (sy_entries sys)"

definition on_known :: "string \<Rightarrow> (coord, unit) act \<Rightarrow> ('h system, unit) act" where
  "on_known i m sys = (case on_running_entry False i m sys of (r, sys') \<Rightarrow> (case r of None \<Rightarrow> Inr () | Some r \<Rightarrow> r, sys'))"

text \<open>A call of a service that is not registered, or that its schema refuses, does not reach the handler.\<close>

definition call_clear_category ::
    "(string \<Rightarrow> exn option) \<Rightarrow> pydatetime \<Rightarrow> string \<Rightarrow> string option \<Rightarrow> 'h system \<Rightarrow> 'h system" where
  "call_clear_category saves now category target sys =
     (if SERVICE_CLEAR_CATEGORY \<in> set (hm_services (sy_home sys)) \<and> category \<in> set ALL_CATEGORIES
      then snd (handle_clear_category known_entries on_known saves now category target sys) else sys)"

definition call_clear_all :: "(string \<Rightarrow> exn option) \<Rightarrow> pydatetime \<Rightarrow> string option \<Rightarrow> 'h system \<Rightarrow> 'h system" where
  "call_clear_all saves now target sys =
     (if SERVICE_CLEAR_ALL \<in> set (hm_services (sy_home sys))
      then snd (handle_clear_all known_entries on_known saves now target sys) else sys)"

subsection \<open>Setup and unload\<close>

definition new_installation :: "config_entry \<Rightarrow> coord \<Rightarrow> 'h manager \<Rightarrow> 'h installation" where
  "new_installation entry s m =
     \<lparr> ke_id = ce_id entry, ke_domain = DOMAIN, ke_loaded = True, ke_coord = s,
       in_config = merged_config entry, in_manager = m, in_seen = added_events s \<rparr>"

text \<open>An entry is set up when nothing of it is running; it is known from then on, whether setup succeeds or not.\<close>

definition set_up :: "'h env \<Rightarrow> config_entry \<Rightarrow> 'h system \<Rightarrow> 'h system" where
  "set_up env entry sys =
     (if find_entry (ce_id entry) (sy_running sys) \<noteq> None then sys
      else (let sys = sys\<lparr>sy_entries := List.insert (ce_id entry) (sy_entries sys)\<rparr>
            in case setup_entry env entry (sy_home sys) of
                 Some (Inr m, Some s, home) \<Rightarrow>
                   sys\<lparr>sy_home := home, sy_running := sy_running sys @ [new_installation entry s m]\<rparr>
               | Some (Inl e, left, home) \<Rightarrow> sys\<lparr>sy_home := home\<rparr>
               | _ \<Rightarrow> sys))"

text \<open>When the platforms do not unload, Home Assistant marks the entry as failed: it is not loaded
  any more, but its webhooks, timers and entities stay.\<close>

definition unload :: "'h registrar \<Rightarrow> bool \<Rightarrow> string \<Rightarrow> 'h system \<Rightarrow> 'h system" where
  "unload unreg unload_ok i sys =
     (case find_entry i (sy_running sys) of
        None \<Rightarrow> sys
      | Some inst \<Rightarrow>
          if \<not> ke_loaded inst then sys
          else (case unload_entry unreg unload_ok i (sy_entries sys) (in_manager inst) (ke_coord inst) (sy_home sys) of
              (s, home) \<Rightarrow>
                sys\<lparr>sy_home := home,
                    sy_running :=
                      (if unload_ok then filter (\<lambda>x. ke_id x \<noteq> i) (sy_running sys)
                       else map (\<lambda>x. if ke_id x = i then x\<lparr>ke_coord := s, ke_loaded := False\<rparr> else x) (sy_running sys))\<rparr>))"

text \<open>The listener of an update of the entry reloads it, and so does Home Assistant on request.\<close>

definition update_listener :: "'h registrar \<Rightarrow> bool \<Rightarrow> 'h env \<Rightarrow> config_entry \<Rightarrow> 'h system \<Rightarrow> 'h system" where
  "update_listener unreg unload_ok env entry sys = set_up env entry (unload unreg unload_ok (ce_id entry) sys)"

text \<open>Home Assistant unloads a loaded entry before it is removed.\<close>

definition remove :: "string \<Rightarrow> 'h system \<Rightarrow> 'h system" where
  "remove i sys =
     (if list_ex (\<lambda>inst. ke_id inst = i \<and> ke_loaded inst) (sy_running sys) then sys
      else sys\<lparr>sy_entries := removeAll i (sy_entries sys)\<rparr>)"

subsection \<open>Inputs\<close>

datatype 'h input =
    SetUp "'h env" config_entry
  | Unload bool string
  | Reload bool "'h env" config_entry
  | Remove string
  | Refreshed bool string net pydatetime pydatetime pydatetime int
  | Slept string pydatetime int nat
  | Saved string bool nat
  | Pressed string entity pydatetime
  | Requested string webhook_request pydatetime int
  | CalledClearCategory "string \<Rightarrow> exn option" pydatetime string "string option"
  | CalledClearAll "string \<Rightarrow> exn option" pydatetime "string option"

text \<open>
  One step. \<open>reg\<close>, \<open>unreg\<close> and \<open>loads\<close> are the library functions of theory \<open>Webhook\<close>. An
  input with a clock that is no UTC reading is no input, and neither is a button the entry has not created.
\<close>

fun react ::
    "'h registrar \<Rightarrow> 'h registrar \<Rightarrow> (nat list \<Rightarrow> exn + pyval) \<Rightarrow> 'h system \<Rightarrow> 'h input \<Rightarrow> 'h system" where
  "react reg unreg loads sys (SetUp env entry) =
     (if aware_data (ev_stored env) then set_up (env\<lparr>ev_reg := reg, ev_unreg := unreg\<rparr>) entry sys else sys)"
| "react reg unreg loads sys (Unload unload_ok i) = unload unreg unload_ok i sys"
| "react reg unreg loads sys (Reload unload_ok env entry) =
     (if aware_data (ev_stored env)
      then update_listener unreg unload_ok (env\<lparr>ev_reg := reg, ev_unreg := unreg\<rparr>) entry sys else sys)"
| "react reg unreg loads sys (Remove i) = remove i sys"
| "react reg unreg loads sys (Refreshed told i net t0 t1 t2 tick) =
     on_entry told i (\<lambda>s. run_event s (Poll net t0 t1 t2 tick)) sys"
| "react reg unreg loads sys (Slept i now tick n) = on_entry False i (\<lambda>s. run_event s (Wake now tick n)) sys"
| "react reg unreg loads sys (Saved i ok n) = on_entry False i (\<lambda>s. run_event s (SaveDone ok n)) sys"
| "react reg unreg loads sys (Pressed i e now) =
     (if is_aware now then on_entry False i (\<lambda>s. if e \<in> set (button_setup s) then press now e s else s) sys else sys)"
| "react reg unreg loads sys (Requested webhook_id request now tick) =
     (if is_aware now then snd (serve loads webhook_id request now tick sys) else sys)"
| "react reg unreg loads sys (CalledClearCategory saves now category target) =
     (if is_aware now then call_clear_category saves now category target sys else sys)"
| "react reg unreg loads sys (CalledClearAll saves now target) =
     (if is_aware now then call_clear_all saves now target sys else sys)"

definition no_system :: "'h home \<Rightarrow> 'h system" where
  "no_system home = \<lparr> sy_home = home, sy_entries = [], sy_running = [], sy_events = [] \<rparr>"

end
