(* ===== verification/SystemInv.thy ===== *)
theory SystemInv
  imports System
begin

section \<open>The invariant of the whole system\<close>

text \<open>
  What holds of all entries together. The methods of the coordinator are seen from the outside: a step is \<open>quiet\<close>,
  or it counts one alert and announces it (\<open>counts\<close>). Every input keeps \<open>system_ok\<close>, and every one that
  does not set up or unload keeps the \<open>balance\<close> of alerts counted and events fired.
\<close>

subsection \<open>Steps of a coordinator, seen by its entities\<close>

definition entity_view :: "coord \<Rightarrow> string \<Rightarrow> (bool \<times> int) option" where
  "entity_view s cat = map_option (\<lambda>st. (cs_enabled st, cs_alert_count st)) (map_of (co_states s) cat)"

lemma view_same:
  assumes "entity_view s' c = entity_view s c"
  shows "category_available s' c = category_available s c" "alert_count_of s' c = alert_count_of s c"
  using assms
  by (cases "map_of (co_states s) c"; cases "map_of (co_states s') c";
      simp add: entity_view_def category_available_def get_category_state_def alert_count_of_def)+

definition quiet :: "coord \<Rightarrow> coord \<Rightarrow> bool" where
  "quiet s s' \<longleftrightarrow> coord_ok s' \<and> entity_view s' = entity_view s"

definition counts :: "string \<Rightarrow> UniFiAlert \<Rightarrow> coord \<Rightarrow> coord \<Rightarrow> bool" where
  "counts cat a s s' \<longleftrightarrow> coord_ok s' \<and> announced s s' \<and> (\<forall>c. c \<noteq> cat \<longrightarrow> entity_view s' c = entity_view s c) \<and>
     (\<exists>st st'. map_of (co_states s) cat = Some st \<and> map_of (co_states s') cat = Some st' \<and>
        cs_enabled st \<and> cs_enabled st' \<and> cs_last_alert st' = Some a \<and> cs_alert_count st' = cs_alert_count st + 1)"

definition sound :: "(coord, 'r) act \<Rightarrow> bool" where
  "sound m \<longleftrightarrow> (\<forall>s. coord_ok s \<longrightarrow> quiet s (snd (m s)) \<or> (\<exists>cat a. counts cat a s (snd (m s))))"

lemma soundI: "(\<And>s. coord_ok s \<Longrightarrow> quiet s (snd (m s)) \<or> (\<exists>cat a. counts cat a s (snd (m s)))) \<Longrightarrow> sound m"
  by (simp add: sound_def)

lemma quiet_refl: "coord_ok s \<Longrightarrow> quiet s s"
  by (simp add: quiet_def)

lemma view_clear_category: "entity_view (clear_category now cat s) = entity_view s"
  by (rule ext) (simp add: entity_view_def clear_category_states option.map_comp comp_def clear_state_def)

lemma view_clear_all: "entity_view (clear_all now s) = entity_view s"
  by (rule ext) (simp add: entity_view_def clear_all_def start_save_def Let_def fold_clear_states option.map_comp
      comp_def clear_state_def)

lemma view_wake: "entity_view (wake now i s) = entity_view s"
proof
  fix c show "entity_view (wake now i s) c = entity_view s c"
    by (cases "map_of (co_states s) c")
      (auto simp: entity_view_def wake_def start_save_def clear_state_def split: task.split option.split)
qed

lemma view_finish: "entity_view (finish_save ok i s) = entity_view s"
  by (rule ext) (simp add: entity_view_def finish_save_def split: task.split)

lemma view_poll: "entity_view (snd (update_data net t0 t1 t2 tick s)) = entity_view s"
proof
  fix c
  have "rel_option poll_frame (map_of (co_states s) c) (map_of (co_states (snd (update_data net t0 t1 t2 tick s))) c)"
    using update_data_frame [of s net t0 t1 t2 tick] by (simp add: states_frame_def)
  then show "entity_view (snd (update_data net t0 t1 t2 tick s)) c = entity_view s c"
    by (auto simp: entity_view_def poll_frame_def elim!: option.rel_cases)
qed

lemmas views = view_clear_category view_clear_all view_wake view_finish view_poll

lemma sound_event:
  assumes "\<And>tick cat a. e \<noteq> Push tick cat a"
  shows "sound (\<lambda>s. (Inr (), run_event s e))"
proof (rule soundI)
  fix s assume "coord_ok s"
  moreover have "entity_view (run_event s e) = entity_view s"
  proof (cases e)
    case (Push tick cat a)
    with assms show ?thesis by blast
  qed (simp_all add: run_event_def views)
  ultimately show "quiet s (snd (Inr (), run_event s e)) \<or> (\<exists>cat a. counts cat a s (snd (Inr (), run_event s e)))"
    using coord_runs.step_inv [of s e] by (simp add: quiet_def)
qed

lemma quiet_press:
  assumes "coord_ok s" "is_aware now"
  shows "quiet s (press now e s)"
  using assms by (cases e) (simp_all add: quiet_def views coord_ok_clear_category coord_ok_clear_all)

lemma sound_press:
  "is_aware now \<Longrightarrow> sound (\<lambda>s. (Inr (), if e \<in> set (button_setup s) then press now e s else s))"
  by (rule soundI) (simp add: quiet_press quiet_refl)

lemma quiet_await:
  assumes "quiet s (clear s)" "length (co_tasks s) \<le> length (co_tasks (clear s))"
  shows "quiet s (snd (await_clear clear failure s))"
proof (cases "length (co_tasks (clear s)) = length (co_tasks s)")
  case False
  with assms have "coord_ok (finish_save ok (length (co_tasks s)) (clear s))" for ok
    by (simp add: quiet_def coord_ok_finish_save)
  with False assms(1) show ?thesis
    by (simp add: await_clear_def Let_def quiet_def views split: option.split)
qed (use assms in \<open>simp add: await_clear_def Let_def\<close>)

lemma sound_clears:
  assumes "is_aware now"
  shows "sound (await_clear (clear_category now cat) failure)" "sound (await_clear (clear_all now) failure)"
proof -
  have "length (co_tasks s) \<le> length (co_tasks (clear_category now cat s))" for s
    using clear_category_tasks [of s cat now] by (cases "map_of (co_states s) cat") (auto simp: clear_category_def)
  moreover have "length (co_tasks (fold (clear_one now) cs s)) = length (co_tasks s)" for cs s
    by (induction cs arbitrary: s) (simp_all add: clear_one_def Let_def)
  then have "length (co_tasks s) \<le> length (co_tasks (clear_all now s))" for s
    by (simp add: clear_all_def start_save_def Let_def emit_def)
  moreover have "quiet s (clear_category now cat s)" "quiet s (clear_all now s)" if "coord_ok s" for s
    using that assms by (simp_all add: quiet_def views coord_ok_clear_category coord_ok_clear_all)
  ultimately show "sound (await_clear (clear_category now cat) failure)" "sound (await_clear (clear_all now) failure)"
    by (auto intro!: soundI quiet_await)
qed

text \<open>A webhook request: refused or suppressed without a trace for the entities, or one alert counted.\<close>

lemma announcedI: "co_effects s' = es @ co_effects s \<Longrightarrow> Notified \<in> set es \<Longrightarrow> announced s s'"
  by (simp add: announced_def)

lemma push_quiet:
  assumes "coord_ok s" "is_aware (al_received_at a)" "\<not> accepted s tick cat a"
  shows "quiet s (snd (push_alert tick cat a s))"
proof -
  have "entity_view (snd (push_alert tick cat a s)) = entity_view s"
    using push_alert_cases [OF assms(1,2), of cat tick] assms(3)
    by (elim disjE exE conjE)
      (auto simp: entity_view_def accepted_def category_available_def get_category_state_def passes_def
        dict.lookup_put schedule_persist_def record_filtered_def fun_eq_iff)
  with coord_ok_push [OF assms(1,2)] show ?thesis by (simp add: quiet_def)
qed

lemma push_counts:
  assumes "coord_ok s" "is_aware (al_received_at a)" "accepted s tick cat a"
  shows "co_effects (snd (push_alert tick cat a s)) = [Notified, DelaySaveRequested] @ co_effects s"
    and "c \<noteq> cat \<Longrightarrow> entity_view (snd (push_alert tick cat a s)) c = entity_view s c"
    and "\<exists>st st'. map_of (co_states s) cat = Some st \<and> map_of (co_states (snd (push_alert tick cat a s))) cat = Some st' \<and>
        cs_enabled st \<and> cs_enabled st' \<and> cs_last_alert st' = Some a \<and> cs_alert_count st' = cs_alert_count st + 1 \<and>
        cs_is_alerting st'"
proof -
  obtain st where st: "map_of (co_states s) cat = Some st" "cs_enabled st"
    using assms(3) by (auto simp: accepted_def category_available_def get_category_state_def split: option.splits)
  have ok: "cat_ok st" using states_okD [OF coord_states [OF assms(1)] st(1)] .
  then have "state_ok st" by (simp add: cat_ok_def)
  obtain table where run: "snd (push_alert tick cat a s) = emit Notified (schedule_clear tick cat (schedule_persist
      (s\<lparr>co_last_push_at := table, co_states := AList.update cat (snd (push_state a st)) (co_states s)\<rparr>)))"
    using push_alert_cases [OF assms(1,2), of cat tick] assms(3) st by (auto simp: accepted_def passes_def)
  show "co_effects (snd (push_alert tick cat a s)) = [Notified, DelaySaveRequested] @ co_effects s"
    by (simp add: run schedule_persist_def)
  show "c \<noteq> cat \<Longrightarrow> entity_view (snd (push_alert tick cat a s)) c = entity_view s c"
    by (simp add: run schedule_persist_def entity_view_def dict.lookup_put)
  show "\<exists>st st'. map_of (co_states s) cat = Some st \<and> map_of (co_states (snd (push_alert tick cat a s))) cat = Some st' \<and>
        cs_enabled st \<and> cs_enabled st' \<and> cs_last_alert st' = Some a \<and> cs_alert_count st' = cs_alert_count st + 1 \<and>
        cs_is_alerting st'"
    using st by (simp add: run schedule_persist_def dict.lookup_put push_state_ok [OF ok assms(2)]
        apply_alert_ok [OF \<open>state_ok st\<close>])
qed

lemma handle_webhook_state:
  assumes "coord_ok s" "is_aware now"
  shows "snd (handle_webhook loads entry_id category secret now tick rq s) = s \<or>
    (\<exists>a e e'. al_received_at a = now \<and>
       snd (handle_webhook loads entry_id category secret now tick rq s) = emit e' (emit e (snd (push_alert tick category a s))))"
proof -
  have "snd (deliver entry_id category now tick h payload s) = s \<or>
    (\<exists>a e e'. al_received_at a = now \<and>
       snd (deliver entry_id category now tick h payload s) = emit e' (emit e (snd (push_alert tick category a s))))" for h payload
  proof (cases "from_webhook_payload now category payload")
    case (Inr a)
    then have a: "al_received_at a = now" by (rule webhook_alert(2))
    with push_alert_returns [OF assms(1), of a tick category] assms(2)
    have "push_alert tick category a s = (Inr (), snd (push_alert tick category a s))" by (metis prod.collapse)
    with Inr have "snd (deliver entry_id category now tick h payload s) = emit (if h then IssueDeleted (legacy_query_issue entry_id)
        else IssueCreated (legacy_query_issue entry_id)) (emit (IssueDeleted (rotated_issue entry_id)) (snd (push_alert tick category a s)))"
      by (cases "push_alert tick category a s")
        (simp add: deliver_def bindS_def liftS_def modifyS_def returnS_def raise_legacy_query_auth_issue_def)
    with a show ?thesis by blast
  qed (simp add: deliver_def bindS_def liftS_def)
  then show ?thesis
    by (auto simp: handle_webhook_def act_defs split: sum.split prod.split)
qed

lemma counts_emit2:
  assumes "coord_ok s" "is_aware (al_received_at a)" "accepted s tick cat a"
  shows "counts cat a s (emit e' (emit e (snd (push_alert tick cat a s))))"
proof -
  have "announced s (emit e' (emit e (snd (push_alert tick cat a s))))"
    by (rule announcedI [of _ "[e', e, Notified, DelaySaveRequested]"]) (simp_all add: push_counts(1) [OF assms])
  with coord_ok_push [OF assms(1,2)] push_counts(2) [OF assms] push_counts(3) [OF assms] show ?thesis
    by (fastforce simp: counts_def entity_view_def)
qed

lemma sound_webhook:
  assumes "is_aware now"
  shows "sound (handle_webhook loads entry_id category secret now tick rq)"
proof (rule soundI)
  fix s assume s: "coord_ok s"
  let ?s = "snd (handle_webhook loads entry_id category secret now tick rq s)"
  from handle_webhook_state [OF s assms, of loads entry_id category secret tick rq]
  show "quiet s ?s \<or> (\<exists>cat a. counts cat a s ?s)"
  proof (elim disjE exE conjE)
    fix a e e' assume a: "al_received_at a = now" "?s = emit e' (emit e (snd (push_alert tick category a s)))"
    have aware: "is_aware (al_received_at a)" using a(1) assms by simp
    show ?thesis
    proof (cases "accepted s tick category a")
      case True
      from counts_emit2 [OF s aware this] show ?thesis unfolding a(2) by blast
    next
      case False
      with push_quiet [OF s aware] a(2) show ?thesis by (simp add: quiet_def entity_view_def fun_eq_iff)
    qed
  qed (simp add: quiet_refl s)
qed

subsection \<open>The entities of an entry\<close>

text \<open>The event entities are those of the enabled categories and have seen the current counts.\<close>

definition seen_ok :: "coord \<Rightarrow> (string \<times> int) list \<Rightarrow> bool" where
  "seen_ok s seen \<longleftrightarrow> map fst seen = filter (category_available s) ALL_CATEGORIES \<and>
     (\<forall>(cat, n) \<in> set seen. in_sync s cat n)"

lemma map_filter_events:
  "List.map_filter (\<lambda>e. case e of UniFiAlertEventEntity c \<Rightarrow> Some (f c) | _ \<Rightarrow> None) (map UniFiAlertEventEntity cs) = map f cs"
  by (induction cs) (simp_all add: List.map_filter_simps)

lemma added_ok: "seen_ok s (added_events s)"
proof -
  have "added_events s = map (\<lambda>c. (c, event_added_to_hass s c 0)) (filter (category_available s) ALL_CATEGORIES)"
    unfolding added_events_def event_setup_def by (rule map_filter_events)
  moreover have "in_sync s c (event_added_to_hass s c 0)" if "category_available s c" for c
    using that by (cases "get_category_state c s")
      (simp_all add: in_sync_def alert_count_of_def event_added_to_hass_def category_available_def get_category_state_def)
  ultimately show ?thesis by (simp add: seen_ok_def comp_def list_all_iff)
qed

lemma notify_in_sync:
  assumes "\<forall>(cat, n) \<in> set seen. in_sync s cat n"
  shows "notify_events s seen = (seen, [])"
  using assms
proof (induction seen)
  case (Cons p seen)
  obtain c n where p: "p = (c, n)" by (cases p)
  have "handle_coordinator_update s c n = (n, None)" using Cons.prems p by (simp add: update_in_sync)
  with Cons p show ?case by (simp add: notify_events_def List.map_filter_simps)
qed (simp add: notify_events_def List.map_filter_simps)

lemma quiet_seen:
  assumes "quiet s s'" "seen_ok s seen"
  shows "seen_ok s' seen" "notify_events s' seen = (seen, [])"
proof -
  have view: "entity_view s' c = entity_view s c" for c using assms(1) by (simp add: quiet_def)
  then have "category_available s' = category_available s" "in_sync s' c n = in_sync s c n" for c n
    by (auto simp: in_sync_def view_same(2) [OF view] intro!: ext view_same(1))
  with assms(2) show "seen_ok s' seen" by (simp add: seen_ok_def)
  then show "notify_events s' seen = (seen, [])" by (auto simp: seen_ok_def intro: notify_in_sync)
qed


text \<open>A counted alert fires the event entity of its category, once, with that alert.\<close>

lemma notify_one:
  assumes "distinct (map fst seen)" "(cat, n) \<in> set seen" "\<And>c k. (c, k) \<in> set seen \<Longrightarrow> c \<noteq> cat \<Longrightarrow> in_sync s c k"
    and "handle_coordinator_update s cat n = (n', Some d)"
  shows "notify_events s seen = (map (\<lambda>(c, k). (c, if c = cat then n' else k)) seen, [(cat, d)])"
  using assms(1-3)
proof (induction seen)
  case (Cons p seen)
  obtain c k where p: "p = (c, k)" by (cases p)
  show ?case
  proof (cases "c = cat")
    case True
    then have others: "c' \<noteq> cat" if "(c', k') \<in> set seen" for c' k' using Cons.prems(1) p that by force
    with Cons.prems(3) have "notify_events s seen = (seen, [])" by (intro notify_in_sync) auto
    moreover have "k = n" using True others Cons.prems(2) p by auto
    moreover have "map (\<lambda>(c, k). (c, if c = cat then n' else k)) seen = seen"
      using others by (intro map_idI) auto
    ultimately show ?thesis using True p assms(4) by (simp add: notify_events_def List.map_filter_simps)
  next
    case False
    then have "handle_coordinator_update s c k = (k, None)" using Cons.prems(3) p by (simp add: update_in_sync)
    moreover have "notify_events s seen = (map (\<lambda>(c, k). (c, if c = cat then n' else k)) seen, [(cat, d)])"
      using Cons False p by auto
    ultimately show ?thesis using False p by (simp add: notify_events_def List.map_filter_simps)
  qed
qed simp

lemma states_cat:
  assumes "states_ok s" "map_of (co_states s) cat = Some st"
  shows "cat \<in> set ALL_CATEGORIES"
proof -
  have "fst (cat, st) \<in> fst ` set (co_states s)" using assms(2) by (intro imageI map_of_SomeD)
  with assms(1) show ?thesis by (simp add: states_ok_def flip: set_map)
qed

lemma counts_available:
  assumes "counts cat a s s'"
  shows "category_available s' = category_available s"
proof
  fix c
  show "category_available s' c = category_available s c"
  proof (cases "c = cat")
    case True
    with assms show ?thesis by (auto simp: counts_def category_available_def get_category_state_def)
  next
    case False
    with assms have "entity_view s' c = entity_view s c" by (simp add: counts_def)
    then show ?thesis by (rule view_same)
  qed
qed

lemma counts_seen:
  assumes "counts cat a s s'" "seen_ok s seen" "coord_ok s"
  shows "\<exists>seen'. notify_events s' seen = (seen', [(cat, event_payload cat a)]) \<and> seen_ok s' seen'"
proof -
  obtain st st' where st: "map_of (co_states s) cat = Some st" "map_of (co_states s') cat = Some st'"
    "cs_enabled st" "cs_enabled st'" "cs_last_alert st' = Some a" "cs_alert_count st' = cs_alert_count st + 1"
    using assms(1) by (auto simp: counts_def)
  note avail = counts_available [OF assms(1)]
  have seen: "map fst seen = filter (category_available s) ALL_CATEGORIES" "\<And>c k. (c, k) \<in> set seen \<Longrightarrow> in_sync s c k"
    using assms(2) by (auto simp: seen_ok_def)
  have sync: "in_sync s' c k = in_sync s c k" if "c \<noteq> cat" for c k
    using that assms(1) view_same(2) [of s' c s] by (simp add: counts_def in_sync_def)
  have "distinct (map fst seen)" unfolding seen(1) by (simp add: ALL_CATEGORIES_def category_defs)
  moreover have "cat \<in> set ALL_CATEGORIES"
    using coord_states [OF assms(3)] st(1) by (rule states_cat)
  with st(1,3) have "cat \<in> set (map fst seen)"
    unfolding seen(1) by (simp add: category_available_def get_category_state_def)
  then obtain n where n: "(cat, n) \<in> set seen" by auto
  moreover have up: "handle_coordinator_update s' cat n = (cs_alert_count st', Some (event_payload cat a))"
    using seen(2) [OF n] st by (simp add: in_sync_def alert_count_of_def handle_coordinator_update_def get_category_state_def)
  ultimately have "notify_events s' seen = (map (\<lambda>(c, k). (c, if c = cat then cs_alert_count st' else k)) seen, [(cat, event_payload cat a)])"
    using seen(2) sync by (intro notify_one) auto
  moreover have "seen_ok s' (map (\<lambda>(c, k). (c, if c = cat then cs_alert_count st' else k)) seen)"
    using seen sync st(2) by (auto simp: seen_ok_def avail comp_def case_prod_beta in_sync_def alert_count_of_def)
  ultimately show ?thesis by blast
qed


text \<open>Both together: what a sound method and the update of the entities after it do.\<close>

definition fired_for :: "string \<Rightarrow> (string \<times> dict) list \<Rightarrow> int" where
  "fired_for cat fired = int (length (filter (\<lambda>e. fst e = cat) fired))"

lemma entities_follow:
  assumes "sound m" "coord_ok s" "seen_ok s seen"
  shows "\<exists>seen' fired. (if told \<or> announced s (snd (m s)) then notify_events (snd (m s)) seen else (seen, [])) = (seen', fired) \<and>
    coord_ok (snd (m s)) \<and> seen_ok (snd (m s)) seen' \<and> category_available (snd (m s)) = category_available s \<and>
    (\<forall>c. alert_count_of (snd (m s)) c = map_option (\<lambda>n. n + fired_for c fired) (alert_count_of s c))"
proof -
  let ?s = "snd (m s)"
  from assms(1,2) have "quiet s ?s \<or> (\<exists>cat a. counts cat a s ?s)" by (simp add: sound_def)
  then show ?thesis
  proof (elim disjE exE)
    assume q: "quiet s ?s"
    then have v: "entity_view ?s c = entity_view s c" for c by (simp add: quiet_def)
    from quiet_seen [OF q assms(3)] q
    have "(if told \<or> announced s ?s then notify_events ?s seen else (seen, [])) = (seen, [])"
      "coord_ok ?s" "seen_ok ?s seen" by (auto simp: quiet_def)
    moreover have "category_available ?s = category_available s" by (intro ext view_same(1) v)
    moreover have "alert_count_of ?s c = map_option (\<lambda>n. n + fired_for c []) (alert_count_of s c)" for c
      using view_same(2) [OF v, of c] by (simp add: fired_for_def option.map_ident)
    ultimately show ?thesis by blast
  next
    fix cat a assume c: "counts cat a s ?s"
    from counts_seen [OF c assms(3,2)] obtain seen' where
      n: "notify_events ?s seen = (seen', [(cat, event_payload cat a)])" "seen_ok ?s seen'" by blast
    have "alert_count_of ?s d = map_option (\<lambda>n. n + fired_for d [(cat, event_payload cat a)]) (alert_count_of s d)" for d
    proof (cases "d = cat")
      case True
      with c show ?thesis by (auto simp: counts_def alert_count_of_def fired_for_def)
    next
      case False
      with c have "entity_view ?s d = entity_view s d" by (simp add: counts_def)
      from view_same(2) [OF this] False show ?thesis by (simp add: fired_for_def option.map_ident)
    qed
    moreover have "announced s ?s" "coord_ok ?s" using c by (simp_all add: counts_def)
    ultimately show ?thesis using n counts_available [OF c] by auto
  qed
qed

subsection \<open>The invariant\<close>

definition registered_by :: "'h system \<Rightarrow> string list" where
  "registered_by sys = concat (map (\<lambda>inst. wm_registered (in_manager inst)) (sy_running sys))"

definition installation_ok :: "'h installation \<Rightarrow> bool" where
  "installation_ok inst \<longleftrightarrow> ke_domain inst = DOMAIN \<and> coord_ok (ke_coord inst) \<and> seen_ok (ke_coord inst) (in_seen inst) \<and>
     (\<exists>cs. list_all (\<lambda>c. c \<in> set ALL_CATEGORIES \<and> category_available (ke_coord inst) c) cs \<and>
        wm_registered (in_manager inst) = map (\<lambda>c. webhook_id_for_category c (id_suffix_of (in_config inst))) cs)"

text \<open>\<open>base\<close> are the webhook identifiers others hold.\<close>

definition system_ok :: "('h \<Rightarrow> string \<Rightarrow> bool) \<Rightarrow> (string \<Rightarrow> bool) \<Rightarrow> 'h system \<Rightarrow> bool" where
  "system_ok has base sys \<longleftrightarrow>
     distinct (map ke_id (sy_running sys)) \<and> list_all installation_ok (sy_running sys) \<and>
     list_all (\<lambda>inst. ke_loaded inst \<longrightarrow> ke_id inst \<in> set (sy_entries sys) \<and>
         SERVICE_CLEAR_CATEGORY \<in> set (hm_services (sy_home sys)) \<and> SERVICE_CLEAR_ALL \<in> set (hm_services (sy_home sys)))
       (sy_running sys) \<and>
     distinct (registered_by sys) \<and> list_all (\<lambda>i. \<not> base i) (registered_by sys) \<and>
     has (hm_webhooks (sy_home sys)) = (\<lambda>i. base i \<or> i \<in> set (registered_by sys))"

text \<open>The alerts counted for a category of an entry, less the events fired for it.\<close>

definition events_for :: "string \<Rightarrow> string \<Rightarrow> 'h system \<Rightarrow> int" where
  "events_for i cat sys = int (length (filter (\<lambda>e. fst e = i \<and> fst (snd e) = cat) (sy_events sys)))"

definition balance :: "'h system \<Rightarrow> string \<Rightarrow> string \<Rightarrow> int option" where
  "balance sys i cat =
     (case find_entry i (sy_running sys) of
        None \<Rightarrow> None
      | Some inst \<Rightarrow> map_option (\<lambda>n. n - events_for i cat sys) (alert_count_of (ke_coord inst) cat))"

lemma find_entry_replace:
  assumes "find_entry i es = Some e" "ke_id e' = i"
  shows "find_entry j (map (\<lambda>x. if ke_id x = i then e' else x) es) = (if j = i then Some e' else find_entry j es)"
proof (cases "j = i")
  case True
  with assms show ?thesis unfolding find_entry_def by (induction es) (auto split: if_splits)
next
  case False
  with assms(2) have "find_entry j (map (\<lambda>x. if ke_id x = i then e' else x) es) = find_entry j es"
    unfolding find_entry_def by (induction es) auto
  with False show ?thesis by simp
qed

lemma replace_frame:
  assumes "\<And>x. x \<in> set es \<Longrightarrow> ke_id x = i \<Longrightarrow> g e' = g x"
  shows "map g (map (\<lambda>x. if ke_id x = i then e' else x) es) = map g es"
  using assms by (induction es) auto

lemma list_all_replace:
  "list_all P es \<Longrightarrow> P e' \<Longrightarrow> list_all P (map (\<lambda>x. if ke_id x = i then e' else x) es)"
  by (auto simp: list_all_iff)

lemma events_for_append: "events_for j cat (sys\<lparr>sy_running := r, sy_events := sy_events sys @ map (Pair i) fired\<rparr>)
    = events_for j cat sys + (if j = i then fired_for cat fired else 0)"
  by (simp add: events_for_def fired_for_def filter_map comp_def)

lemma on_running_entry_eq:
  assumes "find_entry i (sy_running sys) = Some inst"
    and "(if told \<or> announced (ke_coord inst) (snd (m (ke_coord inst))) then notify_events (snd (m (ke_coord inst))) (in_seen inst)
       else (in_seen inst, [])) = (seen, fired)"
  shows "on_running_entry told i m sys = (Some (fst (m (ke_coord inst))),
    sys\<lparr>sy_running := map (\<lambda>x. if ke_id x = i then inst\<lparr>ke_coord := snd (m (ke_coord inst)), in_seen := seen\<rparr> else x) (sy_running sys),
        sy_events := sy_events sys @ map (Pair i) fired\<rparr>)"
  unfolding on_running_entry_def assms(1) using assms(2) by (simp only: option.case case_prod_beta) simp

lemma on_running_entry_keeps:
  assumes "system_ok has base sys" "sound m"
  shows "system_ok has base (snd (on_running_entry told i m sys)) \<and> balance (snd (on_running_entry told i m sys)) = balance sys"
proof (cases "find_entry i (sy_running sys)")
  case (Some inst)
  note ok = assms(1) [unfolded system_ok_def]
  have d: "distinct (map ke_id (sy_running sys))" using ok by blast
  have inst: "inst \<in> set (sy_running sys)" "ke_id inst = i" using Some by (simp_all add: find_entry_iff [OF d])
  then have iok: "installation_ok inst" using ok by (auto simp: list_all_iff)
  have same: "x = inst" if "x \<in> set (sy_running sys)" "ke_id x = i" for x
    using that inst d by (auto simp: distinct_map dest: inj_onD)
  let ?s = "snd (m (ke_coord inst))"
  from iok have "coord_ok (ke_coord inst)" "seen_ok (ke_coord inst) (in_seen inst)" by (simp_all add: installation_ok_def)
  from entities_follow [OF assms(2) this, of told] obtain seen' fired where
    p: "(if told \<or> announced (ke_coord inst) ?s then notify_events ?s (in_seen inst) else (in_seen inst, [])) = (seen', fired)"
    and s: "coord_ok ?s" "seen_ok ?s seen'" "category_available ?s = category_available (ke_coord inst)"
    and count: "\<And>c. alert_count_of ?s c = map_option (\<lambda>n. n + fired_for c fired) (alert_count_of (ke_coord inst) c)"
    by blast
  let ?inst = "inst\<lparr>ke_coord := ?s, in_seen := seen'\<rparr>"
  let ?run = "map (\<lambda>x. if ke_id x = i then ?inst else x) (sy_running sys)"
  let ?sys = "sys\<lparr>sy_running := ?run, sy_events := sy_events sys @ map (Pair i) fired\<rparr>"
  have run: "snd (on_running_entry told i m sys) = ?sys"
    using on_running_entry_eq [where m = m, OF Some p] by simp
  have "installation_ok ?inst" using iok s by (simp add: installation_ok_def)
  moreover have "map ke_id ?run = map ke_id (sy_running sys)" by (rule replace_frame) (simp add: inst(2))
  moreover have "map (\<lambda>x. wm_registered (in_manager x)) ?run = map (\<lambda>x. wm_registered (in_manager x)) (sy_running sys)"
    by (rule replace_frame) (use same in force)
  then have "registered_by ?sys = registered_by sys" by (simp add: registered_by_def del: map_map)
  ultimately have "system_ok has base ?sys"
    using ok inst by (auto simp: system_ok_def list_all_replace simp del: map_map) (auto simp: list_all_iff)
  moreover have "balance ?sys j c = balance sys j c" for j c
    using find_entry_replace [OF Some, of ?inst j] inst(2) Some count [of c]
    by (cases "alert_count_of (ke_coord inst) c") (simp_all add: balance_def events_for_append split: option.split)
  ultimately show ?thesis by (simp add: run fun_eq_iff)
qed (use assms(1) in \<open>simp add: on_running_entry_def\<close>)


subsection \<open>Setup and unload in the system\<close>

lemma restore_cleared_enabled: "cs_enabled (restore_cleared v st) = cs_enabled st"
  by (simp add: restore_cleared_def split: option.split)

lemma enabled_restore_entry: "keepsS (\<lambda>st. cs_enabled st = b) (restore_entry now entry)"
proof -
  have "keepsS (\<lambda>st. cs_enabled st = b) (modifyS f)" if "\<And>st. cs_enabled (f st) = cs_enabled st" for f
    using that by (simp add: keepsS_def modifyS_def)
  note m = this
  show ?thesis
    by (cases entry) (auto simp: restore_entry_def Let_def restore_cleared_enabled
        intro!: keepsS_bind keepsS_when m split: sum.split option.split)
qed

lemma available_restore: "category_available (snd (restore_watermarks now data s)) = category_available s"
proof -
  have one: "keepsS (\<lambda>x. category_available x = category_available s) (on_state cat () (restore_entry now entry))" for cat entry
  proof -
    have "category_available (snd (on_state cat () (restore_entry now entry) x)) c = category_available x c" for x c
    proof (cases "map_of (co_states x) cat")
      case (Some st)
      obtain r st' where p: "restore_entry now entry st = (r, st')" by (cases "restore_entry now entry st")
      from keepsS_D [OF enabled_restore_entry refl, of now entry st] p have "cs_enabled st' = cs_enabled st" by simp
      with Some p show ?thesis
        by (simp add: on_state_def category_available_def get_category_state_def dict.lookup_put)
    qed (simp add: on_state_def)
    then show ?thesis by (simp add: keepsS_def fun_eq_iff)
  qed
  have "keepsS (\<lambda>x. category_available x = category_available s) (restore_watermarks now data)"
    using one by (auto simp: restore_watermarks_def intro!: keepsS_for split: pyval.split)
  from keepsS_D [OF this refl] show ?thesis .
qed

lemma available_first_refresh: "category_available (snd (first_refresh env s)) = category_available s"
proof
  fix c
  obtain t0 t1 t2 where t: "ev_times env = (t0, t1, t2)" by (cases "ev_times env")
  have "snd (first_refresh env s) = snd (update_data (ev_net env) t0 t1 t2 (ev_tick env) s)"
    by (simp add: first_refresh_def t tryS_def raiseS_def split: prod.split sum.split)
  with view_same(1) [OF fun_cong [OF view_poll]]
  show "category_available (snd (first_refresh env s)) c = category_available s c" by simp
qed

lemma available_new:
  assumes "new_coordinator client config entry_id = Some s"
  shows "category_available s c \<longleftrightarrow> c \<in> set ALL_CATEGORIES \<and> PStr c \<in> set (enabled_of config)"
proof -
  obtain enabled where e: "dget config CONF_ENABLED_CATEGORIES (PList (map PStr ALL_CATEGORIES)) = PList enabled"
    "co_states s = map (\<lambda>cat. (cat, new_category_state cat (PStr cat \<in> set enabled))) ALL_CATEGORIES"
    using new_coordinator_fields [OF assms] by blast
  have "map_of (co_states s) c = (if c \<in> set ALL_CATEGORIES then Some (new_category_state c (PStr c \<in> set enabled)) else None)"
    by (simp add: e(2) map_of_map_restrict restrict_map_def)
  with e(1) show ?thesis
    by (simp add: category_available_def get_category_state_def enabled_of_def new_category_state_def)
qed

lemma setup_coordinator_available:
  assumes "setup_coordinator env entry = Some (r, Some s)"
  shows "category_available s c \<longleftrightarrow> c \<in> set ALL_CATEGORIES \<and> PStr c \<in> set (enabled_of (merged_config entry))"
proof -
  obtain cl x where new: "new_coordinator cl (merged_config entry) (ce_id entry) = Some x"
    and s: "s = snd (bindS (restore_watermarks (ev_now env) (ev_stored env)) (\<lambda>_. first_refresh env) x)"
    using assms by (auto simp: setup_coordinator_def split: pyval.splits prod.splits sum.splits option.splits)
  have "category_available s = category_available x"
    unfolding s using available_restore [of "ev_now env" "ev_stored env" x]
    by (auto simp: bindS_def available_first_refresh split: prod.split sum.split)
  with available_new [OF new] show ?thesis by simp
qed

lemma setup_entry_success:
  assumes "registry_ok has (ev_reg env) (ev_unreg env)" "aware_data (ev_stored env)"
    and "setup_entry env entry home = Some (Inr m, Some s, home')"
  shows "coord_ok s"
    and "wm_registered m = map (\<lambda>c. webhook_id_for_category c (id_suffix_of (merged_config entry)))
       (to_register has (enabled_of (merged_config entry)) (id_suffix_of (merged_config entry)) (hm_webhooks home) ALL_CATEGORIES)"
    and "has (hm_webhooks home') = (\<lambda>i. has (hm_webhooks home) i \<or> i \<in> set (wm_registered m))"
    and "category_available s c \<longleftrightarrow> c \<in> set ALL_CATEGORIES \<and> PStr c \<in> set (enabled_of (merged_config entry))"
    and "hm_services home' = register_services (hm_services home)"
proof -
  obtain u s0 where c: "setup_coordinator env entry = Some (Inr u, Some s0)"
    and p: "setup_platforms env entry s0 home = (Inr m, s, home')"
    using assms(3) by (auto simp: setup_entry_def split: option.splits sum.splits prod.splits)
  let ?m = "\<lparr> wm_hass = hm_webhooks home, wm_registered = [], wm_urls = [] \<rparr>"
  have "wm_registered ?m = []" by simp
  from register_all_spec [OF assms(1) this, of "ev_url env" "enabled_of (merged_config entry)" "id_suffix_of (merged_config entry)"]
  obtain m' where m': "register_all (ev_reg env) (ev_url env) (enabled_of (merged_config entry))
        (id_suffix_of (merged_config entry)) ?m = Inr m'"
    and urls: "map fst (wm_urls m') = to_register has (enabled_of (merged_config entry))
        (id_suffix_of (merged_config entry)) (wm_hass ?m) ALL_CATEGORIES"
      "wm_registered m' = map (\<lambda>c. webhook_id_for_category c (id_suffix_of (merged_config entry))) (map fst (wm_urls m'))"
    and has: "has (wm_hass m') = (\<lambda>i. has (wm_hass ?m) i \<or> i \<in> set (wm_registered m'))"
    by (elim exE conjE)
  have reg: "wm_registered m' = map (\<lambda>c. webhook_id_for_category c (id_suffix_of (merged_config entry)))
       (to_register has (enabled_of (merged_config entry)) (id_suffix_of (merged_config entry)) (hm_webhooks home) ALL_CATEGORIES)"
    by (simp only: urls manager.simps)
  from p m' have e: "m = m'" "s = s0" "hm_webhooks home' = wm_hass m'" "hm_services home' = register_services (hm_services home)"
    by (auto simp: setup_platforms_def Let_def split: option.splits)
  with reg has setup_coordinator_ok [OF c assms(2)] setup_coordinator_available [OF c]
  show "coord_ok s" "wm_registered m = map (\<lambda>c. webhook_id_for_category c (id_suffix_of (merged_config entry)))
       (to_register has (enabled_of (merged_config entry)) (id_suffix_of (merged_config entry)) (hm_webhooks home) ALL_CATEGORIES)"
    "has (hm_webhooks home') = (\<lambda>i. has (hm_webhooks home) i \<or> i \<in> set (wm_registered m))"
    "category_available s c \<longleftrightarrow> c \<in> set ALL_CATEGORIES \<and> PStr c \<in> set (enabled_of (merged_config entry))"
    "hm_services home' = register_services (hm_services home)" by simp_all
qed

lemma setup_entry_failure:
  assumes "registry_ok has (ev_reg env) (ev_unreg env)" "setup_entry env entry home = Some (Inl e, left, home')"
  shows "has (hm_webhooks home') = has (hm_webhooks home)" "hm_services home' = hm_services home"
proof -
  have "has (hm_webhooks h) = has (hm_webhooks home) \<and> hm_services h = hm_services home"
    if "setup_platforms env entry s home = (Inl err, s', h)" for s err s' h
    using setup_platforms_cases [OF assms(1) that] by (auto split: option.splits)
  then show "has (hm_webhooks home') = has (hm_webhooks home)" "hm_services home' = hm_services home"
    using assms(2) by (auto simp: setup_entry_def split: option.splits sum.splits prod.splits)
qed


lemma services_registered:
  "SERVICE_CLEAR_CATEGORY \<in> set (register_services xs)" "SERVICE_CLEAR_ALL \<in> set (register_services xs)"
  by (simp_all add: register_services_def Let_def)

text \<open>The fields of the invariant.\<close>

lemma system_okD:
  assumes "system_ok has base sys"
  shows "distinct (map ke_id (sy_running sys))" "list_all installation_ok (sy_running sys)"
    and "inst \<in> set (sy_running sys) \<Longrightarrow> ke_loaded inst \<Longrightarrow> ke_id inst \<in> set (sy_entries sys) \<and>
         SERVICE_CLEAR_CATEGORY \<in> set (hm_services (sy_home sys)) \<and> SERVICE_CLEAR_ALL \<in> set (hm_services (sy_home sys))"
    and "distinct (registered_by sys)" "list_all (\<lambda>i. \<not> base i) (registered_by sys)"
    and "has (hm_webhooks (sy_home sys)) = (\<lambda>i. base i \<or> i \<in> set (registered_by sys))"
  using assms by (auto simp: system_ok_def list_all_iff)

lemma system_okI:
  assumes "distinct (map ke_id (sy_running sys))" "list_all installation_ok (sy_running sys)"
    and "\<And>inst. inst \<in> set (sy_running sys) \<Longrightarrow> ke_loaded inst \<Longrightarrow> ke_id inst \<in> set (sy_entries sys) \<and>
         SERVICE_CLEAR_CATEGORY \<in> set (hm_services (sy_home sys)) \<and> SERVICE_CLEAR_ALL \<in> set (hm_services (sy_home sys))"
    and "distinct (registered_by sys)" "list_all (\<lambda>i. \<not> base i) (registered_by sys)"
    and "has (hm_webhooks (sy_home sys)) = (\<lambda>i. base i \<or> i \<in> set (registered_by sys))"
  shows "system_ok has base sys"
  using assms by (auto simp: system_ok_def list_all_iff)

text \<open>A new entry known to the system, and a home in which only the entity registry differs.\<close>

lemma system_ok_known:
  assumes "system_ok has base sys" "set (sy_entries sys) \<subseteq> set entries"
    and "has (hm_webhooks home) = has (hm_webhooks (sy_home sys))" "set (hm_services (sy_home sys)) \<subseteq> set (hm_services home)"
  shows "system_ok has base (sys\<lparr>sy_entries := entries, sy_home := home\<rparr>)"
proof (rule system_okI)
  note ok = system_okD [OF assms(1)]
  let ?sys = "sys\<lparr>sy_entries := entries, sy_home := home\<rparr>"
  have r: "registered_by ?sys = registered_by sys" by (simp add: registered_by_def)
  show "distinct (map ke_id (sy_running ?sys))" "list_all installation_ok (sy_running ?sys)"
    "distinct (registered_by ?sys)" "list_all (\<lambda>i. \<not> base i) (registered_by ?sys)"
    "has (hm_webhooks (sy_home ?sys)) = (\<lambda>i. base i \<or> i \<in> set (registered_by ?sys))"
    using ok assms(3) r by simp_all
  show "ke_id inst \<in> set (sy_entries ?sys) \<and> SERVICE_CLEAR_CATEGORY \<in> set (hm_services (sy_home ?sys)) \<and>
      SERVICE_CLEAR_ALL \<in> set (hm_services (sy_home ?sys))" if "inst \<in> set (sy_running ?sys)" "ke_loaded inst" for inst
    using ok(3) [of inst] that assms(2,4) by auto
qed

lemma new_installation_ok:
  assumes "registry_ok has (ev_reg env) (ev_unreg env)" "aware_data (ev_stored env)"
    and "setup_entry env entry home = Some (Inr m, Some s, home')"
  shows "installation_ok (new_installation entry s m)"
proof -
  note new = setup_entry_success [OF assms]
  have "list_all (\<lambda>c. c \<in> set ALL_CATEGORIES \<and> category_available s c)
      (to_register has (enabled_of (merged_config entry)) (id_suffix_of (merged_config entry)) (hm_webhooks home) ALL_CATEGORIES)"
    by (auto simp: list_all_iff to_register_def new(4))
  with new(1,2) added_ok [of s] show ?thesis
    by (auto simp: installation_ok_def new_installation_def)
qed

lemma system_ok_set_up:
  assumes "registry_ok has (ev_reg env) (ev_unreg env)" "aware_data (ev_stored env)" "system_ok has base sys"
  shows "system_ok has base (set_up env entry sys)"
proof (cases "find_entry (ce_id entry) (sy_running sys) = None")
  case True
  let ?known = "sys\<lparr>sy_entries := List.insert (ce_id entry) (sy_entries sys)\<rparr>"
  have known: "system_ok has base ?known"
    using system_ok_known [OF assms(3), of "List.insert (ce_id entry) (sy_entries sys)" "sy_home sys"]
    by (simp add: subset_insertI)
  show ?thesis
  proof (cases "\<exists>m s home. setup_entry env entry (sy_home sys) = Some (Inr m, Some s, home)")
    case success: True
    then obtain m s home where run: "setup_entry env entry (sy_home sys) = Some (Inr m, Some s, home)" by blast
    let ?sys = "?known\<lparr>sy_home := home, sy_running := sy_running sys @ [new_installation entry s m]\<rparr>"
    have eq: "set_up env entry sys = ?sys" using True run by (simp add: set_up_def)
    note new = setup_entry_success [OF assms(1,2) run]
    note ok = system_okD [OF assms(3)]
    have reg: "registered_by ?sys = registered_by sys @ wm_registered m"
      by (simp add: registered_by_def new_installation_def)
    have free: "\<not> base i \<and> i \<notin> set (registered_by sys)" if "i \<in> set (wm_registered m)" for i
      using that unfolding new(2) by (auto simp: to_register_def ok(6))
    have "distinct (wm_registered m)"
      unfolding new(2) by (auto simp: distinct_map inj_on_def to_register_def ALL_CATEGORIES_def category_defs)
    with free ok(4) have "distinct (registered_by ?sys)" unfolding reg by auto
    moreover have "list_all (\<lambda>i. \<not> base i) (registered_by ?sys)" using free ok(5) unfolding reg by (auto simp: list_all_iff)
    moreover have "distinct (map ke_id (sy_running ?sys))"
      using ok(1) True by (auto simp: new_installation_def find_entry_None)
    moreover have "has (hm_webhooks (sy_home ?sys)) = (\<lambda>i. base i \<or> i \<in> set (registered_by ?sys))"
      unfolding reg by (auto simp: new(3) ok(6))
    moreover have "list_all installation_ok (sy_running ?sys)"
      using ok(2) new_installation_ok [OF assms(1,2) run] by simp
    moreover have "ke_id inst \<in> set (sy_entries ?sys) \<and> SERVICE_CLEAR_CATEGORY \<in> set (hm_services (sy_home ?sys)) \<and>
      SERVICE_CLEAR_ALL \<in> set (hm_services (sy_home ?sys))" if "inst \<in> set (sy_running ?sys)" "ke_loaded inst" for inst
      using that ok(3) [of inst] by (auto simp: new_installation_def new(5) services_registered)
    ultimately show ?thesis unfolding eq by (intro system_okI) blast+
  next
    case False
    show ?thesis
    proof (cases "\<exists>e left home. setup_entry env entry (sy_home sys) = Some (Inl e, left, home)")
      case failed: True
      then obtain e left home where run: "setup_entry env entry (sy_home sys) = Some (Inl e, left, home)" by blast
      with True have "set_up env entry sys = ?known\<lparr>sy_home := home\<rparr>" by (simp add: set_up_def)
      with system_ok_known [OF known, of "sy_entries ?known" home] setup_entry_failure [OF assms(1) run]
      show ?thesis by simp
    next
      case odd: False
      have "set_up env entry sys = ?known"
      proof (cases "setup_entry env entry (sy_home sys)")
        case (Some res)
        obtain r left home where res: "res = (r, left, home)" by (cases res)
        with Some False odd True show ?thesis by (cases r; cases left) (auto simp: set_up_def)
      qed (use True in \<open>simp add: set_up_def\<close>)
      with known show ?thesis by simp
    qed
  qed
qed (use assms(3) in \<open>simp add: set_up_def\<close>)


lemma split_concat:
  assumes "distinct (map k es)" "e \<in> set es" "distinct (concat (map f es))"
  shows "set (concat (map f (filter (\<lambda>x. k x \<noteq> k e) es))) = set (concat (map f es)) - set (f e)"
proof -
  have "set (f x) \<inter> set (f e) = {}" if "x \<in> set es" "k x \<noteq> k e" for x
    using assms(3) that assms(2)
  proof (induction es)
    case (Cons y ys)
    then show ?case by (cases "y = e"; cases "y = x") fastforce+
  qed simp
  moreover have "x = e" if "x \<in> set es" "k x = k e" for x
    using that assms(1,2) by (auto simp: distinct_map dest: inj_onD)
  ultimately show ?thesis by auto
qed

lemma distinct_concat_filter: "distinct (concat (map f es)) \<Longrightarrow> distinct (concat (map f (filter P es)))"
  by (induction es) auto

lemma unload_entry_home:
  assumes "registry_ok has reg unreg"
  shows "snd (unload_entry unreg True i entries m s home) =
      home\<lparr>hm_webhooks := hm_webhooks (snd (unload_entry unreg True i entries m s home)),
           hm_services := (if filter (\<lambda>e. e \<noteq> i) entries = [] then unregister_services (hm_services home) else hm_services home)\<rparr>"
    and "has (hm_webhooks (snd (unload_entry unreg True i entries m s home))) = (\<lambda>j. has (hm_webhooks home) j \<and> j \<notin> set (wm_registered m))"
  by (simp_all add: unload_entry_def Let_def unregister_all_def unregister_has [OF assms])

lemma unload_ok_eq:
  assumes "find_entry i (sy_running sys) = Some inst" "ke_loaded inst"
  shows "unload unreg True i sys = sys\<lparr>sy_home := snd (unload_entry unreg True i (sy_entries sys) (in_manager inst) (ke_coord inst) (sy_home sys)),
      sy_running := filter (\<lambda>x. ke_id x \<noteq> i) (sy_running sys)\<rparr>"
    and "unload unreg False i sys =
      sys\<lparr>sy_running := map (\<lambda>x. if ke_id x = i then x\<lparr>ke_coord := ke_coord inst, ke_loaded := False\<rparr> else x) (sy_running sys)\<rparr>"
  using assms by (simp_all add: unload_def unload_entry_def case_prod_beta)

lemma system_ok_unload:
  assumes "registry_ok has reg unreg" "system_ok has base sys"
  shows "system_ok has base (unload unreg ok i sys)"
proof (cases "\<exists>inst. find_entry i (sy_running sys) = Some inst \<and> ke_loaded inst")
  case True
  then obtain inst where inst: "find_entry i (sy_running sys) = Some inst" "ke_loaded inst" by blast
  note old = system_okD [OF assms(2)]
  have e: "inst \<in> set (sy_running sys)" "ke_id inst = i" using inst(1) by (simp_all add: find_entry_iff [OF old(1)])
  have same: "x = inst" if "x \<in> set (sy_running sys)" "ke_id x = i" for x
    using that e old(1) by (auto simp: distinct_map dest: inj_onD)
  show ?thesis
  proof (cases ok)
    case True
    let ?home = "snd (unload_entry unreg True i (sy_entries sys) (in_manager inst) (ke_coord inst) (sy_home sys))"
    let ?sys = "sys\<lparr>sy_home := ?home, sy_running := filter (\<lambda>x. ke_id x \<noteq> i) (sy_running sys)\<rparr>"
    have eq: "unload unreg ok i sys = ?sys" using unload_ok_eq(1) [OF inst] True by simp
    note home = unload_entry_home [OF assms(1), of i "sy_entries sys" "in_manager inst" "ke_coord inst" "sy_home sys"]
    have reg: "set (registered_by ?sys) = set (registered_by sys) - set (wm_registered (in_manager inst))"
      using split_concat [OF old(1) e(1) old(4) [unfolded registered_by_def]] e(2) by (simp add: registered_by_def)
    have "wm_registered (in_manager inst) \<in> (\<lambda>x. wm_registered (in_manager x)) ` set (sy_running sys)" using e(1) by simp
    then have own: "set (wm_registered (in_manager inst)) \<subseteq> set (registered_by sys)" by (auto simp: registered_by_def)
    have "distinct (registered_by ?sys)"
      using distinct_concat_filter [OF old(4) [unfolded registered_by_def]] by (simp add: registered_by_def)
    moreover have "list_all (\<lambda>i. \<not> base i) (registered_by ?sys)" using old(5) reg by (auto simp: list_all_iff)
    moreover have "has (hm_webhooks (sy_home ?sys)) = (\<lambda>i. base i \<or> i \<in> set (registered_by ?sys))"
      using own old(5) unfolding reg by (auto simp: home(2) old(6) list_all_iff fun_eq_iff)
    moreover have "distinct (map ke_id (sy_running ?sys))" "list_all installation_ok (sy_running ?sys)"
      using old(1,2) by (simp_all add: distinct_map_filter list_all_iff)
    moreover have "ke_id x \<in> set (sy_entries ?sys) \<and> SERVICE_CLEAR_CATEGORY \<in> set (hm_services (sy_home ?sys)) \<and>
      SERVICE_CLEAR_ALL \<in> set (hm_services (sy_home ?sys))" if "x \<in> set (sy_running ?sys)" "ke_loaded x" for x
    proof -
      have x: "x \<in> set (sy_running sys)" "ke_id x \<noteq> i" using that(1) by simp_all
      from old(3) [OF x(1) that(2)] x(2) have "filter (\<lambda>e. e \<noteq> i) (sy_entries sys) \<noteq> []" by (auto simp: filter_empty_conv)
      with arg_cong [OF home(1), of hm_services] old(3) [OF x(1) that(2)] show ?thesis by simp
    qed
    ultimately show ?thesis unfolding eq by (intro system_okI) blast+
  next
    case False
    let ?f = "\<lambda>x. if ke_id x = i then x\<lparr>ke_coord := ke_coord inst, ke_loaded := False\<rparr> else x"
    let ?sys = "sys\<lparr>sy_running := map ?f (sy_running sys)\<rparr>"
    have eq: "unload unreg ok i sys = ?sys" using unload_ok_eq(2) [OF inst] False by simp
    have reg: "registered_by ?sys = registered_by sys"
      unfolding registered_by_def by (auto intro!: arg_cong [where f = concat])
    have "map ke_id (sy_running ?sys) = map ke_id (sy_running sys)" by simp
    moreover have "list_all installation_ok (sy_running ?sys)"
      using old(2) same by (auto simp: list_all_iff installation_ok_def)
    ultimately show ?thesis
      unfolding eq using old by (intro system_okI) (auto simp: reg simp del: map_map)
  qed
next
  case False
  with assms(2) show ?thesis by (auto simp: unload_def split: option.split)
qed


lemma system_ok_remove:
  assumes "system_ok has base sys"
  shows "system_ok has base (remove i sys)"
proof (cases "list_ex (\<lambda>inst. ke_id inst = i \<and> ke_loaded inst) (sy_running sys)")
  case False
  let ?sys = "sys\<lparr>sy_entries := removeAll i (sy_entries sys)\<rparr>"
  note ok = system_okD [OF assms]
  have r: "registered_by ?sys = registered_by sys" by (simp add: registered_by_def)
  have "ke_id x \<in> set (sy_entries ?sys) \<and> SERVICE_CLEAR_CATEGORY \<in> set (hm_services (sy_home ?sys)) \<and>
      SERVICE_CLEAR_ALL \<in> set (hm_services (sy_home ?sys))" if "x \<in> set (sy_running ?sys)" "ke_loaded x" for x
    using that ok(3) [of x] False by (auto simp: list_ex_iff)
  then have "system_ok has base ?sys" using ok r by (intro system_okI) simp_all
  with False show ?thesis by (simp add: remove_def)
qed (use assms in \<open>simp add: remove_def\<close>)

text \<open>A service call is a sequence of sound methods.\<close>

lemma on_known_snd: "snd (on_known i m sys) = snd (on_running_entry False i m sys)"
  by (cases "on_running_entry False i m sys") (simp add: on_known_def)

lemma keeps_on_known:
  assumes "sound m"
  shows "keepsS (\<lambda>sys. system_ok has base sys \<and> balance sys = b) (on_known i m)"
  using on_running_entry_keeps [OF _ assms, of has base] by (auto simp: keepsS_def on_known_snd)

lemma keeps_services:
  assumes "is_aware now" "system_ok has base sys"
  shows "system_ok has base (call_clear_category saves now category target sys) \<and>
      balance (call_clear_category saves now category target sys) = balance sys"
    and "system_ok has base (call_clear_all saves now target sys) \<and> balance (call_clear_all saves now target sys) = balance sys"
proof -
  let ?P = "\<lambda>x. system_ok has base x \<and> balance x = balance sys"
  have each: "keepsS ?P (clear_each known_entries on_known saves clear target)" if "\<And>e. sound (await_clear clear e)" for clear
    unfolding clear_each_def by (intro keepsS_bind keepsS_basic keepsS_for keeps_on_known that)
  have "?P sys" using assms(2) by simp
  from keepsS_D [OF each this, of "clear_category now category"] keepsS_D [OF each this, of "clear_all now"] assms(2)
  show "?P (call_clear_category saves now category target sys)" "?P (call_clear_all saves now target sys)"
    by (simp_all add: call_clear_category_def call_clear_all_def handle_clear_category_def handle_clear_all_def
        sound_clears [OF assms(1)])
qed

lemma keeps_serve:
  assumes "is_aware now" "system_ok has base sys"
  shows "system_ok has base (snd (serve loads webhook_id rq now tick sys)) \<and> balance (snd (serve loads webhook_id rq now tick sys)) = balance sys"
  using on_running_entry_keeps [OF assms(2) sound_webhook [OF assms(1)]] assms(2)
  by (simp add: serve_def split: option.split)

text \<open>Every input that does not set up or unload.\<close>

fun lifecycle :: "'h input \<Rightarrow> bool" where
  "lifecycle (SetUp env entry) = True"
| "lifecycle (Unload ok i) = True"
| "lifecycle (Reload ok env entry) = True"
| "lifecycle (Remove i) = True"
| "lifecycle _ = False"

lemma react_operation:
  assumes "system_ok has base sys" "\<not> lifecycle x"
  shows "system_ok has base (react reg unreg loads sys x) \<and> balance (react reg unreg loads sys x) = balance sys"
  using assms on_running_entry_keeps [OF assms(1) sound_event] on_running_entry_keeps [OF assms(1) sound_press]
    keeps_services [OF _ assms(1)] keeps_serve [OF _ assms(1)]
  by (cases x) (simp_all add: on_entry_def)

lemma react_ok:
  assumes "registry_ok has reg unreg" "system_ok has base sys"
  shows "system_ok has base (react reg unreg loads sys x)"
proof (cases "lifecycle x")
  case True
  have "registry_ok has (ev_reg (env\<lparr>ev_reg := reg, ev_unreg := unreg\<rparr>)) (ev_unreg (env\<lparr>ev_reg := reg, ev_unreg := unreg\<rparr>))"
    for env :: "'a env" using assms(1) by simp
  note set_up = system_ok_set_up [OF this]
  from True show ?thesis
    using assms set_up system_ok_unload [OF assms] system_ok_remove [OF assms(2)]
    by (cases x) (auto simp: update_listener_def system_ok_unload)
qed (use react_operation [OF assms(2)] in blast)

interpretation system_runs: event_machine "react reg unreg loads" "\<lambda>sys. registry_ok has reg unreg \<and> system_ok has base sys"
  for reg unreg loads has base
  by unfold_locales (auto intro: react_ok)

end
