(* ===== verification/SystemProps.thy ===== *)
theory SystemProps
  imports SystemInv
begin

section \<open>Properties of the whole system\<close>

text \<open>
  The invariant over every run, the events fired against the alerts counted, one webhook request end to
  end, what a reload keeps, and the services that outlive the last entry.
\<close>

subsection \<open>Properties of runs\<close>

lemma no_system_ok: "system_ok has (has (hm_webhooks home)) (no_system home)"
  by (simp add: system_ok_def no_system_def registered_by_def)

text \<open>A demo installation: an entry with a secret, set up against an empty controller.\<close>

definition secret_entry :: "string \<Rightarrow> config_entry" where
  "secret_entry i = demo_entry\<lparr>ce_id := i, ce_data := ce_data demo_entry @
     [(CONF_WEBHOOK_SECRET, PStr ''s3cret''), (CONF_WEBHOOK_ID_SUFFIX, PStr i)]\<rparr>"

definition demo_react :: "string list system \<Rightarrow> string list input \<Rightarrow> string list system" where
  "demo_react = react list_reg list_unreg no_json"

definition demo_system :: "string list system" where
  "demo_system = demo_react (no_system empty_home) (SetUp (demo_env empty_net None) (secret_entry ''e''))"

text \<open>C4: whatever happens to the entries of the integration, in any order (setups that succeed or fail, unloads
  that work or not, reloads, removals, polls, timers, saves, buttons, services, requests): every running
  entry has its coordinator in its invariant and event entities in step with it, each identifier in the
  webhook registry is one others held before or the one of an enabled category of exactly one running entry,
  every loaded entry is known and finds both services registered, and when nothing is running the
  registry is as it was before.\<close>

theorem system_invariant:
  assumes "registry_ok has reg unreg" "sys = foldl (react reg unreg loads) (no_system home) inputs"
  shows "system_ok has (has (hm_webhooks home)) sys \<and>
    (sy_running sys = [] \<longrightarrow> has (hm_webhooks (sy_home sys)) = has (hm_webhooks home))"
proof -
  have "system_ok has (has (hm_webhooks home)) sys"
    using system_runs.run_inv [where s = "no_system home" and has = has] assms no_system_ok by blast
  then show ?thesis by (auto simp: system_ok_def registered_by_def)
qed

lemma system_invariant_witness: "system_ok (\<lambda>ids i. i \<in> set ids) (\<lambda>i. False) demo_system"
proof -
  have "demo_system = foldl (react list_reg list_unreg no_json) (no_system empty_home)
      [SetUp (demo_env empty_net None) (secret_entry ''e'')]" by (simp add: demo_system_def demo_react_def)
  from system_invariant [OF list_registry_ok this] show ?thesis by (simp add: empty_home_def)
qed

text \<open>The inputs that set up or unload an entry.\<close>

fun restarts :: "string \<Rightarrow> 'h input \<Rightarrow> bool" where
  "restarts i (SetUp env entry) = (ce_id entry = i)"
| "restarts i (Unload ok j) = (j = i)"
| "restarts i (Reload ok env entry) = (ce_id entry = i)"
| "restarts i _ = False"

lemma find_entry_append: "find_entry i (es @ es') = (case find_entry i es of None \<Rightarrow> find_entry i es' | Some e \<Rightarrow> Some e)"
  unfolding find_entry_def by (induction es) auto

lemma find_entry_filter: "j \<noteq> i \<Longrightarrow> find_entry j (filter (\<lambda>x. ke_id x \<noteq> i) es) = find_entry j es"
  unfolding find_entry_def by (induction es) auto

lemma find_entry_map_other:
  "j \<noteq> i \<Longrightarrow> (\<And>x. ke_id (f x) = ke_id x) \<Longrightarrow> find_entry j (map (\<lambda>x. if ke_id x = i then f x else x) es) = find_entry j es"
  unfolding find_entry_def by (induction es) auto

lemma lifecycle_events [simp]:
  "sy_events (set_up env entry sys) = sy_events sys" "sy_events (unload unreg ok i sys) = sy_events sys"
  by (auto simp: set_up_def unload_def Let_def split: option.split sum.split prod.split)

lemma set_up_other:
  "j \<noteq> ce_id entry \<Longrightarrow> find_entry j (sy_running (set_up env entry sys)) = find_entry j (sy_running sys)"
  by (auto simp: set_up_def Let_def find_entry_append new_installation_def split: option.split sum.split prod.split)
    (simp_all add: find_entry_def)

lemma unload_other:
  "j \<noteq> i \<Longrightarrow> find_entry j (sy_running (unload unreg ok i sys)) = find_entry j (sy_running sys)"
  by (auto simp: unload_def find_entry_filter find_entry_map_other split: option.split prod.split)

lemma balance_same:
  assumes "find_entry i (sy_running sys') = find_entry i (sy_running sys)" "sy_events sys' = sy_events sys"
  shows "balance sys' i cat = balance sys i cat"
proof -
  have "events_for i cat sys' = events_for i cat sys" by (simp add: events_for_def assms(2))
  then show ?thesis by (simp add: balance_def assms(1) split: option.split)
qed

lemma react_balance:
  assumes "system_ok has base sys" "\<not> restarts i x"
  shows "balance (react reg unreg loads sys x) i cat = balance sys i cat"
proof (cases "lifecycle x")
  case True
  with assms(2) show ?thesis
    by (cases x) (auto simp: update_listener_def remove_def set_up_other unload_other intro!: balance_same)
qed (use react_operation [OF assms(1)] in simp)

text \<open>C6: the event entities report every counted alert exactly once. Over any run of the system in which an entry is
  not set up or unloaded, whatever else happens to it and to the other entries, as many events are
  fired for each of its categories as its alert count has grown by.\<close>

theorem events_count_alerts:
  assumes "registry_ok has reg unreg" "system_ok has base sys" "list_all (\<lambda>x. \<not> restarts i x) inputs"
    and "find_entry i (sy_running sys) = Some inst" "alert_count_of (ke_coord inst) cat = Some n"
    and "sys' = foldl (react reg unreg loads) sys inputs"
  shows "\<exists>inst' n'. find_entry i (sy_running sys') = Some inst' \<and> alert_count_of (ke_coord inst') cat = Some n' \<and>
    events_for i cat sys' - events_for i cat sys = n' - n"
proof -
  have "balance (foldl (react reg unreg loads) sys inputs) i cat = balance sys i cat"
    using assms(2,3)
  proof (induction inputs arbitrary: sys)
    case (Cons x xs)
    then show ?case using react_ok [OF assms(1)] react_balance [of has base sys i x] by simp
  qed simp
  with assms(4-6) show ?thesis
    by (auto simp: balance_def map_option_eq_Some split: option.splits)
qed


lemma demo_running:
  "case find_entry ''e'' (sy_running demo_system) of
     None \<Rightarrow> False
   | Some inst \<Rightarrow> alert_count_of (ke_coord inst) CATEGORY_POWER = Some 0 \<and>
       webhook_id_for_category CATEGORY_POWER (id_suffix_of (in_config inst)) = ''unifi_alerts_e_power'' \<and>
       list_ex ((=) ''unifi_alerts_e_power'') (wm_registered (in_manager inst)) \<and>
       dget (in_config inst) CONF_WEBHOOK_SECRET (PStr []) = PStr ''s3cret'' \<and>
       (case from_webhook_payload utc0 CATEGORY_POWER (PDict []) of
          Inl e \<Rightarrow> False
        | Inr a \<Rightarrow> category_available (ke_coord inst) CATEGORY_POWER \<and>
            meets_minimum (severity_level a) (get_effective_min_severity (co_config (ke_coord inst)) CATEGORY_POWER) = Inr True \<and>
            dedup CATEGORY_POWER (al_key a) 0 (co_last_push_at (ke_coord inst)) \<noteq> None)"
  by code_simp

lemma demo_system_ok: "system_ok (\<lambda>ids i. i \<in> set ids) (\<lambda>i. False) demo_system"
proof -
  have "system_ok (\<lambda>ids i. i \<in> set ids) (\<lambda>i. i \<in> set (hm_webhooks empty_home)) (no_system empty_home)"
    by (rule no_system_ok)
  moreover have "hm_webhooks empty_home = []" by (simp add: empty_home_def)
  ultimately have "system_ok (\<lambda>ids i. i \<in> set ids) (\<lambda>i. False) (no_system empty_home)" by simp
  then show ?thesis unfolding demo_system_def demo_react_def by (rule react_ok [OF list_registry_ok])
qed

lemma events_count_alerts_witness:
  "\<exists>inst n. find_entry ''e'' (sy_running (demo_react demo_system (Requested ''unifi_alerts_e_power'' ping utc0 0))) = Some inst \<and>
     alert_count_of (ke_coord inst) CATEGORY_POWER = Some n \<and>
     events_for ''e'' CATEGORY_POWER (demo_react demo_system (Requested ''unifi_alerts_e_power'' ping utc0 0))
       - events_for ''e'' CATEGORY_POWER demo_system = n"
proof -
  obtain inst where "find_entry ''e'' (sy_running demo_system) = Some inst" "alert_count_of (ke_coord inst) CATEGORY_POWER = Some 0"
    using demo_running by (auto split: option.splits)
  from events_count_alerts [OF list_registry_ok demo_system_ok _ this, of "[Requested ''unifi_alerts_e_power'' ping utc0 0]"
      "demo_react demo_system (Requested ''unifi_alerts_e_power'' ping utc0 0)" no_json]
  show ?thesis by (simp add: demo_react_def del: react.simps)
qed

subsection \<open>One request\<close>

lemma route_registered:
  assumes "system_ok has base sys" "find_entry i (sy_running sys) = Some inst"
    and "category \<in> set ALL_CATEGORIES"
    and "webhook_id_for_category category (id_suffix_of (in_config inst)) \<in> set (wm_registered (in_manager inst))"
  shows "route sys (webhook_id_for_category category (id_suffix_of (in_config inst))) = Some (inst, category)"
proof -
  let ?id = "webhook_id_for_category category (id_suffix_of (in_config inst))"
  note ok = system_okD [OF assms(1)]
  have inst: "inst \<in> set (sy_running sys)" using assms(2) by (simp add: find_entry_iff [OF ok(1)])
  have one: "find (\<lambda>x. ?id \<in> set (f x)) es = Some e"
    if "distinct (concat (map f es))" "e \<in> set es" "?id \<in> set (f e)" for f es and e :: "'a installation"
    using that by (induction es) auto
  have "find (\<lambda>x. ?id \<in> set (wm_registered (in_manager x))) (sy_running sys) = Some inst"
    using one [where f = "\<lambda>x. wm_registered (in_manager x)", OF _ inst assms(4)] ok(4) by (simp add: registered_by_def)
  moreover have "find (\<lambda>c. c = category) cs = Some category" if "category \<in> set cs" for cs using that by (induction cs) auto
  with assms(3) have "find (\<lambda>c. webhook_id_for_category c (id_suffix_of (in_config inst)) = ?id) ALL_CATEGORIES = Some category"
    by simp
  ultimately show ?thesis by (simp add: route_def)
qed

text \<open>C5: one authenticated request, end to end. A JSON object sent to the webhook identifier of a category of a running
  entry, with its secret as bearer token or query parameter, at least of the category's minimum severity and not
  a repetition, is answered with success, and when the answer is sent the binary sensor of that
  category is on, its message sensor shows the message, exactly one event has been fired, by that category's entity
  with this alert, and every other entry and Home Assistant's registries are as they were.\<close>

theorem webhook_end_to_end:
  assumes "system_ok has base sys" "find_entry i (sy_running sys) = Some inst"
    and "category \<in> set ALL_CATEGORIES" "webhook_id = webhook_id_for_category category (id_suffix_of (in_config inst))"
    and "webhook_id \<in> set (wm_registered (in_manager inst))"
    and "dget (in_config inst) CONF_WEBHOOK_SECRET (PStr []) = PStr t" "t \<noteq> []" "is_ascii t" "ascii_tokens rq"
    and "carries rq t \<or> queries rq t" "length (wr_received rq) \<le> WEBHOOK_MAX_BODY_BYTES"
    and "(if wr_received rq = [] then Inr (PDict []) else loads (wr_received rq)) = Inr (PDict d)"
    and "is_aware now" "from_webhook_payload now category (PDict d) = Inr a" "accepted (ke_coord inst) tick category a"
  shows "\<exists>sys' inst'. serve loads webhook_id rq now tick sys = (Some (Inr None), sys') \<and>
    find_entry i (sy_running sys') = Some inst' \<and>
    binary_is_on (ke_coord inst') category \<and> message_value (ke_coord inst') category = al_message a \<and>
    sy_events sys' = sy_events sys @ [(i, category, event_payload category a)] \<and>
    (\<forall>j. j \<noteq> i \<longrightarrow> find_entry j (sy_running sys') = find_entry j (sy_running sys)) \<and> sy_home sys' = sy_home sys"
proof -
  let ?s = "ke_coord inst"
  let ?m = "handle_webhook loads i category (PStr t) now tick rq"
  note ok = system_okD [OF assms(1)]
  have inst: "inst \<in> set (sy_running sys)" "ke_id inst = i" using assms(2) by (simp_all add: find_entry_iff [OF ok(1)])
  then have iok: "coord_ok ?s" "seen_ok ?s (in_seen inst)" using ok(2) by (auto simp: list_all_iff installation_ok_def)
  have aware: "is_aware (al_received_at a)" using webhook_alert(2) [OF assms(14)] assms(13) by simp
  obtain e e' where run: "?m ?s = (Inr None, emit e' (emit e (snd (push_alert tick category a ?s))))"
    using handle_webhook_eq [OF assms(7-9) iok(1) assms(13), of loads i category tick] assms(10-12,14) by auto
  note c = counts_emit2 [OF iok(1) aware assms(15), of e' e]
  obtain seen where n: "notify_events (snd (?m ?s)) (in_seen inst) = (seen, [(category, event_payload category a)])"
    using counts_seen [OF c iok(2,1)] run by auto
  have "announced ?s (snd (?m ?s))" using c run by (simp add: counts_def)
  with n have "(if False \<or> announced ?s (snd (?m ?s)) then notify_events (snd (?m ?s)) (in_seen inst) else (in_seen inst, []))
      = (seen, [(category, event_payload category a)])" by simp
  note ran = on_running_entry_eq [where m = ?m, OF assms(2) this]
  have "route sys webhook_id = Some (inst, category)"
    using route_registered [OF assms(1-3)] assms(4,5) by simp
  then have serve: "serve loads webhook_id rq now tick sys = on_running_entry False i ?m sys"
    by (simp add: serve_def inst(2) assms(6))
  let ?inst = "inst\<lparr>ke_coord := snd (?m ?s), in_seen := seen\<rparr>"
  have "binary_is_on (ke_coord ?inst) category \<and> message_value (ke_coord ?inst) category = al_message a"
    using push_counts(3) [OF iok(1) aware assms(15)] run
    by (auto simp: binary_is_on_def message_value_def get_category_state_def)
  then show ?thesis
    unfolding serve ran using find_entry_replace [OF assms(2), of ?inst] inst(2) run by simp
qed

lemma webhook_end_to_end_witness:
  "\<exists>sys'. serve no_json ''unifi_alerts_e_power'' ping utc0 0 demo_system = (Some (Inr None), sys') \<and>
     length (sy_events sys') = length (sy_events demo_system) + 1"
proof -
  obtain inst where i: "find_entry ''e'' (sy_running demo_system) = Some inst"
    "webhook_id_for_category CATEGORY_POWER (id_suffix_of (in_config inst)) = ''unifi_alerts_e_power''"
    "''unifi_alerts_e_power'' \<in> set (wm_registered (in_manager inst))"
    "dget (in_config inst) CONF_WEBHOOK_SECRET (PStr []) = PStr ''s3cret''"
    and a: "case from_webhook_payload utc0 CATEGORY_POWER (PDict []) of
          Inl e \<Rightarrow> False
        | Inr a \<Rightarrow> accepted (ke_coord inst) 0 CATEGORY_POWER a"
    using demo_running by (auto simp: list_ex_iff accepted_def passes_def split: option.splits sum.splits)
  obtain al where al: "from_webhook_payload utc0 CATEGORY_POWER (PDict []) = Inr al" "accepted (ke_coord inst) 0 CATEGORY_POWER al"
    using a by (auto split: sum.splits)
  have ascii: "ascii_tokens ping" "is_ascii ''s3cret''" "carries ping ''s3cret''" by code_simp+
  have cat: "CATEGORY_POWER \<in> set ALL_CATEGORIES" by (simp add: ALL_CATEGORIES_def)
  from webhook_end_to_end [OF demo_system_ok i(1) cat i(2) [symmetric] i(3,4) _ ascii(2,1) _ _ _ utc0_aware al, of no_json] ascii(3)
  show ?thesis by (auto simp: ping_def)
qed


subsection \<open>Reloads\<close>

lemma set_up_running:
  assumes "find_entry (ce_id entry) (sy_running sys) = None"
    and "find_entry (ce_id entry) (sy_running (set_up env entry sys)) = Some inst"
  shows "\<exists>m s home. setup_entry env entry (sy_home sys) = Some (Inr m, Some s, home) \<and> inst = new_installation entry s m"
proof (cases "setup_entry env entry (sy_home sys)")
  case (Some res)
  obtain r left home where res: "res = (r, left, home)" by (cases res)
  with assms Some show ?thesis
    by (cases r; cases left) (simp_all add: set_up_def find_entry_append, simp add: find_entry_def new_installation_def)
qed (use assms in \<open>simp add: set_up_def\<close>)

lemma unloaded_home:
  assumes "registry_ok has reg unreg" "system_ok has base sys" "find_entry i (sy_running sys) = Some inst" "ke_loaded inst"
  shows "has (hm_webhooks (sy_home (unload unreg True i sys))) j \<longleftrightarrow>
      base j \<or> list_ex (\<lambda>x. ke_id x \<noteq> i \<and> j \<in> set (wm_registered (in_manager x))) (sy_running sys)"
proof -
  let ?sys = "unload unreg True i sys"
  have "registered_by ?sys = concat (map (\<lambda>x. wm_registered (in_manager x)) (filter (\<lambda>x. ke_id x \<noteq> i) (sy_running sys)))"
    by (simp add: unload_ok_eq(1) [OF assms(3,4)] registered_by_def)
  with system_okD(6) [OF system_ok_unload [OF assms(1,2), of True i]] show ?thesis
    by (auto simp: list_ex_iff)
qed

lemma registered_once:
  assumes "system_ok has base sys" "find_entry i (sy_running sys) = Some inst" "j \<in> set (wm_registered (in_manager inst))"
  shows "\<not> base j \<and> \<not> list_ex (\<lambda>x. ke_id x \<noteq> i \<and> j \<in> set (wm_registered (in_manager x))) (sy_running sys)"
proof -
  let ?f = "\<lambda>x. wm_registered (in_manager x)"
  note ok = system_okD [OF assms(1)]
  have e: "inst \<in> set (sy_running sys)" "ke_id inst = i" using assms(2) by (simp_all add: find_entry_iff [OF ok(1)])
  have "j \<in> set (registered_by sys)" using e(1) assms(3) by (auto simp: registered_by_def)
  with ok(5) have "\<not> base j" by (simp add: list_all_iff)
  moreover have "j \<notin> set (concat (map ?f (filter (\<lambda>x. ke_id x \<noteq> i) (sy_running sys))))"
    using split_concat [OF ok(1) e(1) ok(4) [unfolded registered_by_def]] assms(3) e(2) by simp
  ultimately show ?thesis by (auto simp: list_ex_iff)
qed

text \<open>C19: a reload, as after saving the options, keeps the webhook URLs and replays nothing. When an entry is unloaded and
  set up again with the same suffix, then every category that is still enabled keeps the identifier it had registered;
  exactly the enabled categories whose identifier nobody else holds are registered; the event entities
  fire nothing for what was restored or polled; no other entry changes.\<close>

theorem reload_keeps_webhooks:
  assumes "registry_ok has (ev_reg env) (ev_unreg env)" "aware_data (ev_stored env)" "system_ok has base sys"
    and "find_entry i (sy_running sys) = Some inst" "ke_loaded inst"
    and "ce_id entry = i" "id_suffix_of (merged_config entry) = id_suffix_of (in_config inst)"
    and "sys' = update_listener (ev_unreg env) True env entry sys" "find_entry i (sy_running sys') = Some inst'"
  shows "(\<forall>c \<in> set ALL_CATEGORIES. PStr c \<in> set (enabled_of (merged_config entry)) \<longrightarrow>
       webhook_id_for_category c (id_suffix_of (in_config inst)) \<in> set (wm_registered (in_manager inst)) \<longrightarrow>
       webhook_id_for_category c (id_suffix_of (in_config inst)) \<in> set (wm_registered (in_manager inst'))) \<and>
    (\<forall>c \<in> set ALL_CATEGORIES. webhook_id_for_category c (id_suffix_of (in_config inst)) \<in> set (wm_registered (in_manager inst')) \<longleftrightarrow>
       PStr c \<in> set (enabled_of (merged_config entry)) \<and> \<not> base (webhook_id_for_category c (id_suffix_of (in_config inst))) \<and>
       \<not> list_ex (\<lambda>x. ke_id x \<noteq> i \<and> webhook_id_for_category c (id_suffix_of (in_config inst)) \<in> set (wm_registered (in_manager x)))
           (sy_running sys)) \<and>
    notify_events (ke_coord inst') (in_seen inst') = (in_seen inst', []) \<and> sy_events sys' = sy_events sys \<and>
    (\<forall>j. j \<noteq> i \<longrightarrow> find_entry j (sy_running sys') = find_entry j (sy_running sys))"
proof -
  let ?id = "\<lambda>c. webhook_id_for_category c (id_suffix_of (in_config inst))"
  let ?sys = "unload (ev_unreg env) True i sys"
  have sys': "sys' = set_up env entry ?sys" using assms(6,8) by (simp add: update_listener_def)
  have gone: "find_entry (ce_id entry) (sy_running ?sys) = None"
    by (auto simp: unload_ok_eq(1) [OF assms(4,5)] assms(6) find_entry_None)
  from set_up_running [OF gone] assms(6,9) sys' obtain m s home where
    run: "setup_entry env entry (sy_home ?sys) = Some (Inr m, Some s, home)" and inst': "inst' = new_installation entry s m"
    by blast
  note new = setup_entry_success [OF assms(1,2) run]
  have exact: "?id c \<in> set (wm_registered (in_manager inst')) \<longleftrightarrow> PStr c \<in> set (enabled_of (merged_config entry)) \<and>
      \<not> base (?id c) \<and> \<not> list_ex (\<lambda>x. ke_id x \<noteq> i \<and> ?id c \<in> set (wm_registered (in_manager x))) (sy_running sys)"
    if "c \<in> set ALL_CATEGORIES" for c
  proof -
    have "?id c \<in> set (wm_registered (in_manager inst')) \<longleftrightarrow> c \<in> set (to_register has (enabled_of (merged_config entry))
        (id_suffix_of (merged_config entry)) (hm_webhooks (sy_home ?sys)) ALL_CATEGORIES)"
      by (simp add: inst' new_installation_def new(2) assms(7) image_iff)
    also have "\<dots> \<longleftrightarrow> PStr c \<in> set (enabled_of (merged_config entry)) \<and> \<not> has (hm_webhooks (sy_home ?sys)) (?id c)"
      using that by (simp add: to_register_def assms(7))
    finally show ?thesis by (simp add: unloaded_home [OF assms(1,3-5)])
  qed
  have "\<not> base (?id c) \<and> \<not> list_ex (\<lambda>x. ke_id x \<noteq> i \<and> ?id c \<in> set (wm_registered (in_manager x))) (sy_running sys)"
    if "?id c \<in> set (wm_registered (in_manager inst))" for c
    using assms(3,4) that by (rule registered_once)
  moreover have "notify_events (ke_coord inst') (in_seen inst') = (in_seen inst', [])"
    using added_ok [of s] by (simp add: inst' new_installation_def seen_ok_def notify_in_sync)
  moreover have "find_entry j (sy_running sys') = find_entry j (sy_running sys)" if "j \<noteq> i" for j
    using that set_up_other [of j entry env ?sys] unload_other [of j i "ev_unreg env" True sys] assms(6) by (simp add: sys')
  moreover have "sy_events sys' = sy_events sys" by (simp add: sys')
  ultimately show ?thesis using exact by blast
qed

definition power_only :: config_entry where
  "power_only = (secret_entry ''e'')\<lparr>ce_options := [(CONF_ENABLED_CATEGORIES, PList [PStr CATEGORY_POWER])]\<rparr>"

lemma demo_reloads:
  "find_entry ''e'' (sy_running (update_listener list_unreg True (demo_env empty_net None) power_only demo_system)) \<noteq> None"
  "case find_entry ''e'' (sy_running demo_system) of
     None \<Rightarrow> False
   | Some inst \<Rightarrow> ke_loaded inst \<and> id_suffix_of (merged_config power_only) = id_suffix_of (in_config inst)"
  "enabled_of (merged_config power_only) = [PStr CATEGORY_POWER]"
  by code_simp+

lemma reload_keeps_webhooks_witness:
  "\<exists>inst. find_entry ''e'' (sy_running (update_listener list_unreg True (demo_env empty_net None) power_only demo_system)) = Some inst \<and>
     ''unifi_alerts_e_power'' \<in> set (wm_registered (in_manager inst))"
proof -
  obtain inst where i: "find_entry ''e'' (sy_running demo_system) = Some inst" "ke_loaded inst"
    "id_suffix_of (merged_config power_only) = id_suffix_of (in_config inst)"
    "webhook_id_for_category CATEGORY_POWER (id_suffix_of (in_config inst)) = ''unifi_alerts_e_power''"
    "''unifi_alerts_e_power'' \<in> set (wm_registered (in_manager inst))"
    using demo_running demo_reloads(2) by (auto simp: list_ex_iff split: option.splits)
  obtain inst' where i': "find_entry ''e'' (sy_running (update_listener list_unreg True (demo_env empty_net None) power_only demo_system)) = Some inst'"
    using demo_reloads(1) by blast
  have env: "registry_ok (\<lambda>ids i. i \<in> set ids) (ev_reg (demo_env empty_net None)) (ev_unreg (demo_env empty_net None))"
    using list_registry_ok by simp
  have "ce_id power_only = ''e''" by (simp add: power_only_def secret_entry_def)
  from reload_keeps_webhooks [OF env _ demo_system_ok i(1,2) this i(3) _ i'] i(4,5) i' demo_reloads(3)
  show ?thesis by (simp add: ALL_CATEGORIES_def)
qed

text \<open>The services are unregistered with the unload of the last known entry only. When another
  entry is known whose setup has failed, they stay, and since Home Assistant does not unload an entry that is not
  loaded, they are still registered when that entry has been removed too and none is left.\<close>

theorem services_outlive_entries:
  "let sys = foldl demo_react (no_system empty_home)
     [SetUp (demo_env empty_net None) (secret_entry ''e''),
      SetUp (demo_env empty_net (Some ValueError)) (secret_entry ''f''),
      Unload True ''e'', Remove ''e'', Remove ''f'']
   in sy_entries sys = [] \<and> sy_running sys = [] \<and> hm_services (sy_home sys) = [SERVICE_CLEAR_CATEGORY, SERVICE_CLEAR_ALL]"
  by code_simp

end
