(* ===== verification/EntityAttrs.thy ===== *)
theory EntityAttrs
  imports SetupProps
begin

section \<open>The entity classes\<close>

text \<open>
  What the constructors and class attributes of the entity classes (\<^verbatim>\<open>binary_sensor.py\<close>, \<^verbatim>\<open>sensor.py\<close>,
  \<^verbatim>\<open>event.py\<close>, \<^verbatim>\<open>button.py\<close>) tell Home Assistant: one definition per class. The members of Home Assistant's
  enumerations are their values. Shown below: over all platforms and entries no two entities share an identifier, no
  two entities of a platform share a translation key, and they agree with theory \<open>Entities\<close>.
\<close>

datatype platform = BINARY_SENSOR | SENSOR | EVENT | BUTTON

definition PLATFORMS :: "platform list" where
  "PLATFORMS = [BINARY_SENSOR, SENSOR, EVENT, BUTTON]"

record entity_attrs =
  ea_unique_id :: string
  ea_translation_key :: string
  ea_device_info :: device_info
  ea_has_entity_name :: bool
  ea_device_class :: "string option"
  ea_entity_category :: "string option"
  ea_state_class :: "string option"
  ea_unit :: "string option"
  ea_options :: "string list"
  ea_event_types :: "string list"

text \<open>What all classes share.\<close>

definition entity_base :: "config_entry \<Rightarrow> string \<Rightarrow> string \<Rightarrow> entity_attrs" where
  "entity_base entry id_tail translation_key =
     \<lparr> ea_unique_id = ce_id entry @ ''_'' @ id_tail, ea_translation_key = translation_key,
       ea_device_info = device_info_for_entry entry, ea_has_entity_name = True, ea_device_class = None,
       ea_entity_category = None, ea_state_class = None, ea_unit = None, ea_options = [], ea_event_types = [] \<rparr>"

definition category_binary_sensor :: "config_entry \<Rightarrow> string \<Rightarrow> entity_attrs" where
  "category_binary_sensor entry category =
     (entity_base entry (category @ ''_binary'') category)\<lparr>ea_device_class := Some ''problem''\<rparr>"

definition rollup_binary_sensor :: "config_entry \<Rightarrow> entity_attrs" where
  "rollup_binary_sensor entry = (entity_base entry ''rollup_binary'' ''any_alert'')\<lparr>ea_device_class := Some ''problem''\<rparr>"

definition category_message_sensor :: "config_entry \<Rightarrow> string \<Rightarrow> entity_attrs" where
  "category_message_sensor entry category =
     (entity_base entry (category @ ''_message'') (''last_message_'' @ category))\<lparr>ea_entity_category := Some ''diagnostic''\<rparr>"

definition category_count_sensor :: "config_entry \<Rightarrow> string \<Rightarrow> entity_attrs" where
  "category_count_sensor entry category =
     (entity_base entry (category @ ''_count'') (''open_count_'' @ category))
       \<lparr>ea_state_class := Some ''measurement'', ea_unit := Some ''alerts''\<rparr>"

definition webhook_health_sensor :: "config_entry \<Rightarrow> string \<Rightarrow> entity_attrs" where
  "webhook_health_sensor entry category =
     (entity_base entry (category @ ''_webhook_health'') (''webhook_health_'' @ category))
       \<lparr>ea_entity_category := Some ''diagnostic'', ea_device_class := Some ''enum'', ea_options := health_options\<rparr>"

definition rollup_count_sensor :: "config_entry \<Rightarrow> entity_attrs" where
  "rollup_count_sensor entry =
     (entity_base entry ''rollup_count'' ''total_open'')\<lparr>ea_state_class := Some ''measurement'', ea_unit := Some ''alerts''\<rparr>"

definition alert_event_entity :: "config_entry \<Rightarrow> string \<Rightarrow> entity_attrs" where
  "alert_event_entity entry category =
     (entity_base entry (category @ ''_event'') (''event_'' @ category))\<lparr>ea_event_types := [''alert_received'']\<rparr>"

definition clear_category_button :: "config_entry \<Rightarrow> string \<Rightarrow> entity_attrs" where
  "clear_category_button entry category =
     (entity_base entry (category @ ''_clear'') (''clear_'' @ category))\<lparr>ea_entity_category := Some ''config''\<rparr>"

definition clear_all_button :: "config_entry \<Rightarrow> entity_attrs" where
  "clear_all_button entry = (entity_base entry ''clear_all'' ''clear_all'')\<lparr>ea_entity_category := Some ''config''\<rparr>"

fun init_entity :: "config_entry \<Rightarrow> entity \<Rightarrow> entity_attrs" where
  "init_entity entry (UniFiCategoryBinarySensor category) = category_binary_sensor entry category"
| "init_entity entry UniFiRollupBinarySensor = rollup_binary_sensor entry"
| "init_entity entry (UniFiCategoryMessageSensor category) = category_message_sensor entry category"
| "init_entity entry (UniFiCategoryCountSensor category) = category_count_sensor entry category"
| "init_entity entry (UniFiWebhookHealthSensor category) = webhook_health_sensor entry category"
| "init_entity entry UniFiRollupCountSensor = rollup_count_sensor entry"
| "init_entity entry (UniFiAlertEventEntity category) = alert_event_entity entry category"
| "init_entity entry (UniFiClearCategoryButton category) = clear_category_button entry category"
| "init_entity entry UniFiClearAllButton = clear_all_button entry"

text \<open>The platform a class belongs to.\<close>

fun platform_of :: "entity \<Rightarrow> platform" where
  "platform_of (UniFiCategoryBinarySensor category) = BINARY_SENSOR"
| "platform_of UniFiRollupBinarySensor = BINARY_SENSOR"
| "platform_of (UniFiAlertEventEntity category) = EVENT"
| "platform_of (UniFiClearCategoryButton category) = BUTTON"
| "platform_of UniFiClearAllButton = BUTTON"
| "platform_of _ = SENSOR"

text \<open>Setting up one platform.\<close>

fun platform_setup :: "coord \<Rightarrow> platform \<Rightarrow> entity list" where
  "platform_setup s BINARY_SENSOR = binary_sensor_setup s"
| "platform_setup s SENSOR = sensor_setup s"
| "platform_setup s EVENT = event_setup s"
| "platform_setup s BUTTON = button_setup s"

text \<open>The property \<^verbatim>\<open>available\<close> of every class, and the two values the rollup entities take from the coordinator.\<close>

definition entity_available :: "coord \<Rightarrow> entity \<Rightarrow> bool" where
  "entity_available s e = (case entity_category e of Some category \<Rightarrow> category_available s category | None \<Rightarrow> rollup_available s)"

definition rollup_is_on :: "coord \<Rightarrow> bool" where
  "rollup_is_on s = any_alerting s"

definition rollup_value :: "coord \<Rightarrow> int" where
  "rollup_value s = rollup_open_count s"

subsection \<open>Identity\<close>

lemmas entity_inits = category_binary_sensor_def rollup_binary_sensor_def category_message_sensor_def
  category_count_sensor_def webhook_health_sensor_def rollup_count_sensor_def alert_event_entity_def
  clear_category_button_def clear_all_button_def entity_base_def

lemma init_unique_id: "ea_unique_id (init_entity entry e) = unique_id (ce_id entry) e"
  by (cases e) (simp_all add: entity_inits)

lemma init_device: "ea_device_info (init_entity entry e) = device_info_for_entry entry"
  by (cases e) (simp_all add: entity_inits)

lemma created_platforms: "concat (map (platform_setup s) PLATFORMS) = created s"
  by (simp add: PLATFORMS_def created_def)

text \<open>Every entity an entry can have.\<close>

definition all_entities :: "entity list" where
  "all_entities = map UniFiCategoryBinarySensor ALL_CATEGORIES @ [UniFiRollupBinarySensor]
     @ concat (map (\<lambda>c. [UniFiCategoryMessageSensor c, UniFiCategoryCountSensor c, UniFiWebhookHealthSensor c]) ALL_CATEGORIES)
     @ [UniFiRollupCountSensor] @ map UniFiAlertEventEntity ALL_CATEGORIES
     @ map UniFiClearCategoryButton ALL_CATEGORIES @ [UniFiClearAllButton]"

lemma created_all: "set (created s) \<subseteq> set all_entities"
  by (auto simp: created_def all_entities_def binary_sensor_setup_def sensor_setup_def event_setup_def button_setup_def)

lemma created_distinct: "distinct (created s)"
proof -
  have d: "distinct (filter P ALL_CATEGORIES)" for P by (simp add: ALL_CATEGORIES_def category_defs)
  have "distinct (concat (map (\<lambda>c. [UniFiCategoryMessageSensor c, UniFiCategoryCountSensor c, UniFiWebhookHealthSensor c]) cs))"
    if "distinct cs" for cs using that by (induction cs) auto
  from this [OF d] d show ?thesis
    by (auto simp: created_def binary_sensor_setup_def sensor_setup_def event_setup_def button_setup_def distinct_map inj_on_def)
qed

definition no_entry :: config_entry where
  "no_entry = \<lparr> ce_id = [], ce_version = 4, ce_data = [], ce_options = [] \<rparr>"

lemma keys_distinct:
  "distinct (map (unique_id []) all_entities)"
  "distinct (map (\<lambda>e. (platform_of e, ea_translation_key (init_entity no_entry e))) all_entities)"
  by code_simp+

lemma unique_id_entry: "unique_id i e = i @ unique_id [] e" "\<exists>x. unique_id [] e = CHR ''_'' # x"
  by (cases e; simp)+

lemma translation_key_entry: "ea_translation_key (init_entity entry e) = ea_translation_key (init_entity no_entry e)"
  by (cases e) (simp_all add: entity_inits)

lemma split_entry_id:
  assumes "CHR ''_'' \<notin> set i" "CHR ''_'' \<notin> set j" "i @ CHR ''_'' # x = j @ CHR ''_'' # y"
  shows "i = j \<and> x = y"
proof -
  have "takeWhile (\<lambda>c. c \<noteq> CHR ''_'') (k @ CHR ''_'' # z) = k" if "CHR ''_'' \<notin> set k" for k z
    using that by (induction k) auto
  from this [OF assms(1), of x] this [OF assms(2), of y] assms(3) show ?thesis by simp
qed

text \<open>No two entities have the same identity: the entities of an entry have distinct unique identifiers and, on each
  platform, distinct translation keys; all belong to the device of the entry; and two entries whose identifiers
  hold no underscore, as Home Assistant's never do, have no unique identifier in common.\<close>

theorem entities_identified:
  assumes "CHR ''_'' \<notin> set (ce_id entry)" "CHR ''_'' \<notin> set (ce_id other)" "ce_id other \<noteq> ce_id entry"
  shows "distinct (map (\<lambda>e. ea_unique_id (init_entity entry e)) (created s)) \<and>
    distinct (map (\<lambda>e. (platform_of e, ea_translation_key (init_entity entry e))) (created s)) \<and>
    list_all (\<lambda>e. ea_device_info (init_entity entry e) = device_info_for_entry entry) (created s) \<and>
    set (map (\<lambda>e. ea_unique_id (init_entity entry e)) (created s)) \<inter>
      set (map (\<lambda>e. ea_unique_id (init_entity other e)) (created s')) = {}"
proof -
  have sub: "inj_on f (set (created s))" if "distinct (map f all_entities)" for f :: "entity \<Rightarrow> 'z"
    using that created_all inj_on_subset unfolding distinct_map by blast
  have "inj_on (\<lambda>e. ea_unique_id (init_entity entry e)) (set (created s))"
    using sub [OF keys_distinct(1)] by (simp add: inj_on_def init_unique_id unique_id_entry(1) [of "ce_id entry"])
  moreover have "inj_on (\<lambda>e. (platform_of e, ea_translation_key (init_entity entry e))) (set (created s))"
    using sub [OF keys_distinct(2)] by (simp add: translation_key_entry [of entry])
  moreover have "unique_id (ce_id entry) e \<noteq> unique_id (ce_id other) e'" for e e'
  proof
    assume eq: "unique_id (ce_id entry) e = unique_id (ce_id other) e'"
    obtain x y where "unique_id [] e = CHR ''_'' # x" "unique_id [] e' = CHR ''_'' # y" using unique_id_entry(2) by blast
    with eq split_entry_id [OF assms(1,2), of x y] assms(3) show False
      by (simp add: unique_id_entry(1) [of "ce_id entry"] unique_id_entry(1) [of "ce_id other"])
  qed
  ultimately show ?thesis
    using created_distinct by (auto simp: distinct_map init_unique_id init_device list_all_iff)
qed

lemma entities_identified_witness:
  "distinct (map (\<lambda>e. ea_unique_id (init_entity demo_entry e)) (created demo))"
  using entities_identified [of demo_entry "demo_entry\<lparr>ce_id := ''f''\<rparr>" demo] by (simp add: demo_entry_def)

text \<open>An entity that setup creates for a category is available.\<close>

theorem created_available:
  "e \<in> set (created s) \<Longrightarrow> entity_category e = Some c \<Longrightarrow> entity_available s e"
  by (auto simp: entity_available_def created_def binary_sensor_setup_def sensor_setup_def event_setup_def button_setup_def)

end
