(* ===== verification/PyRegex.thy ===== *)
theory PyRegex
  imports PyBase "HOL-Library.Sublist"
begin

section \<open>Regular expressions and line splitting\<close>

text \<open>
  The part of Python's \<^verbatim>\<open>re\<close> module and of \<^verbatim>\<open>str.split\<close> the maintenance scripts use. A
  pattern is a value of \<open>rx\<close>; \<open>rmatch\<close> is the backtracking matcher: it lists the ways a pattern
  matches a prefix of the text in the order \<^verbatim>\<open>re\<close> tries them (the longest repetition first,
  the left alternative first), so that the first element is the match \<^verbatim>\<open>re\<close> returns. A way
  is the last character before the rest, the rest, and the groups set so far. The guards on the lengths
  only serve the termination proof: the rest is never longer (\<open>rmatch_suffix\<close>), and \<^verbatim>\<open>re\<close>
  does not repeat an empty match either. The lemmas evaluate a pattern on a text that is not concrete.
\<close>

subsection \<open>Patterns\<close>

datatype rx =
    RChar "char \<Rightarrow> bool"
  | REmpty
  | RSeq rx rx
  | RAlt rx rx
  | RStar rx
  | RLazy rx
  | RGroup nat rx
  | RTextBegin
  | RTextEnd
  | RLineBegin
  | RLineEnd
  | RWordEdge

type_synonym way = "char option \<times> string \<times> (nat \<times> string) list"

definition newline :: char where "newline = CHR 0x0A"

definition one_of :: "string \<Rightarrow> char \<Rightarrow> bool" where "one_of cs c \<longleftrightarrow> c \<in> set cs"
definition no_newline :: "char \<Rightarrow> bool" where "no_newline c \<longleftrightarrow> c \<noteq> newline"

text \<open>\<^verbatim>\<open>\w\<close> and \<^verbatim>\<open>\s\<close>, the latter as \<^verbatim>\<open>str.isspace\<close>.\<close>

definition is_letter :: "char \<Rightarrow> bool" where
  "is_letter c \<longleftrightarrow> of_char c \<in> {65..90 :: nat} \<or> of_char c \<in> {97..122 :: nat}"

definition is_word :: "char \<Rightarrow> bool" where
  "is_word c \<longleftrightarrow> is_letter c \<or> is_digit c \<or> c = CHR ''_'' \<or>
     of_char c \<in> {170, 178, 179, 181, 185, 186, 188, 189, 190 :: nat} \<or>
     of_char c \<ge> (192 :: nat) \<and> of_char c \<noteq> (215 :: nat) \<and> of_char c \<noteq> (247 :: nat)"

fun RLit :: "string \<Rightarrow> rx" where
  "RLit [] = REmpty"
| "RLit (c # cs) = RSeq (RChar ((=) c)) (RLit cs)"

definition RPlus :: "rx \<Rightarrow> rx" where "RPlus r = RSeq r (RStar r)"
definition ROpt :: "rx \<Rightarrow> rx" where "ROpt r = RAlt r REmpty"

text \<open>\<^verbatim>\<open>\d+\<close>\<close>

definition digits :: rx where "digits = RPlus (RChar is_digit)"

fun RCat :: "rx list \<Rightarrow> rx" where
  "RCat [] = REmpty"
| "RCat (r # rs) = RSeq r (RCat rs)"

fun RTimes :: "nat \<Rightarrow> rx \<Rightarrow> rx" where
  "RTimes 0 r = REmpty"
| "RTimes (Suc n) r = RSeq r (RTimes n r)"

subsection \<open>The matcher\<close>

text \<open>\<^verbatim>\<open>$\<close> without the multi-line flag also matches before a final newline.\<close>

function rmatch :: "rx \<Rightarrow> char option \<Rightarrow> string \<Rightarrow> (nat \<times> string) list \<Rightarrow> way list" where
  "rmatch (RChar P) p s gs = (case s of [] \<Rightarrow> [] | c # s' \<Rightarrow> if P c then [(Some c, s', gs)] else [])"
| "rmatch REmpty p s gs = [(p, s, gs)]"
| "rmatch (RSeq a b) p s gs = concat (map (\<lambda>(p', s', gs').
     if length s' \<le> length s then rmatch b p' s' gs' else []) (rmatch a p s gs))"
| "rmatch (RAlt a b) p s gs = rmatch a p s gs @ rmatch b p s gs"
| "rmatch (RStar a) p s gs = concat (map (\<lambda>(p', s', gs').
     if length s' < length s then rmatch (RStar a) p' s' gs' else []) (rmatch a p s gs)) @ [(p, s, gs)]"
| "rmatch (RLazy a) p s gs = (p, s, gs) # concat (map (\<lambda>(p', s', gs').
     if length s' < length s then rmatch (RLazy a) p' s' gs' else []) (rmatch a p s gs))"
| "rmatch (RGroup n a) p s gs = map (\<lambda>(p', s', gs').
     (p', s', (n, take (length s - length s') s) # gs')) (rmatch a p s gs)"
| "rmatch RTextBegin p s gs = (if p = None then [(p, s, gs)] else [])"
| "rmatch RTextEnd p s gs = (if s = [] \<or> s = [newline] then [(p, s, gs)] else [])"
| "rmatch RLineBegin p s gs = (if p = None \<or> p = Some newline then [(p, s, gs)] else [])"
| "rmatch RLineEnd p s gs = (case s of [] \<Rightarrow> [(p, s, gs)] | c # s' \<Rightarrow> if c = newline then [(p, s, gs)] else [])"
| "rmatch RWordEdge p s gs =
     (if (case p of None \<Rightarrow> False | Some c \<Rightarrow> is_word c) \<noteq> (case s of [] \<Rightarrow> False | c # s' \<Rightarrow> is_word c)
      then [(p, s, gs)] else [])"
  by pat_completeness auto

termination
  by (relation "inv_image (less_than <*lex*> less_than) (\<lambda>(r, p, s, gs). (length s, size r))") auto

lemmas rmatch_repeat = rmatch.simps(5,6)

declare rmatch_repeat [simp del]

lemma repeat_suffix:
  assumes "\<And>p s gs w. w \<in> set (rmatch a p s gs) \<Longrightarrow> suffix (fst (snd w)) s"
  shows "w \<in> set (rmatch (RStar a) p s gs) \<or> w \<in> set (rmatch (RLazy a) p s gs) \<Longrightarrow> suffix (fst (snd w)) s"
proof (induction s arbitrary: p gs w rule: length_induct)
  case (1 s)
  then consider "w = (p, s, gs)"
    | q t hs where "(q, t, hs) \<in> set (rmatch a p s gs)" "length t < length s"
        "w \<in> set (rmatch (RStar a) q t hs) \<or> w \<in> set (rmatch (RLazy a) q t hs)"
    unfolding rmatch_repeat [of a p s gs] by (auto split: if_splits)
  then show ?case
  proof cases
    case 2
    from 1(1) 2(2,3) have "suffix (fst (snd w)) t" by blast
    with assms [OF 2(1)] show ?thesis by (simp add: suffix_order.trans)
  qed simp
qed

lemma rmatch_suffix: "w \<in> set (rmatch r p s gs) \<Longrightarrow> suffix (fst (snd w)) s"
proof (induction r arbitrary: p s gs w)
  case (RSeq a b)
  from RSeq.prems obtain q t hs where "(q, t, hs) \<in> set (rmatch a p s gs)" "w \<in> set (rmatch b q t hs)"
    by (auto split: if_splits)
  with RSeq.IH show ?case by (metis fst_conv snd_conv suffix_order.trans)
next
  case (RGroup n a)
  then show ?case by fastforce
next
  case (RStar a)
  from repeat_suffix [of a] RStar show ?case by blast
next
  case (RLazy a)
  from repeat_suffix [of a] RLazy show ?case by blast
qed (auto intro: suffix_ConsI split: list.splits if_splits)

text \<open>\<^verbatim>\<open>pattern.match(text)\<close>: the groups; \<^verbatim>\<open>pattern.search(text)\<close>: the text before the
  match, the matched text, the rest and the groups; \<^verbatim>\<open>m[n]\<close>: \<open>None\<close> for a group that
  did not take part.\<close>

definition re_match :: "rx \<Rightarrow> string \<Rightarrow> (nat \<times> string) list option" where
  "re_match r s = (case rmatch r None s [] of [] \<Rightarrow> None | (p, s', gs) # _ \<Rightarrow> Some gs)"

fun search_from :: "rx \<Rightarrow> char option \<Rightarrow> string \<Rightarrow> string \<Rightarrow> (string \<times> string \<times> string \<times> (nat \<times> string) list) option" where
  "search_from r p u s = (case rmatch r p s [] of
      (p', s', gs) # _ \<Rightarrow> Some (u, take (length s - length s') s, s', gs)
    | [] \<Rightarrow> (case s of [] \<Rightarrow> None | c # t \<Rightarrow> search_from r (Some c) (u @ [c]) t))"

definition re_search :: "rx \<Rightarrow> string \<Rightarrow> (string \<times> string \<times> string \<times> (nat \<times> string) list) option" where
  "re_search r s = search_from r None [] s"

definition re_found :: "rx \<Rightarrow> string \<Rightarrow> bool" where
  "re_found r s \<longleftrightarrow> re_search r s \<noteq> None"

definition rx_group :: "(nat \<times> string) list \<Rightarrow> nat \<Rightarrow> string option" where
  "rx_group gs n = map_of gs n"

lemma search_from_Nil: "search_from r p u [] = Some (u', m, v, gs) \<Longrightarrow> m = []"
  by (auto split: list.splits prod.splits)

text \<open>\<^verbatim>\<open>pattern.finditer(text)\<close>, for a pattern that does not match the empty text: the start of each
  match and its groups.\<close>

function finditer :: "rx \<Rightarrow> char option \<Rightarrow> nat \<Rightarrow> string \<Rightarrow> (nat \<times> (nat \<times> string) list) list" where
  "finditer r p i s = (case search_from r p [] s of
      None \<Rightarrow> []
    | Some (u, m, v, gs) \<Rightarrow> if m = [] then []
        else (i + length u, gs) # finditer r (Some (last m)) (i + length u + length m) (drop (length u + length m) s))"
  by auto

termination
proof (relation "measure (\<lambda>(r, p, i, s). length s)", goal_cases)
  case (2 r p i s)
  then show ?case using search_from_Nil by (cases s) fastforce+
qed simp

declare finditer.simps [simp del]

text \<open>\<^verbatim>\<open>text.replace(old, new, 1)\<close> and \<^verbatim>\<open>text.replace(old, new)\<close> for a nonempty \<open>old\<close>.\<close>

fun replace_first :: "string \<Rightarrow> string \<Rightarrow> string \<Rightarrow> string" where
  "replace_first old new [] = []"
| "replace_first old new (c # s) =
     (if startswith (c # s) old then new @ drop (length old) (c # s) else c # replace_first old new s)"

function replace_all :: "string \<Rightarrow> string \<Rightarrow> string \<Rightarrow> string" where
  "replace_all old new s =
     (if s = [] \<or> old = [] then s
      else if startswith s old then new @ replace_all old new (drop (length old) s)
      else hd s # replace_all old new (tl s))"
  by auto

termination
  by (relation "measure (\<lambda>(old, new, s). length s)") auto

declare replace_all.simps [simp del]

text \<open>\<^verbatim>\<open>needle in text\<close>, and the line structure: \<^verbatim>\<open>splitlines()\<close> ends a line at every line
  boundary Python knows, \<^verbatim>\<open>\r\n\<close> counting as one, and \<^verbatim>\<open>split()\<close> splits at runs of white
  space.\<close>

fun contains :: "string \<Rightarrow> string \<Rightarrow> bool" where
  "contains [] needle \<longleftrightarrow> needle = []"
| "contains (c # s) needle \<longleftrightarrow> startswith (c # s) needle \<or> contains s needle"

definition line_boundary :: "char \<Rightarrow> bool" where
  "line_boundary c \<longleftrightarrow> of_char c \<in> {10, 11, 12, 13, 28, 29, 30, 133 :: nat}"

fun lines_from :: "string \<Rightarrow> string \<Rightarrow> string list" where
  "lines_from acc [] = (if acc = [] then [] else [acc])"
| "lines_from acc (c # s) =
     (if c = CHR 0x0D \<and> s \<noteq> [] \<and> hd s = newline then lines_from acc s
      else if line_boundary c then acc # lines_from [] s
      else lines_from (acc @ [c]) s)"

definition splitlines :: "string \<Rightarrow> string list" where
  "splitlines s = lines_from [] s"

fun words_from :: "string \<Rightarrow> string \<Rightarrow> string list" where
  "words_from acc [] = (if acc = [] then [] else [acc])"
| "words_from acc (c # s) =
     (if is_space c then (if acc = [] then [] else [acc]) @ words_from [] s
      else words_from (acc @ [c]) s)"

definition split_words :: "string \<Rightarrow> string list" where
  "split_words s = words_from [] s"

subsection \<open>Evaluating patterns on texts\<close>

lemma startswith_Nil [simp]: "startswith s []"
  by (simp add: startswith_iff)

lemma contains_iff: "contains s needle \<longleftrightarrow> (\<exists>u v. s = u @ needle @ v)"
proof (induction s)
  case (Cons c s)
  have "(\<exists>u v. c # s = u @ needle @ v) \<longleftrightarrow> (\<exists>v. c # s = needle @ v) \<or> (\<exists>u v. s = u @ needle @ v)"
    by (metis append_Cons append_Nil append_eq_Cons_conv)
  with Cons show ?case by (simp add: startswith_iff)
qed auto

text \<open>The first occurrence is the one that is replaced.\<close>

lemma replace_first_at:
  assumes "contains s old" "old \<noteq> []"
  shows "\<exists>u v. s = u @ old @ v \<and> replace_first old new s = u @ new @ v"
  using assms
proof (induction s)
  case (Cons c s)
  show ?case
  proof (cases "startswith (c # s) old")
    case True
    then obtain v where v: "c # s = old @ v" by (auto simp: startswith_iff)
    from True have "replace_first old new (c # s) = new @ drop (length old) (c # s)" by simp
    then have "replace_first old new (c # s) = new @ v" unfolding v by simp
    with v show ?thesis by (metis append_Nil)
  next
    case False
    with Cons obtain u v where "s = u @ old @ v" "replace_first old new s = u @ new @ v" by auto
    with False show ?thesis by (intro exI [of _ "c # u"] exI [of _ v]) simp
  qed
qed simp

lemma rmatch_lit [simp]:
  "rmatch (RLit t) p s gs = (if startswith s t
     then [(if t = [] then p else Some (last t), drop (length t) s, gs)] else [])"
proof (induction t arbitrary: p s)
  case (Cons c t)
  show ?case
    by (cases s) (auto simp: Cons startswith_def)
qed simp

text \<open>A repeated character class stops anywhere in the run of its characters, and at the end of the
  run when what follows cannot begin inside it.\<close>

definition run :: "(char \<Rightarrow> bool) \<Rightarrow> char option \<Rightarrow> string \<Rightarrow> char option" where
  "run P p s = (if takeWhile P s = [] then p else Some (last (takeWhile P s)))"

definition blocked :: "(char \<Rightarrow> bool) \<Rightarrow> rx \<Rightarrow> bool" where
  "blocked P b \<longleftrightarrow> (\<forall>p c s gs. P c \<longrightarrow> rmatch b p (c # s) gs = [])"

lemma run_chars [simp]: "run P p [] = p" "run P p (c # s) = (if P c then run P (Some c) s else p)"
  by (simp_all add: run_def)

lemma rmatch_star_char:
  "rmatch (RStar (RChar P)) p s gs = (case s of [] \<Rightarrow> []
     | c # t \<Rightarrow> if P c then rmatch (RStar (RChar P)) (Some c) t gs else []) @ [(p, s, gs)]"
  by (subst rmatch_repeat) (simp split: list.split)

lemma star_rests: "w \<in> set (rmatch (RStar (RChar P)) p s gs) \<Longrightarrow> length (fst (snd w)) \<le> length s"
  using rmatch_suffix suffix_length_le by blast

lemma concat_blocked:
  assumes "blocked P b"
  shows "concat (map (\<lambda>(p', s', gs'). rmatch b p' s' (f s' gs')) (rmatch (RStar (RChar P)) p s gs))
       = rmatch b (run P p s) (dropWhile P s) (f (dropWhile P s) gs)"
proof (induction s arbitrary: p)
  case (Cons c s)
  with assms show ?case by (subst rmatch_star_char) (auto simp: blocked_def)
qed (simp add: rmatch_star_char)

lemma rmatch_star_blocked:
  assumes "blocked P b"
  shows "rmatch (RSeq (RStar (RChar P)) b) p s gs = rmatch b (run P p s) (dropWhile P s) gs"
proof -
  have "rmatch (RSeq (RStar (RChar P)) b) p s gs
      = concat (map (\<lambda>(p', s', gs'). rmatch b p' s' gs') (rmatch (RStar (RChar P)) p s gs))"
    unfolding rmatch.simps(3) using star_rests by (intro arg_cong [of _ _ concat] map_cong) fastforce+
  with concat_blocked [OF assms, of "\<lambda>s' gs'. gs'"] show ?thesis by simp
qed

lemma take_to_dropWhile: "take (length s - length (dropWhile P s)) s = takeWhile P s"
proof -
  have "length s - length (dropWhile P s) = length (takeWhile P s)"
    by (metis add_diff_cancel_right' length_append takeWhile_dropWhile_id)
  then show ?thesis by (simp add: takeWhile_eq_take [symmetric])
qed

lemma rmatch_plus_blocked:
  assumes "blocked P b"
  shows "rmatch (RSeq (RPlus (RChar P)) b) p s gs =
    (if s \<noteq> [] \<and> P (hd s) then rmatch b (run P p s) (dropWhile P s) gs else [])"
proof (cases s)
  case (Cons c t)
  have "rmatch (RSeq (RPlus (RChar P)) b) p s gs =
    (if P c then rmatch (RSeq (RStar (RChar P)) b) (Some c) t gs else [])"
    using star_rests by (auto simp: RPlus_def Cons intro!: arg_cong [of _ _ concat] map_cong dest: star_rests)
  with Cons show ?thesis by (simp add: rmatch_star_blocked [OF assms] del: rmatch.simps(3))
qed (simp add: RPlus_def)

lemma rmatch_group_plus_blocked:
  assumes "blocked P b"
  shows "rmatch (RSeq (RGroup n (RPlus (RChar P))) b) p s gs =
    (if s \<noteq> [] \<and> P (hd s) then rmatch b (run P p s) (dropWhile P s) ((n, takeWhile P s) # gs) else [])"
proof (cases s)
  case (Cons c t)
  let ?f = "\<lambda>s' gs'. (n, take (length s - length s') s) # gs'"
  have "rmatch (RSeq (RGroup n (RPlus (RChar P))) b) p s gs = (if P c
      then concat (map (\<lambda>(p', s', gs'). rmatch b p' s' (?f s' gs')) (rmatch (RStar (RChar P)) (Some c) t gs)) else [])"
    by (auto simp: RPlus_def Cons comp_def case_prod_beta intro!: arg_cong [of _ _ concat] map_cong dest: star_rests)
  also have "\<dots> = (if P c then rmatch b (run P (Some c) t) (dropWhile P t) (?f (dropWhile P t) gs) else [])"
    by (simp only: concat_blocked [OF assms, where f = ?f])
  finally show ?thesis using take_to_dropWhile [of s P] by (cases "P c") (simp_all only: Cons list.sel
    dropWhile.simps run_chars if_True if_False list.distinct simp_thms not_False_eq_True)
qed (simp add: RPlus_def)

lemma concat_map_concat_map: "concat (map f (concat (map g xs))) = concat (map (\<lambda>x. concat (map f (g x))) xs)"
  by (induction xs) simp_all

lemma rmatch_seq: "rmatch (RSeq a b) p s gs = concat (map (\<lambda>(p', s', gs'). rmatch b p' s' gs') (rmatch a p s gs))"
proof -
  have "length s' \<le> length s" if "(p', s', gs') \<in> set (rmatch a p s gs)" for p' s' gs'
    using rmatch_suffix [OF that] suffix_length_le by fastforce
  then show ?thesis unfolding rmatch.simps(3) by (intro arg_cong [of _ _ concat] map_cong) auto
qed

lemma rmatch_seq_simps:
  "rmatch (RSeq (RSeq a b) c) p s gs = rmatch (RSeq a (RSeq b c)) p s gs"
  "rmatch (RSeq REmpty b) p s gs = rmatch b p s gs"
  "rmatch (RSeq (RAlt a b) c) p s gs = rmatch (RSeq a c) p s gs @ rmatch (RSeq b c) p s gs"
  "rmatch (RSeq RTextBegin b) p s gs = (if p = None then rmatch b p s gs else [])"
  "rmatch (RSeq RTextEnd b) p s gs = (if s = [] \<or> s = [newline] then rmatch b p s gs else [])"
  "rmatch (RSeq RLineBegin b) p s gs = (if p = None \<or> p = Some newline then rmatch b p s gs else [])"
  "rmatch (RSeq RLineEnd b) p s gs = (if s = [] \<or> hd s = newline then rmatch b p s gs else [])"
  "rmatch (RSeq (RLit t) b) p s gs = (if startswith s t
     then rmatch b (if t = [] then p else Some (last t)) (drop (length t) s) gs else [])"
proof -
  show "rmatch (RSeq (RSeq a b) c) p s gs = rmatch (RSeq a (RSeq b c)) p s gs"
    unfolding rmatch_seq concat_map_concat_map by (intro arg_cong [of _ _ concat] map_cong) (auto simp: rmatch_seq)
qed (auto simp: rmatch_seq split: list.split simp del: rmatch.simps(3))

lemma blocked_lit: "t \<noteq> [] \<Longrightarrow> \<not> P (hd t) \<Longrightarrow> blocked P (RSeq (RLit t) b)"
  by (cases t) (auto simp: blocked_def startswith_def)

lemma blocked_opt: "blocked P (RSeq a b) \<Longrightarrow> blocked P b \<Longrightarrow> blocked P (RSeq (ROpt a) b)"
  by (simp add: blocked_def ROpt_def)

lemma blocked_seq: "blocked P a \<Longrightarrow> blocked P (RSeq a b)"
  by (simp add: blocked_def)

lemma blocked_end: "\<not> P newline \<Longrightarrow> blocked P (RSeq RTextEnd b)"
  by (auto simp: blocked_def)

lemma blocked_empty: "blocked P b \<Longrightarrow> blocked P (RSeq REmpty b)"
  by (simp add: blocked_def rmatch_seq_simps del: rmatch.simps(3))

text \<open>The text a match consumes.\<close>

lemma way_consumes:
  assumes "(p', s', gs') \<in> set (rmatch r p s gs)"
  obtains u where "s = u @ s'"
  using rmatch_suffix [OF assms] that by (auto simp: suffix_def)

lemma search_from_Some:
  "search_from r p u s = Some (u', m, v, gs) \<Longrightarrow>
     \<exists>x p0 p'. u' = u @ x \<and> s = x @ m @ v \<and> (p', v, gs) \<in> set (rmatch r p0 (m @ v) []) \<and>
       p0 = (if x = [] then p else Some (last x))"
proof (induction r p u s rule: search_from.induct)
  case (1 r p u s)
  show ?case
  proof (cases "rmatch r p s []")
    case Nil
    with "1.prems" obtain c t where s: "s = c # t" and "search_from r (Some c) (u @ [c]) t = Some (u', m, v, gs)"
      by (cases s) auto
    with "1.IH" [OF Nil s] obtain x p0 p' where "u' = (u @ [c]) @ x" "t = x @ m @ v"
      "(p', v, gs) \<in> set (rmatch r p0 (m @ v) [])" "p0 = (if x = [] then Some c else Some (last x))" by blast
    with s show ?thesis by (intro exI [of _ "c # x"] exI [of _ p0] exI [of _ p']) auto
  next
    case (Cons w ws)
    with "1.prems" obtain p' where w: "w = (p', v, gs)" "u' = u" "m = take (length s - length v) s"
      by (cases w) (auto split: prod.splits)
    moreover from w Cons have "(p', v, gs) \<in> set (rmatch r p s [])" by simp
    moreover from way_consumes [OF this] obtain y where "s = y @ v" .
    ultimately show ?thesis by (intro exI [of _ "[]"] exI [of _ p] exI [of _ p']) auto
  qed
qed

lemma re_search_Some:
  assumes "re_search r s = Some (u, m, v, gs)"
  obtains p p' where "s = u @ m @ v" "(p', v, gs) \<in> set (rmatch r p (m @ v) [])"
    "p = (if u = [] then None else Some (last u))"
  using search_from_Some [of r None "[]" s u m v gs] assms that by (auto simp: re_search_def)

text \<open>Membership in the ways of a sequence, a group and a literal.\<close>

lemma in_ways:
  "w \<in> set (rmatch (RSeq a b) p s gs) \<longleftrightarrow> (\<exists>p' s' gs'. (p', s', gs') \<in> set (rmatch a p s gs) \<and> w \<in> set (rmatch b p' s' gs'))"
  "(p', s', gs') \<in> set (rmatch (RLit t) p s gs) \<longleftrightarrow> s = t @ s' \<and> p' = (if t = [] then p else Some (last t)) \<and> gs' = gs"
  "(p', s', gs') \<in> set (rmatch (RGroup n a) p s gs) \<longleftrightarrow>
     (\<exists>hs u. (p', s', hs) \<in> set (rmatch a p s gs) \<and> s = u @ s' \<and> gs' = (n, u) # hs)"
  "w \<in> set (rmatch REmpty p s gs) \<longleftrightarrow> w = (p, s, gs)"
proof -
  show "(p', s', gs') \<in> set (rmatch (RGroup n a) p s gs) \<longleftrightarrow>
     (\<exists>hs u. (p', s', hs) \<in> set (rmatch a p s gs) \<and> s = u @ s' \<and> gs' = (n, u) # hs)"
  proof
    assume "(p', s', gs') \<in> set (rmatch (RGroup n a) p s gs)"
    then obtain hs where hs: "(p', s', hs) \<in> set (rmatch a p s gs)" "gs' = (n, take (length s - length s') s) # hs"
      by auto
    from way_consumes [OF hs(1)] obtain u where "s = u @ s'" .
    with hs show "\<exists>hs u. (p', s', hs) \<in> set (rmatch a p s gs) \<and> s = u @ s' \<and> gs' = (n, u) # hs" by auto
  next
    assume "\<exists>hs u. (p', s', hs) \<in> set (rmatch a p s gs) \<and> s = u @ s' \<and> gs' = (n, u) # hs"
    then obtain hs u where "(p', s', hs) \<in> set (rmatch a p s gs)" "s = u @ s'" "gs' = (n, u) # hs" by auto
    then show "(p', s', gs') \<in> set (rmatch (RGroup n a) p s gs)"
      by (auto intro!: image_eqI [of _ _ "(p', s', hs)"])
  qed
qed (auto simp: rmatch_seq startswith_iff simp del: rmatch.simps(3))

text \<open>A pattern without groups leaves the groups as they are.\<close>

fun groupless :: "rx \<Rightarrow> bool" where
  "groupless (RSeq a b) \<longleftrightarrow> groupless a \<and> groupless b"
| "groupless (RAlt a b) \<longleftrightarrow> groupless a \<and> groupless b"
| "groupless (RStar a) \<longleftrightarrow> groupless a"
| "groupless (RLazy a) \<longleftrightarrow> groupless a"
| "groupless (RGroup n a) \<longleftrightarrow> False"
| "groupless _ \<longleftrightarrow> True"

lemma star_groups:
  assumes "\<forall>p s gs. \<forall>w \<in> set (rmatch a p s gs). snd (snd w) = gs"
  shows "w \<in> set (rmatch (RStar a) p s gs) \<or> w \<in> set (rmatch (RLazy a) p s gs) \<Longrightarrow> snd (snd w) = gs"
proof (induction s arbitrary: p gs w rule: length_induct)
  case (1 s)
  then consider "w = (p, s, gs)"
    | q t hs where "(q, t, hs) \<in> set (rmatch a p s gs)" "length t < length s"
        "w \<in> set (rmatch (RStar a) q t hs) \<or> w \<in> set (rmatch (RLazy a) q t hs)"
    unfolding rmatch_repeat [of a p s gs] by (auto split: if_splits)
  then show ?case
  proof cases
    case 2
    with 1(1) have "snd (snd w) = hs" by blast
    moreover from assms 2(1) have "hs = gs" by fastforce
    ultimately show ?thesis by simp
  qed simp
qed

lemma groupless_ways: "groupless r \<Longrightarrow> w \<in> set (rmatch r p s gs) \<Longrightarrow> snd (snd w) = gs"
proof (induction r arbitrary: p s gs w)
  case (RSeq a b)
  from RSeq.prems(2) obtain q t hs where w: "(q, t, hs) \<in> set (rmatch a p s gs)" "w \<in> set (rmatch b q t hs)"
    unfolding in_ways by blast
  from RSeq.prems(1) have g: "groupless a" "groupless b" by simp_all
  from RSeq.IH(1) [OF g(1) w(1)] RSeq.IH(2) [OF g(2) w(2)] show ?case by simp
next
  case (RStar a)
  from RStar.prems(1) have "groupless a" by simp
  then have "\<forall>p s gs. \<forall>w \<in> set (rmatch a p s gs). snd (snd w) = gs" using RStar.IH by blast
  from star_groups [OF this] RStar.prems(2) show ?case by blast
next
  case (RLazy a)
  from RLazy.prems(1) have "groupless a" by simp
  then have "\<forall>p s gs. \<forall>w \<in> set (rmatch a p s gs). snd (snd w) = gs" using RLazy.IH by blast
  from star_groups [OF this] RLazy.prems(2) show ?case by blast
qed (auto split: list.splits if_splits)

text \<open>The shape of a line pattern with groups, as the scripts use it.\<close>

lemma in_group:
  assumes "groupless a" "(p', s', gs') \<in> set (rmatch (RGroup n a) p s gs)"
  obtains u where "s = u @ s'" "gs' = (n, u) # gs"
  using assms(2) groupless_ways [OF assms(1)] that unfolding in_ways by fastforce

lemma in_line:
  "w \<in> set (rmatch (RSeq RLineBegin b) p s gs) \<longleftrightarrow> (p = None \<or> p = Some newline) \<and> w \<in> set (rmatch b p s gs)"
  "w \<in> set (rmatch (RSeq RLineEnd b) p s gs) \<longleftrightarrow> (s = [] \<or> hd s = newline) \<and> w \<in> set (rmatch b p s gs)"
  "w \<in> set (rmatch (RSeq (RLit t) b) p s gs) \<longleftrightarrow>
     (\<exists>s'. s = t @ s' \<and> w \<in> set (rmatch b (if t = [] then p else Some (last t)) s' gs))"
  by (auto simp: rmatch_seq_simps startswith_iff simp del: rmatch.simps(3))

lemma in_group_seq:
  assumes "groupless a" "w \<in> set (rmatch (RSeq (RGroup n a) b) p s gs)"
  obtains u s' p' where "s = u @ s'" "w \<in> set (rmatch b p' s' ((n, u) # gs))"
proof -
  from assms(2) obtain p' s' gs' where w: "(p', s', gs') \<in> set (rmatch (RGroup n a) p s gs)"
    "w \<in> set (rmatch b p' s' gs')" unfolding in_ways(1) by blast
  from in_group [OF assms(1) w(1)] obtain u where "s = u @ s'" "gs' = (n, u) # gs" .
  with w(2) show ?thesis by (intro that) simp_all
qed

end
