(* ===== verification/Release.thy ===== *)
theory Release
  imports PyRegex
begin

section \<open>The release script\<close>

text \<open>
  \<^verbatim>\<open>scripts/bump_version.py\<close>: reading, ordering and advancing version numbers, the rewriting of
  the change log for a stable release, and the run of the script against git and the files.

  Git is a parameter: a function from the arguments and the world (the repository with its working tree)
  to its output, \<open>None\<close> for a non-zero exit code, and the new world. The two files the script reads
  and writes are read from and put into the world, the manifest as its JSON value. A run keeps a log of
  the commands and writes, newest first. Printing is left out; \<^verbatim>\<open>fail\<close> is the exception
  \<open>SystemExit\<close> with its message.
\<close>

subsection \<open>Versions\<close>

type_synonym version = "nat \<times> nat \<times> nat \<times> nat option"

definition VERSION_RE :: rx where
  "VERSION_RE = RCat [RTextBegin, RGroup 1 digits, RLit ''.'', RGroup 2 digits, RLit ''.'', RGroup 3 digits,
     ROpt (RCat [RLit ''-pre'', RGroup 4 digits]), RTextEnd]"

definition fail :: "string \<Rightarrow> exn + 'a" where
  "fail msg = Inl (SystemExit msg)"

definition parse_version :: "string \<Rightarrow> exn + version" where
  "parse_version v = (case re_match VERSION_RE v of
      None \<Rightarrow> fail (''unrecognised version format: '' @ repr_str v)
    | Some m \<Rightarrow> (let number = (\<lambda>n. case rx_group m n of None \<Rightarrow> 0 | Some s \<Rightarrow> digits_val s)
        in Inr (number 1, number 2, number 3, map_option digits_val (rx_group m 4))))"

definition format_stable :: "nat \<Rightarrow> nat \<Rightarrow> nat \<Rightarrow> string" where
  "format_stable major minor patch = nat_str major @ ''.'' @ nat_str minor @ ''.'' @ nat_str patch"

definition format_pre :: "nat \<Rightarrow> nat \<Rightarrow> nat \<Rightarrow> nat \<Rightarrow> string" where
  "format_pre major minor patch pre = format_stable major minor patch @ ''-pre'' @ nat_str pre"

definition bump_pre :: "string \<Rightarrow> exn + string" where
  "bump_pre current = bindE (parse_version current) (\<lambda>(major, minor, patch, pre).
     case pre of
       None \<Rightarrow> fail (''--pre requires a -preN version, but manifest is at '' @ repr_str current
                   @ ''. Did you mean --next-cycle?'')
     | Some n \<Rightarrow> Inr (format_pre major minor patch (n + 1)))"

definition bump_stable :: "string \<Rightarrow> exn + string" where
  "bump_stable current = bindE (parse_version current) (\<lambda>(major, minor, patch, pre).
     case pre of
       None \<Rightarrow> fail (''--stable requires a -preN version, but manifest is at '' @ repr_str current @ ''.'')
     | Some n \<Rightarrow> Inr (format_stable major minor patch))"

definition bump_next_cycle :: "string \<Rightarrow> exn + string" where
  "bump_next_cycle current = bindE (parse_version current) (\<lambda>(major, minor, patch, pre).
     case pre of
       Some n \<Rightarrow> fail (''--next-cycle requires a stable version, but manifest is at '' @ repr_str current
                   @ ''. Did you mean --pre?'')
     | None \<Rightarrow> Inr (format_pre major (minor + 1) 0 1))"

subsection \<open>The change log\<close>

text \<open>A replacement text is a template for \<^verbatim>\<open>re\<close>, in which a backslash starts an escape. The
  model takes the templates without one; any other is an error (\<^verbatim>\<open>re\<close> raises \<^verbatim>\<open>re.error\<close> for most
  of them, and expands the rest).\<close>

definition sub_once :: "rx \<Rightarrow> string \<Rightarrow> string \<Rightarrow> exn + string" where
  "sub_once r template text =
     (if CHR 0x5C \<in> set template then Inl ValueError
      else case re_search r text of None \<Rightarrow> Inr text | Some (u, m, v, gs) \<Rightarrow> Inr (u @ template @ v))"

text \<open>Group 1 is \<open>base\<close>, group 2 \<open>prev\<close> in the first pattern; group 1 is \<open>url\<close> in the second.\<close>

definition unreleased_link_re :: rx where
  "unreleased_link_re = RCat [RLineBegin, RLit ''[Unreleased]: '',
     RGroup 1 (RSeq (RPlus (RChar no_newline)) (RLit ''/compare/v'')),
     RGroup 2 (RSeq (RPlus (RChar (\<lambda>c. is_digit c \<or> c = CHR ''.''))) (ROpt (RSeq (RLit ''-pre'') digits))),
     RLit ''...HEAD'', RLineEnd]"

definition prev_link_re :: "string \<Rightarrow> rx" where
  "prev_link_re prev_version = RCat [RLineBegin, RLit (''['' @ prev_version @ '']: ''),
     RGroup 1 (RSeq (RPlus (RChar no_newline)) (RLit (''/releases/tag/v'' @ prev_version))), RLineEnd]"

definition the_group :: "(nat \<times> string) list \<Rightarrow> nat \<Rightarrow> string" where
  "the_group gs n = (case rx_group gs n of None \<Rightarrow> [] | Some s \<Rightarrow> s)"

definition br :: string where "br = [newline]"

definition unreleased_heading :: string where "unreleased_heading = ''## [Unreleased]''"

definition release_heading :: "string \<Rightarrow> string \<Rightarrow> string" where
  "release_heading new_version today = ''## ['' @ new_version @ ''] - '' @ today"

definition promote_heading :: "string \<Rightarrow> string \<Rightarrow> string \<Rightarrow> string" where
  "promote_heading today new_version text =
     replace_first unreleased_heading (unreleased_heading @ br @ br @ release_heading new_version today) text"

definition update_changelog_for_stable :: "string \<Rightarrow> string \<Rightarrow> string \<Rightarrow> exn + string" where
  "update_changelog_for_stable today new_version text =
     (if \<not> contains text unreleased_heading then fail ''CHANGELOG.md has no [Unreleased] heading to promote.''
      else let text = promote_heading today new_version text in
        case re_search unreleased_link_re text of
          None \<Rightarrow> fail ''CHANGELOG.md has no [Unreleased] compare link to update.''
        | Some (u, m, v, match) \<Rightarrow>
            let prev_version = the_group match 2 in
            bindE (sub_once unreleased_link_re
                     (''[Unreleased]: '' @ the_group match 1 @ new_version @ ''...HEAD'') text) (\<lambda>text.
            case re_search (prev_link_re prev_version) text of
              None \<Rightarrow> fail (''CHANGELOG.md has no link reference for previous version ['' @ prev_version @ ''].'')
            | Some (u, m, v, prev_link) \<Rightarrow>
                let new_link_url = replace_all (''v'' @ prev_version) (''v'' @ new_version) (the_group prev_link 1) in
                sub_once (prev_link_re prev_version)
                  (''['' @ new_version @ '']: '' @ new_link_url @ br @
                   ''['' @ prev_version @ '']: '' @ the_group prev_link 1) text))"

subsection \<open>A run of the script\<close>

datatype logged = GitCommand "string list" | WroteManifest pyval | WroteChangelog string

record 'w shell =
  sh_git :: "string list \<Rightarrow> 'w \<Rightarrow> string option \<times> 'w"
  sh_manifest :: "'w \<Rightarrow> exn + pyval"
  sh_put_manifest :: "pyval \<Rightarrow> 'w \<Rightarrow> 'w"
  sh_changelog :: "'w \<Rightarrow> exn + string"
  sh_put_changelog :: "string \<Rightarrow> 'w \<Rightarrow> 'w"
  sh_today :: string

record 'w session =
  ss_world :: 'w
  ss_log :: "logged list"

text \<open>\<^verbatim>\<open>run("git", ..., capture=True)\<close>: a failing command raises. The calls without
  \<^verbatim>\<open>capture\<close> return the empty text, which nobody reads.\<close>

definition run_git :: "'w shell \<Rightarrow> string list \<Rightarrow> ('w session, string) act" where
  "run_git sh args s = (case sh_git sh args (ss_world s) of (out, w) \<Rightarrow>
     let s' = s\<lparr>ss_world := w, ss_log := GitCommand args # ss_log s\<rparr>
     in case out of None \<Rightarrow> (Inl CalledProcessError, s') | Some text \<Rightarrow> (Inr (strip text), s'))"

definition git_do :: "'w shell \<Rightarrow> string list \<Rightarrow> ('w session, unit) act" where
  "git_do sh args = bindS (run_git sh args) (\<lambda>_. returnS ())"

definition load_manifest :: "'w shell \<Rightarrow> ('w session, pyval) act" where
  "load_manifest sh = bindS (getS (\<lambda>s. sh_manifest sh (ss_world s))) liftS"

definition read_version :: "'w shell \<Rightarrow> ('w session, string) act" where
  "read_version sh = bindS (load_manifest sh) (\<lambda>data. case data of
      PDict d \<Rightarrow> (case map_of d ''version'' of Some v \<Rightarrow> returnS (py_str v) | None \<Rightarrow> raiseS KeyError)
    | _ \<Rightarrow> raiseS TypeError)"

definition write_version :: "'w shell \<Rightarrow> string \<Rightarrow> ('w session, unit) act" where
  "write_version sh new_version = bindS (load_manifest sh) (\<lambda>data. case data of
      PDict d \<Rightarrow> (let data = PDict (AList.update ''version'' (PStr new_version) d)
        in modifyS (\<lambda>s. s\<lparr>ss_world := sh_put_manifest sh data (ss_world s), ss_log := WroteManifest data # ss_log s\<rparr>))
    | _ \<Rightarrow> raiseS TypeError)"

definition assert_clean_tree :: "'w shell \<Rightarrow> ('w session, unit) act" where
  "assert_clean_tree sh = bindS (run_git sh [''status'', ''--porcelain'']) (\<lambda>out.
     whenS (out \<noteq> []) (liftS (fail (''working tree is not clean. Commit or stash changes first.'' @ br @ out))))"

definition checkout_fresh_dev :: "'w shell \<Rightarrow> ('w session, unit) act" where
  "checkout_fresh_dev sh =
     bindS (git_do sh [''fetch'', ''origin'', ''dev'']) (\<lambda>_.
     bindS (run_git sh [''branch'', ''--list'', ''dev'']) (\<lambda>branches.
     if branches = [] then git_do sh [''checkout'', ''-b'', ''dev'', ''origin/dev'']
     else bindS (git_do sh [''checkout'', ''dev'']) (\<lambda>_.
          git_do sh [''pull'', ''origin'', ''dev''])))"

definition bump_branch :: "string \<Rightarrow> string" where
  "bump_branch new_version = ''claude/bump-'' @ new_version"

definition create_bump_branch :: "'w shell \<Rightarrow> string \<Rightarrow> ('w session, string) act" where
  "create_bump_branch sh new_version =
     (let branch = bump_branch new_version in
      bindS (run_git sh [''branch'', ''--list'', branch]) (\<lambda>existing.
      bindS (whenS (existing \<noteq> []) (liftS (fail (''branch '' @ repr_str branch
               @ '' already exists locally. Delete it with `git branch -D '' @ branch @ ''` if it is stale.'')))) (\<lambda>_.
      bindS (git_do sh [''checkout'', ''-b'', branch]) (\<lambda>_. returnS branch))))"

text \<open>\<^verbatim>\<open>previous_tag\<close> turns the failure of git into \<open>None\<close>.\<close>

definition previous_tag :: "'w shell \<Rightarrow> ('w session, string option) act" where
  "previous_tag sh s =
     (case run_git sh [''describe'', ''--tags'', ''--abbrev=0'', ''--match'', ''v*''] s of
        (Inr tag, s') \<Rightarrow> (Inr (Some tag), s')
      | (Inl e, s') \<Rightarrow> (if e = CalledProcessError then (Inr None, s') else (Inl e, s')))"

definition merges_since :: "'w shell \<Rightarrow> string \<Rightarrow> ('w session, string) act" where
  "merges_since sh tag = run_git sh [''log'', tag @ ''..HEAD'', ''--merges'', ''--oneline'']"

definition promote_changelog :: "'w shell \<Rightarrow> string \<Rightarrow> ('w session, unit) act" where
  "promote_changelog sh new_version =
     bindS (getS (\<lambda>s. sh_changelog sh (ss_world s))) (\<lambda>r.
     bindS (liftS (bindE r (update_changelog_for_stable (sh_today sh) new_version))) (\<lambda>text.
     modifyS (\<lambda>s. s\<lparr>ss_world := sh_put_changelog sh text (ss_world s), ss_log := WroteChangelog text # ss_log s\<rparr>)))"

datatype bump_mode = Pre | Stable | NextCycle

definition next_version :: "bump_mode \<Rightarrow> string \<Rightarrow> exn + string" where
  "next_version mode current = (case mode of
      Pre \<Rightarrow> bump_pre current | Stable \<Rightarrow> bump_stable current | NextCycle \<Rightarrow> bump_next_cycle current)"

definition manifest_path :: string where "manifest_path = ''custom_components/unifi_alerts/manifest.json''"
definition changelog_path :: string where "changelog_path = ''CHANGELOG.md''"

text \<open>\<^verbatim>\<open>main\<close>, after the arguments have been parsed.\<close>

definition bump_main :: "'w shell \<Rightarrow> bump_mode \<Rightarrow> ('w session, nat) act" where
  "bump_main sh mode =
     bindS (assert_clean_tree sh) (\<lambda>_.
     bindS (read_version sh) (\<lambda>current.
     bindS (liftS (next_version mode current)) (\<lambda>new_version.
     bindS (checkout_fresh_dev sh) (\<lambda>_.
     bindS (create_bump_branch sh new_version) (\<lambda>branch.
     bindS (write_version sh new_version) (\<lambda>_.
     bindS (whenS (mode = Stable) (promote_changelog sh new_version)) (\<lambda>_.
     bindS (git_do sh ([''add'', manifest_path] @ (if mode = Stable then [changelog_path] else []))) (\<lambda>_.
     bindS (previous_tag sh) (\<lambda>prev.
     bindS (case prev of
              None \<Rightarrow> returnS ()
            | Some tag \<Rightarrow> whenS (tag \<noteq> []) (bindS (merges_since sh tag) (\<lambda>_. returnS ()))) (\<lambda>_.
     returnS 0))))))))))"

end
