(* ===== verification/ReleaseProps.thy ===== *)
theory ReleaseProps
  imports Release
begin

section \<open>Properties of the release script\<close>

text \<open>
  Version numbers are read back as they are written and every mode moves to a later one; a run writes
  only on the fresh branch it made, and never commits or pushes; the change log gets its release heading
  and links and is otherwise kept.
\<close>

subsection \<open>Reading versions\<close>

lemma takeWhile_digits [simp]:
  "takeWhile is_digit (nat_str n @ c # s) = (if is_digit c then nat_str n @ takeWhile is_digit (c # s) else nat_str n)"
  "dropWhile is_digit (nat_str n @ c # s) = (if is_digit c then dropWhile is_digit (c # s) else c # s)"
  "takeWhile is_digit (nat_str n) = nat_str n" "dropWhile is_digit (nat_str n) = []"
  using nat_str_digits [of n] by (auto simp: list_all_iff takeWhile_append2 dropWhile_append2)

lemma nat_str_head [simp]: "is_digit (hd (nat_str n))" "is_digit (hd (nat_str n @ s))"
  using nat_str_digits [of n] nat_str_nonempty [of n] by (cases "nat_str n"; simp)+

definition format_version :: "version \<Rightarrow> string" where
  "format_version v = (case v of (major, minor, patch, None) \<Rightarrow> format_stable major minor patch
     | (major, minor, patch, Some pre) \<Rightarrow> format_pre major minor patch pre)"

lemma not_digit [simp]: "\<not> is_digit CHR ''.''" "\<not> is_digit CHR ''-''" "\<not> is_digit newline"
  by (simp_all add: is_digit_def newline_def)

lemmas digit_runs = rmatch_group_plus_blocked [where P = is_digit, folded digits_def]

lemma blocked_dot: "blocked is_digit (RSeq (RLit ''.'') b)"
  by (rule blocked_lit) simp_all

lemma blocked_pre: "blocked is_digit (RSeq (ROpt (RSeq (RLit ''-pre'') b)) (RSeq RTextEnd c))"
  by (intro blocked_opt blocked_seq blocked_lit blocked_end) simp_all

lemma parse_format: "parse_version (format_version v) = Inr v"
proof -
  obtain a b c pre where v: "v = (a, b, c, pre)" by (cases v)
  have "re_match VERSION_RE (format_version v) = Some (case pre of None \<Rightarrow> [(3, nat_str c), (2, nat_str b), (1, nat_str a)]
    | Some n \<Rightarrow> [(4, nat_str n), (3, nat_str c), (2, nat_str b), (1, nat_str a)])"
    by (cases pre) (simp_all add: v re_match_def VERSION_RE_def format_version_def format_stable_def
        format_pre_def rmatch_seq_simps digit_runs blocked_dot blocked_pre [unfolded ROpt_def]
        blocked_end blocked_empty startswith_def ROpt_def del: RLit.simps rmatch.simps(3))
  then show ?thesis by (auto simp: parse_version_def v rx_group_def split: option.split)
qed

interpretation versions: codec format_version "\<lambda>s. case parse_version s of Inl _ \<Rightarrow> None | Inr v \<Rightarrow> Some v" "\<lambda>_. True"
  by unfold_locales (simp add: parse_format)

text \<open>The order of versions: a pre-release comes before the stable version of the same numbers.\<close>

definition version_less :: "version \<Rightarrow> version \<Rightarrow> bool" where
  "version_less v w = (case (v, w) of ((a, b, c, pre), (a', b', c', pre')) \<Rightarrow>
     a < a' \<or> a = a' \<and> (b < b' \<or> b = b' \<and> (c < c' \<or> c = c' \<and>
       (case (pre, pre') of (Some n, Some n') \<Rightarrow> n < n' | (Some n, None) \<Rightarrow> True | (None, _) \<Rightarrow> False))))"

text \<open>What each mode is documented to do: the next pre-release of the cycle, the release of the cycle,
  and the first pre-release of the next minor cycle.\<close>

fun successor :: "bump_mode \<Rightarrow> version \<Rightarrow> version option" where
  "successor Pre (a, b, c, Some n) = Some (a, b, c, Some (n + 1))"
| "successor Stable (a, b, c, Some n) = Some (a, b, c, None)"
| "successor NextCycle (a, b, c, None) = Some (a, b + 1, 0, Some 1)"
| "successor _ _ = None"

lemma next_version_successor:
  assumes "parse_version current = Inr v"
  shows "case successor mode v of
     Some w \<Rightarrow> next_version mode current = Inr (format_version w)
   | None \<Rightarrow> \<exists>msg. next_version mode current = Inl (SystemExit msg)"
  using assms by (cases "(mode, v)" rule: successor.cases)
    (auto simp: next_version_def bump_pre_def bump_stable_def bump_next_cycle_def format_version_def fail_def)

text \<open>C23: on a version the script can read, a mode either stops with a message, namely when it is the
  wrong one for a stable or pre-release version, or gives a text that reads back as exactly the version
  the mode is for, which is later than the current one.\<close>

theorem bumps_advance:
  assumes "parse_version current = Inr v"
  shows "case next_version mode current of
     Inl e \<Rightarrow> successor mode v = None \<and> (\<exists>msg. e = SystemExit msg)
   | Inr new \<Rightarrow> (\<exists>w. successor mode v = Some w \<and> parse_version new = Inr w \<and> version_less v w)"
proof (cases "successor mode v")
  case None
  with next_version_successor [OF assms, of mode] show ?thesis by auto
next
  case (Some w)
  then have "version_less v w"
    by (cases "(mode, v)" rule: successor.cases) (auto simp: version_less_def)
  with next_version_successor [OF assms, of mode] Some show ?thesis by (simp add: parse_format)
qed

lemma bumps_advance_witness:
  "next_version Stable ''2.1.0-pre3'' = Inr ''2.1.0'' \<and> version_less (2, 1, 0, Some 3) (2, 1, 0, None)"
proof -
  have "parse_version ''2.1.0-pre3'' = Inr (2, 1, 0, Some 3)" by code_simp
  from bumps_advance [OF this, of Stable] have "version_less (2, 1, 0, Some 3) (2, 1, 0, None)"
    by (auto split: sum.splits simp: version_less_def)
  moreover have "next_version Stable ''2.1.0-pre3'' = Inr ''2.1.0''" by code_simp
  ultimately show ?thesis by simp
qed

subsection \<open>Where a run writes\<close>

text \<open>The branch the log leaves the working tree on, as far as the script moved it.\<close>

fun branch_after :: "logged list \<Rightarrow> string option" where
  "branch_after (GitCommand [c, b] # es) = (if c = ''checkout'' then Some b else branch_after es)"
| "branch_after (GitCommand (c # f # b # args) # es) = (if c = ''checkout'' \<and> f = ''-b'' then Some b else branch_after es)"
| "branch_after (_ # es) = branch_after es"
| "branch_after [] = None"

definition version_of :: "pyval \<Rightarrow> pyval" where
  "version_of data = (case data of PDict d \<Rightarrow> dget d ''version'' PNone | _ \<Rightarrow> PNone)"

text \<open>Commands that change neither the history nor the remote, and writes on the branch of the version
  they write.\<close>

fun harmless :: "string \<Rightarrow> logged list \<Rightarrow> bool" where
  "harmless new [] = True"
| "harmless new (GitCommand args # es) = (args \<noteq> [] \<and>
     hd args \<in> set [''status'', ''fetch'', ''branch'', ''checkout'', ''pull'', ''add'', ''describe'', ''log'']
     \<and> harmless new es)"
| "harmless new (WroteManifest data # es) =
     (version_of data = PStr new \<and> branch_after es = Some (bump_branch new) \<and> harmless new es)"
| "harmless new (WroteChangelog text # es) = (branch_after es = Some (bump_branch new) \<and> harmless new es)"

text \<open>Sequencing of actions that may raise: \<open>E\<close> holds of the state an exception leaves.\<close>

definition triple :: "('s \<Rightarrow> bool) \<Rightarrow> ('s, 'a) act \<Rightarrow> ('a \<Rightarrow> 's \<Rightarrow> bool) \<Rightarrow> ('s \<Rightarrow> bool) \<Rightarrow> bool" where
  "triple P m Q E \<longleftrightarrow> (\<forall>s. P s \<longrightarrow> (case m s of (Inl e, s') \<Rightarrow> E s' | (Inr x, s') \<Rightarrow> Q x s'))"

lemma triple_bind:
  assumes "triple P m R E" "\<And>x. triple (R x) (f x) Q E"
  shows "triple P (bindS m f) Q E"
  using assms by (fastforce simp: triple_def bindS_def split: prod.splits sum.splits)

lemma triple_return: "(\<And>s. P s \<Longrightarrow> Q x s) \<Longrightarrow> triple P (returnS x) Q E"
  by (simp add: triple_def returnS_def)

lemma triple_lift: "(\<And>s e. P s \<Longrightarrow> r = Inl e \<Longrightarrow> E s) \<Longrightarrow> (\<And>s x. P s \<Longrightarrow> r = Inr x \<Longrightarrow> Q x s) \<Longrightarrow> triple P (liftS r) Q E"
  by (auto simp: triple_def liftS_def split: sum.split)

lemma triple_get: "(\<And>s. P s \<Longrightarrow> Q (g s) s) \<Longrightarrow> triple P (getS g) Q E"
  by (simp add: triple_def getS_def)

lemma triple_raise: "(\<And>s. P s \<Longrightarrow> E s) \<Longrightarrow> triple P (raiseS e) Q E"
  by (simp add: triple_def raiseS_def)

lemma triple_modify: "(\<And>s. P s \<Longrightarrow> Q () (f s)) \<Longrightarrow> triple P (modifyS f) Q E"
  by (simp add: triple_def modifyS_def)

lemma triple_when: "(b \<Longrightarrow> triple P m Q E) \<Longrightarrow> (\<And>s. P s \<Longrightarrow> \<not> b \<Longrightarrow> Q () s) \<Longrightarrow> triple P (whenS b m) Q E"
  by (auto simp: triple_def whenS_def returnS_def)

lemma triple_git:
  assumes "\<And>s. P s \<Longrightarrow> Q' (GitCommand args # ss_log s)" "\<And>s. Q' (ss_log s) \<Longrightarrow> E s" "\<And>x s. Q' (ss_log s) \<Longrightarrow> Q x s"
  shows "triple P (run_git sh args) Q E"
  using assms by (auto simp: triple_def run_git_def Let_def split: prod.splits option.splits)

definition no_write :: "'w session \<Rightarrow> bool" where
  "no_write s \<longleftrightarrow> (\<forall>new. harmless new (ss_log s))"

definition on_branch :: "string \<Rightarrow> 'w session \<Rightarrow> bool" where
  "on_branch new s \<longleftrightarrow> harmless new (ss_log s) \<and> branch_after (ss_log s) = Some (bump_branch new)"

definition left_harmless :: "'w session \<Rightarrow> bool" where
  "left_harmless s \<longleftrightarrow> (\<exists>new. harmless new (ss_log s))"

lemma phases: "no_write s \<Longrightarrow> left_harmless s" "on_branch new s \<Longrightarrow> left_harmless s"
  by (auto simp: no_write_def on_branch_def left_harmless_def)

definition safe_command :: "string list \<Rightarrow> bool" where
  "safe_command args \<longleftrightarrow> args \<noteq> [] \<and>
     hd args \<in> set [''status'', ''fetch'', ''branch'', ''checkout'', ''pull'', ''add'', ''describe'', ''log'']"

lemma branch_after_skip [simp]: "hd args \<noteq> ''checkout'' \<Longrightarrow> branch_after (GitCommand args # es) = branch_after es"
  by (induction "GitCommand args # es" rule: branch_after.induct) auto

lemma git_no_write: "safe_command args \<Longrightarrow> triple no_write (run_git sh args) (\<lambda>_. no_write) left_harmless"
  by (rule triple_git [where Q' = "\<lambda>es. \<forall>new. harmless new es"])
    (auto simp: no_write_def left_harmless_def safe_command_def)

lemma git_on_branch:
  assumes "safe_command args" "hd args \<noteq> ''checkout''"
  shows "triple (on_branch new) (run_git sh args) (\<lambda>_. on_branch new) left_harmless"
  using assms by (intro triple_git [where Q' = "\<lambda>es. harmless new es \<and> branch_after es = Some (bump_branch new)"])
    (auto simp: on_branch_def left_harmless_def safe_command_def)

lemmas triple_steps = triple_bind triple_return triple_lift triple_get triple_raise triple_modify triple_when

lemma git_do_no_write: "safe_command args \<Longrightarrow> triple no_write (git_do sh args) (\<lambda>_. no_write) left_harmless"
  unfolding git_do_def by (rule triple_bind [OF git_no_write]) (auto intro: triple_return)

lemma load_manifest_keeps: "(\<And>s. P s \<Longrightarrow> E s) \<Longrightarrow> triple P (load_manifest sh) (\<lambda>_. P) E"
  unfolding load_manifest_def by (rule triple_bind [where R = "\<lambda>_. P"]) (auto intro: triple_lift triple_get)

lemma assert_clean_no_write: "triple no_write (assert_clean_tree sh) (\<lambda>_. no_write) left_harmless"
  unfolding assert_clean_tree_def
  by (rule triple_bind [OF git_no_write]) (auto simp: safe_command_def phases intro!: triple_when triple_lift)

lemma read_version_no_write: "triple no_write (read_version sh) (\<lambda>_. no_write) left_harmless"
  unfolding read_version_def
  by (rule triple_bind [OF load_manifest_keeps]) (auto simp: phases split: pyval.split option.split intro!: triple_raise triple_return)

lemma checkout_dev_no_write: "triple no_write (checkout_fresh_dev sh) (\<lambda>_. no_write) left_harmless"
  unfolding checkout_fresh_dev_def
  by (intro triple_bind [OF git_do_no_write] triple_bind [OF git_no_write])
    (auto simp: safe_command_def intro!: git_do_no_write triple_bind [OF git_do_no_write])

lemma create_branch_on_branch:
  "triple no_write (create_bump_branch sh new) (\<lambda>_. on_branch new) left_harmless"
proof -
  have "triple no_write (git_do sh [''checkout'', ''-b'', bump_branch new]) (\<lambda>_. on_branch new) left_harmless"
    unfolding git_do_def
    by (rule triple_bind [OF triple_git [where Q' = "\<lambda>es. harmless new es \<and> branch_after es = Some (bump_branch new)"
          and Q = "\<lambda>_. on_branch new"]])
      (auto simp: no_write_def on_branch_def left_harmless_def intro: triple_return)
  note branch = this
  have "triple no_write (whenS b (liftS (fail msg))) (\<lambda>_. no_write) left_harmless" for b msg
    by (auto simp: phases fail_def intro!: triple_when triple_lift)
  from triple_bind [OF this triple_bind [OF branch triple_return]]
  show ?thesis unfolding create_bump_branch_def Let_def
    by (intro triple_bind [OF git_no_write]) (auto simp: safe_command_def)
qed

definition wrote :: "string \<Rightarrow> 'w session \<Rightarrow> bool" where
  "wrote new s \<longleftrightarrow> on_branch new s \<and> (\<exists>data. WroteManifest data \<in> set (ss_log s))"

lemma write_version_wrote: "triple (on_branch new) (write_version sh new) (\<lambda>_. wrote new) left_harmless"
  unfolding write_version_def
  by (rule triple_bind [OF load_manifest_keeps])
    (auto simp: phases wrote_def on_branch_def version_of_def dget_def update_conv' Let_def
        split: pyval.split intro!: triple_raise triple_modify)

lemma git_wrote:
  assumes "safe_command args" "hd args \<noteq> ''checkout''"
  shows "triple (wrote new) (run_git sh args) (\<lambda>_. wrote new) left_harmless"
  using assms by (intro triple_git [where Q' = "\<lambda>es. harmless new es \<and> branch_after es = Some (bump_branch new)
      \<and> (\<exists>data. WroteManifest data \<in> set es)"])
    (auto simp: wrote_def on_branch_def left_harmless_def safe_command_def)

lemma promote_wrote: "triple (wrote new) (promote_changelog sh new) (\<lambda>_. wrote new) left_harmless"
  unfolding promote_changelog_def
  by (intro triple_bind [where R = "\<lambda>_. wrote new"] triple_get triple_lift triple_modify)
    (auto simp: wrote_def on_branch_def left_harmless_def)

lemma previous_tag_wrote: "triple (wrote new) (previous_tag sh) (\<lambda>_. wrote new) left_harmless"
proof -
  have "snd (previous_tag sh s) = snd (run_git sh [''describe'', ''--tags'', ''--abbrev=0'', ''--match'', ''v*''] s)" for s
    by (simp add: previous_tag_def split: prod.split sum.split)
  moreover have "wrote new (snd (run_git sh [''describe'', ''--tags'', ''--abbrev=0'', ''--match'', ''v*''] s))"
    if "wrote new s" for s
    using that by (auto simp: run_git_def wrote_def on_branch_def Let_def split: prod.split option.split)
  ultimately show ?thesis
    by (auto simp: triple_def wrote_def phases split: prod.splits sum.splits) (metis phases(2) snd_conv)+
qed

lemma bump_main_triple:
  "triple no_write (bump_main sh mode) (\<lambda>_ s. \<exists>new. wrote new s) left_harmless"
proof -
  have tail: "triple (wrote new) (bindS (previous_tag sh) (\<lambda>prev. bindS (case prev of None \<Rightarrow> returnS ()
      | Some tag \<Rightarrow> whenS (tag \<noteq> []) (bindS (merges_since sh tag) (\<lambda>_. returnS ()))) (\<lambda>_. returnS 0)))
      (\<lambda>_ s. \<exists>new. wrote new s) left_harmless" for new
  proof (rule triple_bind [OF previous_tag_wrote])
    fix prev :: "string option"
    have "triple (wrote new) (case prev of None \<Rightarrow> returnS ()
      | Some tag \<Rightarrow> whenS (tag \<noteq> []) (bindS (merges_since sh tag) (\<lambda>_. returnS ()))) (\<lambda>_. wrote new) left_harmless"
      unfolding merges_since_def
      by (cases prev) (auto simp: safe_command_def intro!: triple_return triple_when triple_bind [OF git_wrote])
    then show "triple (wrote new) (bindS (case prev of None \<Rightarrow> returnS ()
      | Some tag \<Rightarrow> whenS (tag \<noteq> []) (bindS (merges_since sh tag) (\<lambda>_. returnS ()))) (\<lambda>_. returnS 0))
      (\<lambda>_ s. \<exists>new. wrote new s) left_harmless"
      by (rule triple_bind) (auto intro: triple_return)
  qed
  have add: "triple (wrote new) (git_do sh ([''add'', manifest_path] @ extra)) (\<lambda>_. wrote new) left_harmless" for new extra
    unfolding git_do_def by (rule triple_bind [OF git_wrote]) (auto simp: safe_command_def intro: triple_return)
  have promote: "triple (wrote new) (whenS b (promote_changelog sh new)) (\<lambda>_. wrote new) left_harmless" for new b
    by (auto intro: triple_when promote_wrote)
  have bump: "triple no_write (liftS (next_version mode current)) (\<lambda>_. no_write) left_harmless" for current
    by (auto simp: phases intro: triple_lift)
  show ?thesis unfolding bump_main_def
    by (rule triple_bind [OF assert_clean_no_write] triple_bind [OF read_version_no_write] triple_bind [OF bump]
      triple_bind [OF checkout_dev_no_write] triple_bind [OF create_branch_on_branch]
      triple_bind [OF write_version_wrote] triple_bind [OF promote] triple_bind [OF add] tail)+
qed

lemma dirty_tree_stops:
  assumes "sh_git sh [''status'', ''--porcelain''] w = (Some out, w')" "strip out \<noteq> []"
  shows "\<exists>msg. bump_main sh mode \<lparr> ss_world = w, ss_log = [] \<rparr>
    = (Inl (SystemExit msg), \<lparr> ss_world = w', ss_log = [GitCommand [''status'', ''--porcelain'']] \<rparr>)"
  using assms by (simp add: bump_main_def assert_clean_tree_def bindS_def run_git_def Let_def whenS_def liftS_def fail_def)


subsection \<open>The version is read before dev is checked out\<close>

text \<open>A small repository: the branch that is checked out, and the manifest on each branch. Creating a
  branch copies the manifest of the current one.\<close>

record small_repo =
  sr_head :: string
  sr_manifests :: "(string \<times> pyval) list"

fun small_git :: "string list \<Rightarrow> small_repo \<Rightarrow> string option \<times> small_repo" where
  "small_git [c, f, b] w =
     (if c = ''checkout'' then (case map_of (sr_manifests w) (sr_head w) of
         Some m \<Rightarrow> (Some [], w\<lparr>sr_head := b, sr_manifests := AList.update b m (sr_manifests w)\<rparr>)
       | None \<Rightarrow> (None, w))
      else if c = ''branch'' then (Some (if map_of (sr_manifests w) b = None then [] else b), w)
      else (Some [], w))"
| "small_git [c, b] w = (if c = ''checkout'' then (Some [], w\<lparr>sr_head := b\<rparr>) else (Some [], w))"
| "small_git args w = (Some [], w)"

definition manifest_at :: "string \<Rightarrow> pyval" where
  "manifest_at v = PDict [(''domain'', PStr ''unifi_alerts''), (''version'', PStr v)]"

definition small_shell :: "small_repo shell" where
  "small_shell = \<lparr> sh_git = small_git,
     sh_manifest = (\<lambda>w. case map_of (sr_manifests w) (sr_head w) of Some m \<Rightarrow> Inr m | None \<Rightarrow> Inl FileNotFoundError),
     sh_put_manifest = (\<lambda>m w. w\<lparr>sr_manifests := AList.update (sr_head w) m (sr_manifests w)\<rparr>),
     sh_changelog = (\<lambda>w. Inl FileNotFoundError), sh_put_changelog = (\<lambda>t w. w), sh_today = ''2026-01-01'' \<rparr>"

text \<open>Started on another branch than dev, the script computes the new version from that branch's
  manifest: dev is at 2.2.0-pre4, and the bump branch cut from it gets 2.1.0-pre2.\<close>

theorem bump_from_other_branch:
  "case bump_main small_shell Pre \<lparr> ss_world = \<lparr> sr_head = ''fix'',
      sr_manifests = [(''dev'', manifest_at ''2.2.0-pre4''), (''fix'', manifest_at ''2.1.0-pre1'')] \<rparr>, ss_log = [] \<rparr> of
     (r, s') \<Rightarrow> r = Inr 0 \<and> sr_manifests (ss_world s') = [(''dev'', manifest_at ''2.2.0-pre4''),
       (''fix'', manifest_at ''2.1.0-pre1''), (''claude/bump-2.1.0-pre2'', manifest_at ''2.1.0-pre2'')]"
  by code_simp

subsection \<open>The change log\<close>

text \<open>A line of a text, with what comes before and after it.\<close>

definition line_at :: "string \<Rightarrow> string \<Rightarrow> string \<Rightarrow> string \<Rightarrow> bool" where
  "line_at text u line v \<longleftrightarrow> text = u @ line @ v \<and> (u = [] \<or> last u = newline) \<and> (v = [] \<or> hd v = newline)"

lemma groupless_lit [simp]: "groupless (RLit t)"
  by (induction t) simp_all

lemma unreleased_link:
  assumes "re_search unreleased_link_re text = Some (u, m, v, gs)"
  shows "line_at text u (''[Unreleased]: '' @ the_group gs 1 @ the_group gs 2 @ ''...HEAD'') v"
proof -
  from re_search_Some [OF assms] obtain p p' where t: "text = u @ m @ v"
    and way: "(p', v, gs) \<in> set (rmatch unreleased_link_re p (m @ v) [])" and p: "p = (if u = [] then None else Some (last u))" .
  have g: "groupless (RSeq (RPlus (RChar no_newline)) (RLit ''/compare/v''))"
    "groupless (RSeq (RPlus (RChar (\<lambda>c. is_digit c \<or> c = CHR ''.''))) (ROpt (RSeq (RLit ''-pre'') digits)))"
    by (simp_all add: RPlus_def ROpt_def digits_def)
  from way obtain q s where line: "p = None \<or> p = Some newline" "m @ v = ''[Unreleased]: '' @ s"
    and way: "(p', v, gs) \<in> set (rmatch (RSeq (RGroup 1 (RSeq (RPlus (RChar no_newline)) (RLit ''/compare/v'')))
       (RCat [RGroup 2 (RSeq (RPlus (RChar (\<lambda>c. is_digit c \<or> c = CHR ''.''))) (ROpt (RSeq (RLit ''-pre'') digits))),
     RLit ''...HEAD'', RLineEnd])) q s [])"
    unfolding unreleased_link_re_def RCat.simps in_line by blast
  from in_group_seq [OF g(1) way] obtain a t1 q1 where a: "s = a @ t1" 
    and way: "(p', v, gs) \<in> set (rmatch (RSeq (RGroup 2 (RSeq (RPlus (RChar (\<lambda>c. is_digit c \<or> c = CHR ''.''))) (ROpt (RSeq (RLit ''-pre'') digits))))
     (RCat [RLit ''...HEAD'', RLineEnd])) q1 t1 [(1, a)])"
    unfolding RCat.simps .
  from in_group_seq [OF g(2) way] obtain b t2 q2 where b: "t1 = b @ t2"
    and way: "(p', v, gs) \<in> set (rmatch (RCat [RLit ''...HEAD'', RLineEnd]) q2 t2 [(2, b), (1, a)])" .
  from way have "t2 = ''...HEAD'' @ v" "gs = [(2, b), (1, a)]" "v = [] \<or> hd v = newline"
    unfolding RCat.simps in_line by auto
  with t p line a b show ?thesis by (auto simp: line_at_def the_group_def rx_group_def split: if_splits)
qed

lemma prev_link:
  assumes "re_search (prev_link_re prev) text = Some (u, m, v, gs)"
  shows "line_at text u (''['' @ prev @ '']: '' @ the_group gs 1) v"
proof -
  from re_search_Some [OF assms] obtain p p' where t: "text = u @ m @ v"
    and way: "(p', v, gs) \<in> set (rmatch (prev_link_re prev) p (m @ v) [])" and p: "p = (if u = [] then None else Some (last u))" .
  have g: "groupless (RSeq (RPlus (RChar no_newline)) (RLit (''/releases/tag/v'' @ prev)))"
    by (simp add: RPlus_def)
  from way obtain q s where line: "p = None \<or> p = Some newline" "m @ v = (''['' @ prev @ '']: '') @ s"
    and way: "(p', v, gs) \<in> set (rmatch (RSeq (RGroup 1 (RSeq (RPlus (RChar no_newline)) (RLit (''/releases/tag/v'' @ prev))))
       (RCat [RLineEnd])) q s [])"
    unfolding prev_link_re_def RCat.simps in_line by blast
  from in_group_seq [OF g way] obtain a t1 q1 where a: "s = a @ t1" 
    and way: "(p', v, gs) \<in> set (rmatch (RCat [RLineEnd]) q1 t1 [(1, a)])" .
  from way have "t1 = v" "gs = [(1, a)]" "v = [] \<or> hd v = newline"
    unfolding RCat.simps in_line by auto
  with t p line a show ?thesis by (auto simp: line_at_def the_group_def rx_group_def split: if_splits)
qed

text \<open>C31: a successful promotion changes the change log in three places and keeps every other character:
  the heading of the new release appears under the emptied heading of the unreleased changes, the line
  that compares with the previous version compares with the new one, and the link of the new release,
  the previous one's with the version replaced, gets a line of its own above it.\<close>

theorem changelog_promoted:
  assumes "update_changelog_for_stable today new text = Inr text'"
  shows "\<exists>u v c d base prev e f url.
    text = u @ unreleased_heading @ v \<and>
    line_at (u @ unreleased_heading @ br @ br @ release_heading new today @ v)
      c (''[Unreleased]: '' @ base @ prev @ ''...HEAD'') d \<and>
    line_at (c @ ''[Unreleased]: '' @ base @ new @ ''...HEAD'' @ d) e (''['' @ prev @ '']: '' @ url) f \<and>
    text' = e @ ''['' @ new @ '']: '' @ replace_all (''v'' @ prev) (''v'' @ new) url @ br @
      ''['' @ prev @ '']: '' @ url @ f"
proof -
  have "contains text unreleased_heading"
    using assms by (auto simp: update_changelog_for_stable_def fail_def split: if_splits)
  moreover have "unreleased_heading \<noteq> []" by (simp add: unreleased_heading_def)
  ultimately have "\<exists>u v. text = u @ unreleased_heading @ v \<and> promote_heading today new text =
      u @ (unreleased_heading @ br @ br @ release_heading new today) @ v"
    unfolding promote_heading_def by (rule replace_first_at)
  then obtain u v where uv: "text = u @ unreleased_heading @ v"
    "promote_heading today new text = u @ unreleased_heading @ br @ br @ release_heading new today @ v"
    unfolding append_assoc by blast
  let ?t1 = "promote_heading today new text"
  from assms obtain c m d gs where l1: "re_search unreleased_link_re ?t1 = Some (c, m, d, gs)"
    by (auto simp: update_changelog_for_stable_def fail_def Let_def split: if_splits option.splits)
  let ?line = "''[Unreleased]: '' @ the_group gs 1 @ new @ ''...HEAD''"
  from assms l1 obtain e m' f hs where l2: "re_search (prev_link_re (the_group gs 2)) (c @ ?line @ d) = Some (e, m', f, hs)"
    and t': "text' = e @ ''['' @ new @ '']: '' @ replace_all (''v'' @ the_group gs 2) (''v'' @ new) (the_group hs 1) @ br @
      ''['' @ the_group gs 2 @ '']: '' @ the_group hs 1 @ f"
    by (auto simp: update_changelog_for_stable_def fail_def Let_def sub_once_def bindE_eq_Inr split: if_splits option.splits)
  show ?thesis
    using uv(1) unreleased_link [OF l1, unfolded uv(2)] prev_link [OF l2, unfolded append_assoc] t' by blast
qed

lemma changelog_promoted_witness:
  "\<exists>e f url. update_changelog_for_stable ''2026-01-01'' ''2.2.0''
      (''## [Unreleased]'' @ br @ ''- x'' @ br @ ''[Unreleased]: h/compare/v2.1.0...HEAD'' @ br @ ''[2.1.0]: h/releases/tag/v2.1.0'')
    = Inr (e @ ''[2.2.0]: '' @ url @ f)"
proof -
  have "update_changelog_for_stable ''2026-01-01'' ''2.2.0''
      (''## [Unreleased]'' @ br @ ''- x'' @ br @ ''[Unreleased]: h/compare/v2.1.0...HEAD'' @ br @ ''[2.1.0]: h/releases/tag/v2.1.0'')
    = Inr (''## [Unreleased]'' @ br @ br @ ''## [2.2.0] - 2026-01-01'' @ br @ ''- x'' @ br @
        ''[Unreleased]: h/compare/v2.2.0...HEAD'' @ br @ ''[2.2.0]: h/releases/tag/v2.2.0'' @ br @ ''[2.1.0]: h/releases/tag/v2.1.0'')"
    (is "?l = Inr ?r") by code_simp
  from changelog_promoted [OF this] obtain e url f prev where
    "?r = e @ ''['' @ ''2.2.0'' @ '']: '' @ replace_all (''v'' @ prev) (''v'' @ ''2.2.0'') url @ br @ ''['' @ prev @ '']: '' @ url @ f"
    by metis
  with \<open>?l = Inr ?r\<close> show ?thesis
    by (intro exI [of _ e] exI [of _ "br @ ''['' @ prev @ '']: '' @ url @ f"]
      exI [of _ "replace_all (''v'' @ prev) (''v'' @ ''2.2.0'') url"]) (simp only: append_assoc append_Cons append_Nil)
qed

end
