(* ===== verification/Hacs.thy ===== *)
theory Hacs
  imports ReleaseProps
begin

section \<open>The HACS validator\<close>

text \<open>
  \<^verbatim>\<open>scripts/validate_hacs.py\<close>: the checks of \<^verbatim>\<open>manifest.json\<close> and \<^verbatim>\<open>hacs.json\<close>. A file is given
  by what reading it yields: its JSON value, or the exception with its text. The result is the list of
  messages or the exception that leaves the script. A set of names has no order in Python; the model
  lists it in the order of the source. Texts outside ASCII in a message are written in ASCII, and the
  marks before the printed result are left out.
\<close>

definition HA_CORE_INTEGRATIONS :: "string list" where
  "HA_CORE_INTEGRATIONS = [
     ''auth'', ''automation'', ''cloud'', ''config'', ''configurator'', ''conversation'',
     ''default_config'', ''dhcp'', ''energy'', ''frontend'', ''hassio'', ''history'',
     ''homeassistant'', ''http'', ''input_boolean'', ''input_button'', ''input_datetime'',
     ''input_number'', ''input_select'', ''input_text'', ''logbook'', ''lovelace'', ''map'',
     ''media_source'', ''mobile_app'', ''my'', ''network'', ''onboarding'',
     ''persistent_notification'', ''recorder'', ''repairs'', ''safe_mode'', ''script'', ''scene'',
     ''shopping_list'', ''ssdp'', ''sun'', ''system_health'', ''system_log'', ''tag'', ''timer'',
     ''trace'', ''usb'', ''webhook'', ''websocket_api'', ''zeroconf'', ''zone'']"

definition MANIFEST_REQUIRED :: "string list" where
  "MANIFEST_REQUIRED = [''domain'', ''name'', ''codeowners'', ''documentation'', ''iot_class'', ''version'']"

definition VALID_IOT_CLASSES :: "string list" where
  "VALID_IOT_CLASSES = [''assumed_state'', ''calculated'', ''cloud_polling'', ''cloud_push'',
     ''local_polling'', ''local_push'']"

definition HACS_VALID_KEYS :: "string list" where
  "HACS_VALID_KEYS = [''name'', ''content_in_root'', ''zip_release'', ''filename'', ''render_readme'', ''homeassistant'']"

definition tag_char :: "char \<Rightarrow> bool" where
  "tag_char c \<longleftrightarrow> of_char c \<in> {97..122 :: nat} \<or> of_char c \<in> {65..90 :: nat} \<or> is_digit c \<or> c = CHR ''.''"

definition HACS_VERSION_RE :: rx where
  "HACS_VERSION_RE = RCat [RTextBegin, digits, RLit ''.'', digits, RLit ''.'', digits,
     ROpt (RGroup 1 (RSeq (RLit ''-'') (RPlus (RChar tag_char)))), RTextEnd]"

type_synonym json_file = "(exn \<times> string) + pyval"

text \<open>Membership of a value in a set of texts: a list or a dictionary cannot be hashed.\<close>

fun in_names :: "pyval \<Rightarrow> string list \<Rightarrow> exn + bool" where
  "in_names (PList xs) names = Inl TypeError"
| "in_names (PDict d) names = Inl TypeError"
| "in_names (PStr s) names = Inr (s \<in> set names)"
| "in_names _ names = Inr False"

text \<open>What the checks raise on a JSON value that is not an object: \<^verbatim>\<open>in\<close> on a number, \<^verbatim>\<open>get\<close> on
  the rest.\<close>

fun not_an_object :: "pyval \<Rightarrow> exn" where
  "not_an_object (PList xs) = AttributeError"
| "not_an_object (PStr s) = AttributeError"
| "not_an_object _ = TypeError"

definition version_errors :: "dict \<Rightarrow> exn + string list" where
  "version_errors manifest = (let version = dget manifest ''version'' (PStr []) in
     if \<not> truthy version then Inr []
     else case version of
       PStr v \<Rightarrow> Inr (if re_match HACS_VERSION_RE v = None
                   then [''manifest.json: version '' @ [CHR 0x27] @ v @ [CHR 0x27] @ '' must be MAJOR.MINOR.PATCH''] else [])
     | _ \<Rightarrow> Inl TypeError)"

definition iot_class_errors :: "dict \<Rightarrow> exn + string list" where
  "iot_class_errors manifest = (let iot_class = dget manifest ''iot_class'' (PStr []) in
     if \<not> truthy iot_class then Inr []
     else bindE (in_names iot_class VALID_IOT_CLASSES) (\<lambda>known.
       Inr (if known then [] else [''manifest.json: unknown iot_class '' @ [CHR 0x27] @ py_str iot_class @ [CHR 0x27]])))"

definition dependency_errors :: "dict \<Rightarrow> exn + string list" where
  "dependency_errors manifest =
     bindE (py_iter (dget manifest ''dependencies'' (PList []))) (\<lambda>deps.
     bindE (filterE (\<lambda>dep. in_names dep HA_CORE_INTEGRATIONS) deps) (\<lambda>core.
     Inr (map (\<lambda>dep. ''manifest.json: '' @ [CHR 0x27] @ ''dependencies'' @ [CHR 0x27] @ '' contains HA core built-in ''
         @ [CHR 0x27] @ py_str dep @ [CHR 0x27] @ ''. HACS rejects core integrations here - remove it.'') core)))"

definition missing_errors :: "dict \<Rightarrow> string list" where
  "missing_errors manifest = map (\<lambda>field. ''manifest.json: missing required field '' @ [CHR 0x27] @ field @ [CHR 0x27])
     (filter (\<lambda>field. map_of manifest field = None) MANIFEST_REQUIRED)"

text \<open>A file that cannot be read as JSON is one message; other exceptions escape.\<close>

definition unreadable :: "string \<Rightarrow> exn \<times> string \<Rightarrow> exn + string list" where
  "unreadable name failure = (case failure of (e, msg) \<Rightarrow>
     if e = JSONDecodeError \<or> e = FileNotFoundError then Inr [name @ '': '' @ msg] else Inl e)"

definition validate_manifest :: "json_file \<Rightarrow> exn + string list" where
  "validate_manifest content = (case content of
      Inl failure \<Rightarrow> unreadable ''manifest.json'' failure
    | Inr (PDict manifest) \<Rightarrow>
        bindE (version_errors manifest) (\<lambda>version.
        bindE (iot_class_errors manifest) (\<lambda>iot_class.
        bindE (dependency_errors manifest) (\<lambda>dependencies.
        Inr (missing_errors manifest @ version @ iot_class @ dependencies))))
    | Inr v \<Rightarrow> Inl (not_an_object v))"

definition validate_hacs_json :: "json_file \<Rightarrow> exn + string list" where
  "validate_hacs_json content = (case content of
      Inl failure \<Rightarrow> unreadable ''hacs.json'' failure
    | Inr (PDict hacs) \<Rightarrow> Inr (
        (if map_of hacs ''name'' = None then [''hacs.json: missing required field '' @ [CHR 0x27] @ ''name'' @ [CHR 0x27]] else []) @
        (if truthy (dget hacs ''zip_release'' PNone) \<and> map_of hacs ''filename'' = None
         then [''hacs.json: zip_release is true but '' @ [CHR 0x27] @ ''filename'' @ [CHR 0x27] @ '' is missing''] else []) @
        map (\<lambda>key. ''hacs.json: unknown key '' @ [CHR 0x27] @ key @ [CHR 0x27])
          (filter (\<lambda>key. key \<notin> set HACS_VALID_KEYS) (map fst hacs)))
    | Inr v \<Rightarrow> Inl (not_an_object v))"

definition hacs_main :: "json_file \<Rightarrow> json_file \<Rightarrow> exn + nat" where
  "hacs_main manifest hacs =
     bindE (validate_manifest manifest) (\<lambda>errors.
     bindE (validate_hacs_json hacs) (\<lambda>errors'.
     Inr (if errors @ errors' \<noteq> [] then 1 else 0)))"

subsection \<open>Releases stay valid\<close>

lemma star_all: "list_all P s \<Longrightarrow> \<exists>p'. (p', [], gs) \<in> set (rmatch (RStar (RChar P)) p s gs)"
  by (induction s arbitrary: p) (subst rmatch_star_char, fastforce)+

lemma tag_digits: "list_all tag_char (nat_str n)"
  using nat_str_digits [of n] by (auto simp: list_all_iff tag_char_def)

lemma pre_group:
  "\<exists>p' gs'. (p', [], gs') \<in> set (rmatch (RGroup 1 (RSeq (RLit ''-'') (RPlus (RChar tag_char)))) p (''-pre'' @ nat_str n) gs)"
proof -
  have "list_all tag_char (''re'' @ nat_str n)" using tag_digits by (simp add: tag_char_def)
  from star_all [OF this] obtain p' where "(p', [], gs) \<in> set (rmatch (RStar (RChar tag_char)) (Some CHR ''p'') (''re'' @ nat_str n) gs)" by blast
  then have "(p', [], gs) \<in> set (rmatch (RSeq (RLit ''-'') (RPlus (RChar tag_char))) p (''-pre'' @ nat_str n) gs)"
    by (auto simp: in_line RPlus_def in_ways(1) tag_char_def startswith_def simp del: rmatch.simps(3) RLit.simps)
  then show ?thesis unfolding in_ways(3) by blast
qed

lemmas digit_seq = rmatch_plus_blocked [where P = is_digit, folded digits_def]

lemma blocked_tag: "blocked is_digit (RSeq (ROpt (RGroup k (RSeq (RLit ''-'') b))) (RSeq RTextEnd c))"
proof (rule blocked_opt [OF blocked_seq blocked_end])
  show "blocked is_digit (RGroup k (RSeq (RLit ''-'') b))"
    by (auto simp: blocked_def startswith_def rmatch_seq_simps simp del: rmatch.simps(3) RLit.simps)
qed simp

lemma hacs_accepts_version: "re_match HACS_VERSION_RE (format_version v) \<noteq> None"
proof -
  obtain a b c pre where v: "v = (a, b, c, pre)" by (cases v)
  have "rmatch HACS_VERSION_RE None (format_version v) [] \<noteq> []"
  proof (cases pre)
    case None
    then show ?thesis by (simp add: v HACS_VERSION_RE_def format_version_def format_stable_def rmatch_seq_simps
        digit_seq blocked_dot blocked_tag [unfolded ROpt_def] startswith_def ROpt_def del: RLit.simps rmatch.simps(3))
  next
    case (Some n)
    let ?t = "RCat [ROpt (RGroup 1 (RSeq (RLit ''-'') (RPlus (RChar tag_char)))), RTextEnd]"
    have "rmatch ?t p (''-pre'' @ nat_str n) gs \<noteq> []" for p gs
      using pre_group [of p n gs] by (fastforce simp: ROpt_def rmatch_seq simp del: rmatch.simps(3) RLit.simps)
    with Some show ?thesis by (simp add: v HACS_VERSION_RE_def format_version_def format_stable_def format_pre_def
        rmatch_seq_simps digit_seq blocked_dot blocked_tag startswith_def del: RLit.simps rmatch.simps(3))
  qed
  then show ?thesis by (simp add: re_match_def split: list.split prod.split)
qed

text \<open>C32: the release script never makes a valid manifest invalid: if the validator finds nothing in a
  manifest, it finds nothing after any mode of the script has written its new version into it.\<close>

theorem release_keeps_manifest_valid:
  assumes "validate_manifest (Inr (PDict manifest)) = Inr []"
    and "map_of manifest ''version'' = Some (PStr current)"
    and "parse_version current = Inr v" "next_version mode current = Inr new"
  shows "validate_manifest (Inr (PDict (AList.update ''version'' (PStr new) manifest))) = Inr []"
proof -
  let ?m = "AList.update ''version'' (PStr new) manifest"
  from next_version_successor [OF assms(3), of mode] assms(4) obtain w where new: "new = format_version w"
    by (auto split: option.splits)
  have get: "dget ?m k d = (if k = ''version'' then PStr new else dget manifest k d)" for k d
    by (simp add: dget_def update_conv')
  from hacs_accepts_version [of w] have "version_errors ?m = Inr []"
    by (auto simp: version_errors_def get [unfolded new] new Let_def)
  moreover have "iot_class_errors ?m = iot_class_errors manifest" "dependency_errors ?m = dependency_errors manifest"
    by (simp_all add: iot_class_errors_def dependency_errors_def get)
  moreover have "missing_errors ?m = missing_errors manifest"
    using assms(2) by (simp add: missing_errors_def update_conv' MANIFEST_REQUIRED_def)
  ultimately show ?thesis
    using assms(1) by (auto simp: validate_manifest_def bindE_eq_Inr)
qed

definition demo_manifest :: "string \<Rightarrow> dict" where
  "demo_manifest v = [(''domain'', PStr ''unifi_alerts''), (''name'', PStr ''UniFi Alerts''), (''codeowners'', PList []),
     (''dependencies'', PList []), (''documentation'', PStr ''d''), (''iot_class'', PStr ''local_push''), (''version'', PStr v)]"

lemma release_keeps_manifest_valid_witness:
  "validate_manifest (Inr (PDict (AList.update ''version'' (PStr ''2.2.0-pre1'') (demo_manifest ''2.1.0'')))) = Inr []"
proof (rule release_keeps_manifest_valid)
  show "validate_manifest (Inr (PDict (demo_manifest ''2.1.0''))) = Inr []" by code_simp
  show "map_of (demo_manifest ''2.1.0'') ''version'' = Some (PStr ''2.1.0'')" by code_simp
  show "parse_version ''2.1.0'' = Inr (2, 1, 0, None)" by code_simp
  show "next_version NextCycle ''2.1.0'' = Inr ''2.2.0-pre1''" by code_simp
qed

end
