(* ===== verification/MakeRules.thy ===== *)
theory MakeRules
  imports PyRegex "HOL-Library.Monad_Syntax"
begin

section \<open>Makefile rules and what they run\<close>

text \<open>
  The part of \<^verbatim>\<open>scripts/validate_docs.py\<close> that reads the Makefile: \<^verbatim>\<open>_parse_makefile_targets\<close> and
  \<^verbatim>\<open>_target_capabilities\<close>, a memoised depth-first search that stops at a target it is already
  resolving. The search is a \<^theory_text>\<open>partial_function\<close>, since nothing in its recursion is structurally
  smaller; that it always returns is a theorem. It is exact on a Makefile without a cycle of
  prerequisites, never claims too much, and may remember too little on a cycle.
\<close>

type_synonym makefile = "(string \<times> (string list \<times> string list)) list"

definition TAB :: char where "TAB = CHR 0x09"

definition name_char :: "char \<Rightarrow> bool" where
  "name_char c \<longleftrightarrow> is_letter c \<or> is_digit c \<or> c \<in> set ''_.-''"

definition RULE_RE :: rx where
  "RULE_RE = RCat [RTextBegin, RGroup 1 (RPlus (RChar name_char)), RStar (RChar is_space), RLit '':'',
     RGroup 2 (RStar (RChar no_newline)), RTextEnd]"

text \<open>One line of the file, with the target whose recipe may continue.\<close>

definition parse_line :: "string \<Rightarrow> string option \<times> makefile \<Rightarrow> string option \<times> makefile" where
  "parse_line raw state = (case state of (current, targets) \<Rightarrow>
     (case (startswith raw [TAB], current) of
        (True, Some name) \<Rightarrow> (current, dict_modify name (\<lambda>(deps, commands). (deps, commands @ [strip raw])) targets)
      | _ \<Rightarrow> (case re_match RULE_RE raw of
            None \<Rightarrow> (None, targets)
          | Some m \<Rightarrow>
              let name = (case rx_group m 1 of None \<Rightarrow> [] | Some x \<Rightarrow> x) in
              if startswith name ''.'' then (None, targets)
              else (let deps = filter (\<lambda>d. d \<noteq> [] \<and> \<not> startswith d ''#'')
                      (split_words (strip (case rx_group m 2 of None \<Rightarrow> [] | Some x \<Rightarrow> x)))
                    in (Some name, AList.update name (deps, []) targets)))))"

definition parse_makefile_targets :: "string \<Rightarrow> makefile" where
  "parse_makefile_targets text = snd (fold parse_line (splitlines text) (None, []))"

text \<open>\<^verbatim>\<open>direct\<close>: what the recipe lines of a target run themselves.\<close>

definition direct :: "string list \<Rightarrow> string set" where
  "direct commands = (let text = lower (join_str [newline] commands) in
     (if contains text ''check_translations.py'' then {''translation_drift''} else {}) \<union>
     (if contains text ''validate_docs.py'' then {''docs_prose''} else {}) \<union>
     (if contains text ''validate_hacs.py'' then {''hacs_preflight''} else {}))"

definition rule_of :: "makefile \<Rightarrow> string \<Rightarrow> string list \<times> string list" where
  "rule_of targets name = (case map_of targets name of None \<Rightarrow> ([], []) | Some rule \<Rightarrow> rule)"

text \<open>The prerequisites that are targets themselves: only those are followed.\<close>

definition prerequisites :: "makefile \<Rightarrow> string \<Rightarrow> string list" where
  "prerequisites targets name = filter (\<lambda>dep. map_of targets dep \<noteq> None) (fst (rule_of targets name))"

text \<open>
  \<open>resolve_each\<close> is the loop over the prerequisites of a target (and over all targets, at the top),
  with \<^verbatim>\<open>resolve\<close> as its body: the remembered answer, the empty set for a target that is being
  visited, otherwise what the recipe does itself joined with what the prerequisites do.
\<close>

partial_function (option) resolve_each ::
    "makefile \<Rightarrow> string list \<Rightarrow> string list \<Rightarrow> (string \<times> string set) list \<Rightarrow> string set
      \<Rightarrow> (string set \<times> (string \<times> string set) list) option" where
  "resolve_each targets visiting names cache out = (case names of
      [] \<Rightarrow> Some (out, cache)
    | name # rest \<Rightarrow> do {
        (found, cache) \<leftarrow>
          (case map_of cache name of
             Some known \<Rightarrow> Some (known, cache)
           | None \<Rightarrow>
               if name \<in> set visiting then Some ({}, cache)
               else do {
                 (found, cache) \<leftarrow> resolve_each targets (name # visiting)
                   (prerequisites targets name) cache (direct (snd (rule_of targets name)));
                 Some (found, AList.update name found cache)
               });
        resolve_each targets visiting rest cache (out \<union> found)
      })"

declare resolve_each.simps [code]

definition resolve ::
    "makefile \<Rightarrow> string list \<Rightarrow> string \<Rightarrow> (string \<times> string set) list \<Rightarrow> (string set \<times> (string \<times> string set) list) option" where
  "resolve targets visiting name cache = (case map_of cache name of
     Some known \<Rightarrow> Some (known, cache)
   | None \<Rightarrow>
       if name \<in> set visiting then Some ({}, cache)
       else do {
         (found, cache) \<leftarrow> resolve_each targets (name # visiting)
           (prerequisites targets name) cache (direct (snd (rule_of targets name)));
         Some (found, AList.update name found cache)
       })"

lemma resolve_each_simps:
  "resolve_each targets visiting [] cache out = Some (out, cache)"
  "resolve_each targets visiting (name # rest) cache out = do {
     (found, cache) \<leftarrow> resolve targets visiting name cache;
     resolve_each targets visiting rest cache (out \<union> found) }"
  by (subst resolve_each.simps, simp add: resolve_def)+

definition target_capabilities :: "makefile \<Rightarrow> (string \<times> string set) list option" where
  "target_capabilities targets = map_option snd (resolve_each targets [] (map fst targets) [] {})"

subsection \<open>The prerequisites of a target\<close>

definition needs :: "makefile \<Rightarrow> (string \<times> string) set" where
  "needs targets = {(name, dep). dep \<in> set (fst (rule_of targets name)) \<and> map_of targets dep \<noteq> None}"

text \<open>What \<^verbatim>\<open>make\<close> runs for a target: the recipes of all targets it needs, directly or not.\<close>

definition runs :: "makefile \<Rightarrow> string \<Rightarrow> string set" where
  "runs targets name = (\<Union>dep \<in> (needs targets)\<^sup>* `` {name}. direct (snd (rule_of targets dep)))"

lemma runs_self: "direct (snd (rule_of targets name)) \<subseteq> runs targets name"
  by (auto simp: runs_def)

lemma runs_dep: "(name, dep) \<in> needs targets \<Longrightarrow> runs targets dep \<subseteq> runs targets name"
  by (auto simp: runs_def intro: converse_rtrancl_into_rtrancl)

lemma runs_unfold:
  "runs targets name = direct (snd (rule_of targets name)) \<union> (\<Union>dep \<in> needs targets `` {name}. runs targets dep)"
proof
  show "runs targets name \<subseteq> direct (snd (rule_of targets name)) \<union> (\<Union>dep \<in> needs targets `` {name}. runs targets dep)"
    by (auto simp: runs_def elim: converse_rtranclE)
qed (use runs_self runs_dep in blast)

lemma set_prerequisites: "set (prerequisites targets name) = needs targets `` {name}"
  by (auto simp: prerequisites_def needs_def)

subsection \<open>The search returns\<close>

text \<open>What the search may remember and answer: never more than what runs.\<close>

definition cache_sound :: "makefile \<Rightarrow> (string \<times> string set) list \<Rightarrow> bool" where
  "cache_sound targets cache \<longleftrightarrow> (\<forall>name found. map_of cache name = Some found \<longrightarrow> found \<subseteq> runs targets name)"

definition keeps_cache :: "(string \<times> string set) list \<Rightarrow> (string \<times> string set) list \<Rightarrow> bool" where
  "keeps_cache cache cache' \<longleftrightarrow> (\<forall>name. map_of cache name \<noteq> None \<longrightarrow> map_of cache' name = map_of cache name)"

lemma cache_sound_update:
  "cache_sound targets cache \<Longrightarrow> found \<subseteq> runs targets name \<Longrightarrow> cache_sound targets (AList.update name found cache)"
  by (simp add: cache_sound_def update_conv')

text \<open>The names visited and the names in the list decrease lexicographically: a name that is resolved
  joins the visited ones.\<close>

definition unvisited :: "makefile \<Rightarrow> string list \<Rightarrow> nat" where
  "unvisited targets visiting = card (set (map fst targets) - set visiting)"

lemma unvisited_less:
  assumes "map_of targets name \<noteq> None" "name \<notin> set visiting"
  shows "unvisited targets (name # visiting) < unvisited targets visiting"
proof -
  from assms(1) have "name \<in> set (map fst targets)" by (simp add: map_of_eq_None_iff)
  with assms(2) have "set (map fst targets) - set (name # visiting) \<subset> set (map fst targets) - set visiting" by auto
  then show ?thesis unfolding unvisited_def by (intro psubset_card_mono) simp_all
qed

lemma resolve_each_returns:
  assumes "cache_sound targets cache" "set names \<subseteq> dom (map_of targets)"
  shows "\<exists>found cache'. resolve_each targets visiting names cache out = Some (out \<union> found, cache')
    \<and> found \<subseteq> (\<Union>name \<in> set names. runs targets name) \<and> cache_sound targets cache' \<and> keeps_cache cache cache'
    \<and> (\<forall>name \<in> set names. name \<notin> set visiting \<longrightarrow> map_of cache' name \<noteq> None)"
  using assms
proof (induction "(unvisited targets visiting, length names)" arbitrary: visiting names cache out
    rule: wf_induct_rule [OF wf_lex_prod [OF wf_less_than wf_less_than]])
  case (1 visiting names cache out)
  note IH = "1.hyps" [unfolded in_lex_prod less_than_iff]
  show ?case
  proof (cases names)
    case Nil
    then show ?thesis by (simp add: resolve_each_simps "1.prems" keeps_cache_def exI [of _ "{}"])
  next
    case (Cons name rest)
    have name: "map_of targets name \<noteq> None" using "1.prems"(2) Cons by auto
    have "\<exists>found cache'. resolve targets visiting name cache = Some (found, cache')
      \<and> found \<subseteq> runs targets name \<and> cache_sound targets cache' \<and> keeps_cache cache cache'
      \<and> (name \<notin> set visiting \<longrightarrow> map_of cache' name \<noteq> None)"
    proof (cases "map_of cache name = None \<and> name \<notin> set visiting")
      case True
      have "unvisited targets (name # visiting) < unvisited targets visiting"
        using name True by (simp add: unvisited_less)
      moreover have "set (prerequisites targets name) \<subseteq> dom (map_of targets)"
        by (auto simp: prerequisites_def)
      ultimately obtain found cache' where rec: "resolve_each targets (name # visiting) (prerequisites targets name) cache
          (direct (snd (rule_of targets name))) = Some (direct (snd (rule_of targets name)) \<union> found, cache')"
        "found \<subseteq> (\<Union>dep \<in> set (prerequisites targets name). runs targets dep)"
        "cache_sound targets cache'" "keeps_cache cache cache'"
        using IH [of "name # visiting" "prerequisites targets name" cache] "1.prems"(1) by blast
      have "direct (snd (rule_of targets name)) \<union> found \<subseteq> runs targets name"
        using rec(2) unfolding set_prerequisites by (subst runs_unfold) blast
      with rec True show ?thesis by (auto simp: resolve_def keeps_cache_def update_conv' intro!: cache_sound_update)
    next
      case False
      with "1.prems"(1) show ?thesis by (cases "map_of cache name") (auto simp: resolve_def cache_sound_def keeps_cache_def)
    qed
    then obtain found cache' where step: "resolve targets visiting name cache = Some (found, cache')" "found \<subseteq> runs targets name"
      "cache_sound targets cache'" "keeps_cache cache cache'" "name \<notin> set visiting \<longrightarrow> map_of cache' name \<noteq> None" by blast
    have "set rest \<subseteq> dom (map_of targets)" using "1.prems"(2) Cons by simp
    with IH [of visiting rest cache' "out \<union> found"] Cons step(3) obtain more cache'' where
      rest: "resolve_each targets visiting rest cache' (out \<union> found) = Some (out \<union> found \<union> more, cache'')"
        "more \<subseteq> (\<Union>name \<in> set rest. runs targets name)" "cache_sound targets cache''" "keeps_cache cache' cache''"
        "\<forall>name \<in> set rest. name \<notin> set visiting \<longrightarrow> map_of cache'' name \<noteq> None" by auto
    have "resolve_each targets visiting names cache out = Some (out \<union> (found \<union> more), cache'')"
      using step(1) rest(1) by (simp add: resolve_each_simps Cons Un_assoc)
    moreover have "keeps_cache cache cache''" using step(4) rest(4) by (simp add: keeps_cache_def)
    moreover have "name \<notin> set visiting \<longrightarrow> map_of cache'' name \<noteq> None"
      using step(5) rest(4) by (auto simp: keeps_cache_def)
    ultimately show ?thesis using step(2) rest Cons by (intro exI [of _ "found \<union> more"] exI [of _ cache'']) auto
  qed
qed

lemma target_capabilities_returns:
  "\<exists>caps. target_capabilities targets = Some caps \<and> cache_sound targets caps
    \<and> (\<forall>name \<in> set (map fst targets). map_of caps name \<noteq> None)"
proof -
  have "cache_sound targets []" by (simp add: cache_sound_def)
  moreover have "set (map fst targets) \<subseteq> dom (map_of targets)" by (simp add: dom_map_of_conv_image_fst)
  ultimately show ?thesis
    using resolve_each_returns [of targets "[]" "map fst targets" "[]" "{}"] by (auto simp: target_capabilities_def)
qed

text \<open>C29: for every Makefile, cycles of prerequisites included, the resolution of the capabilities
  returns, has an answer for every target, and never claims a capability that making the target would
  not run.\<close>

theorem capabilities_return:
  "case target_capabilities targets of
     None \<Rightarrow> False
   | Some caps \<Rightarrow> list_all (\<lambda>name. case map_of caps name of None \<Rightarrow> False | Some found \<Rightarrow> found \<subseteq> runs targets name)
       (map fst targets)"
proof -
  obtain caps where "target_capabilities targets = Some caps" "cache_sound targets caps"
    "\<forall>name \<in> set (map fst targets). map_of caps name \<noteq> None" using target_capabilities_returns by blast
  then show ?thesis unfolding list_all_iff cache_sound_def by (simp split: option.split)
qed

subsection \<open>Without cycles the search is exact\<close>

definition cache_exact :: "makefile \<Rightarrow> (string \<times> string set) list \<Rightarrow> bool" where
  "cache_exact targets cache \<longleftrightarrow> (\<forall>name found. map_of cache name = Some found \<longrightarrow> found = runs targets name)"

lemma resolve_each_exact:
  assumes "acyclic (needs targets)" "cache_exact targets cache" "set names \<subseteq> dom (map_of targets)"
    and "\<And>name v. name \<in> set names \<Longrightarrow> v \<in> set visiting \<Longrightarrow> (v, name) \<in> (needs targets)\<^sup>+"
  shows "\<exists>cache'. resolve_each targets visiting names cache out
      = Some (out \<union> (\<Union>name \<in> set names. runs targets name), cache') \<and> cache_exact targets cache'"
  using assms(2-)
proof (induction "(unvisited targets visiting, length names)" arbitrary: visiting names cache out
    rule: wf_induct_rule [OF wf_lex_prod [OF wf_less_than wf_less_than]])
  case (1 visiting names cache out)
  note IH = "1.hyps" [unfolded in_lex_prod less_than_iff]
  show ?case
  proof (cases names)
    case Nil
    then show ?thesis by (simp add: resolve_each_simps "1.prems")
  next
    case (Cons name rest)
    have name: "map_of targets name \<noteq> None" using "1.prems"(2) Cons by auto
    have new: "name \<notin> set visiting"
      using "1.prems"(3) [of name name] assms(1) Cons by (auto simp: acyclic_def)
    have "\<exists>cache'. resolve targets visiting name cache = Some (runs targets name, cache')
      \<and> cache_exact targets cache'"
    proof (cases "map_of cache name")
      case None
      have "unvisited targets (name # visiting) < unvisited targets visiting"
        using name new by (simp add: unvisited_less)
      moreover have "set (prerequisites targets name) \<subseteq> dom (map_of targets)"
        by (auto simp: prerequisites_def)
      moreover have "(v, dep) \<in> (needs targets)\<^sup>+" if "dep \<in> set (prerequisites targets name)" "v \<in> set (name # visiting)" for v dep
        using that "1.prems"(3) [of name v] Cons unfolding set_prerequisites by (auto intro: trancl_into_trancl)
      ultimately have "\<exists>cache'. resolve_each targets (name # visiting) (prerequisites targets name) cache
          (direct (snd (rule_of targets name))) = Some (direct (snd (rule_of targets name)) \<union>
            (\<Union>dep \<in> set (prerequisites targets name). runs targets dep), cache') \<and> cache_exact targets cache'"
        using "1.prems"(1) by (intro IH) auto
      then obtain cache' where "resolve_each targets (name # visiting) (prerequisites targets name) cache
          (direct (snd (rule_of targets name))) = Some (runs targets name, cache')" "cache_exact targets cache'"
        unfolding set_prerequisites runs_unfold [of targets name, symmetric] by blast
      with None new show ?thesis by (auto simp: resolve_def cache_exact_def update_conv')
    next
      case (Some known)
      with "1.prems"(1) show ?thesis by (auto simp: resolve_def cache_exact_def)
    qed
    then obtain cache' where step: "resolve targets visiting name cache = Some (runs targets name, cache')" "cache_exact targets cache'" by blast
    have "set rest \<subseteq> dom (map_of targets)" using "1.prems"(2) Cons by simp
    with IH [of visiting rest cache' "out \<union> runs targets name"] Cons step(2) "1.prems"(3) obtain cache'' where
      rest: "resolve_each targets visiting rest cache' (out \<union> runs targets name)
        = Some (out \<union> runs targets name \<union> (\<Union>name \<in> set rest. runs targets name), cache'')" "cache_exact targets cache''" by auto
    have "resolve_each targets visiting names cache out
        = Some (out \<union> (\<Union>name \<in> set names. runs targets name), cache'')"
      using step(1) rest(1) by (simp add: resolve_each_simps Cons Un_assoc)
    with rest(2) show ?thesis by blast
  qed
qed

text \<open>C30: on a Makefile whose prerequisites have no cycle, the memoised search agrees with the reference:
  each target has exactly the capabilities of the recipes that making it runs.\<close>

theorem capabilities_exact:
  assumes "acyclic (needs targets)"
  shows "case target_capabilities targets of
     None \<Rightarrow> False
   | Some caps \<Rightarrow> list_all (\<lambda>name. map_of caps name = Some (runs targets name)) (map fst targets)"
proof -
  have "cache_exact targets []" by (simp add: cache_exact_def)
  moreover have "set (map fst targets) \<subseteq> dom (map_of targets)" by (simp add: dom_map_of_conv_image_fst)
  ultimately obtain caps where "resolve_each targets [] (map fst targets) [] {}
      = Some ({} \<union> (\<Union>name \<in> set (map fst targets). runs targets name), caps)" "cache_exact targets caps"
    using resolve_each_exact [OF assms, of "[]" "map fst targets" "[]" "{}"] by auto
  moreover from this(1) have caps: "target_capabilities targets = Some caps" by (simp add: target_capabilities_def)
  moreover have "\<forall>name \<in> set (map fst targets). map_of caps name \<noteq> None"
    using target_capabilities_returns [of targets] caps by auto
  ultimately show ?thesis unfolding list_all_iff cache_exact_def by (auto split: option.split)
qed

definition small_makefile :: makefile where
  "small_makefile = [(''check'', ([''docs''], [])), (''docs'', ([], [''python3 scripts/validate_docs.py'']))]"

lemma capabilities_exact_witness:
  "map_option (\<lambda>caps. map_of caps ''check'') (target_capabilities small_makefile) = Some (Some (runs small_makefile ''check''))"
proof -
  have "needs small_makefile \<subseteq> {(''check'', ''docs'')}"
    by (auto simp: needs_def rule_of_def small_makefile_def split: if_splits)
  then have "acyclic (needs small_makefile)"
    by (rule acyclic_subset [rotated]) (simp add: acyclic_def trancl_insert)
  from capabilities_exact [OF this] show ?thesis by (auto simp: small_makefile_def split: option.splits)
qed

text \<open>On a cycle the answer depends on the order of the targets: \<^verbatim>\<open>b\<close> needs \<^verbatim>\<open>a\<close>, whose recipe runs
  the linter, but is remembered as running nothing, because it was resolved while \<^verbatim>\<open>a\<close> was being
  visited. \<^verbatim>\<open>make b\<close> drops the circular prerequisite and does run it.\<close>

theorem cycle_loses_capability:
  "target_capabilities [(''a'', ([''b''], [''validate_docs.py''])), (''b'', ([''a''], []))]
     = Some [(''b'', {}), (''a'', {''docs_prose''})]"
  "target_capabilities [(''b'', ([''a''], [])), (''a'', ([''b''], [''validate_docs.py'']))]
     = Some [(''a'', {''docs_prose''}), (''b'', {''docs_prose''})]"
  by code_simp+

end
