(* ===== verification/DocCheck.thy ===== *)
theory DocCheck
  imports MakeRules "HOL-Library.List_Lexorder" "HOL-Library.Product_Lexorder" "HOL-Library.Char_ord"
begin

section \<open>The documentation linter\<close>

text \<open>
  \<^verbatim>\<open>scripts/validate_docs.py\<close>, apart from its reading of the Makefile (theory \<open>MakeRules\<close>): the scans
  for forbidden phrases, history headings, shared blocks, dead pointers and wrong claims about
  \<^verbatim>\<open>make\<close> targets, and their composition. The repository is a list of files, each with the parts of
  its relative path and its text; whether a relative target resolves to a file is a parameter. A text holds
  code points below 256, so the two patterns for the em dash and the arrows never match in it.
\<close>

type_synonym source_file = "string list \<times> string"

definition rel :: "source_file \<Rightarrow> string" where
  "rel file = join_str ''/'' (fst file)"

definition EXCLUDED_DIRS :: "string list" where
  "EXCLUDED_DIRS = [''.git'', ''.venv'', ''venv'', ''node_modules'', ''.claude'', ''.mypy_cache'', ''.ruff_cache'']"

text \<open>A literal without regard to case.\<close>

fun RLitI :: "string \<Rightarrow> rx" where
  "RLitI [] = REmpty"
| "RLitI (c # cs) = RSeq (RChar (\<lambda>d. lower_char d = lower_char c)) (RLitI cs)"

definition not_in_range :: rx where "not_in_range = RChar (\<lambda>_. False)"

definition FORBIDDEN :: "(rx \<times> string) list" where
  "FORBIDDEN = (let rest = '' framing (describe what changed, not how it was bundled)''; q = [CHR 0x27] in
    [(not_in_range, ''em-dash (use '' @ q @ ''-'' @ q @ '', '' @ q @ '':'' @ q @ '', or '' @ q @ '';'' @ q @ '')''),
     (not_in_range, ''unicode arrow (use '' @ q @ ''>'' @ q @ '', '' @ q @ ''->'' @ q @ '', or words)''),
     (RCat [RWordEdge, RLit ''cluster '', RChar is_letter, RWordEdge], q @ ''cluster X'' @ q @ rest),
     (RCat [RWordEdge, RLitI ''bundle '', digits, RWordEdge], q @ ''bundle N'' @ q @ rest),
     (RCat [RWordEdge, RLit ''track '', RChar is_letter, RWordEdge], q @ ''track X'' @ q @ rest),
     (RCat [RWordEdge, RLitI ''session '', digits, RWordEdge], q @ ''session N'' @ q @ rest)])"

definition HISTORY_H2_VALID :: rx where
  "HISTORY_H2_VALID = RCat [RTextBegin, RLit ''## '', RTimes 4 (RChar is_digit), RLit ''-'',
     RTimes 2 (RChar is_digit), RLit ''-'', RTimes 2 (RChar is_digit), RStar (RChar is_space), RTextEnd]"

definition CANONICAL_FILE :: string where "CANONICAL_FILE = ''AGENTS.md''"
definition SHARED_ANCHORS :: "string list" where "SHARED_ANCHORS = [''shared:stack'', ''shared:commands'']"
definition AGENT_FILES :: "string list" where
  "AGENT_FILES = [''CLAUDE.md'', ''AGENTS.md'', ''.github/copilot-instructions.md'']"

definition MD_LINK :: rx where
  "MD_LINK = RCat [RLit ''['', RStar (RChar (\<lambda>c. c \<noteq> CHR '']'')), RLit ''](''
     , RGroup 1 (RPlus (RChar (\<lambda>c. c \<noteq> CHR '')''))), RLit '')'']"

definition target_name :: rx where
  "target_name = RSeq (RChar is_letter) (RStar (RChar (\<lambda>c. is_letter c \<or> is_digit c \<or> c = CHR ''-'')))"

definition MAKE_TARGET_REF :: rx where
  "MAKE_TARGET_REF = RAlt
     (RCat [RLit ''`'', RLitI ''make'', RPlus (RChar is_space), RGroup 1 target_name, RLit ''`''])
     (RCat [RTextBegin, RStar (RChar is_space), RLitI ''make'', RPlus (RChar is_space), RGroup 2 target_name,
        RAlt (RChar is_space) RTextEnd])"

subsection \<open>Shared blocks\<close>

definition significant_lines :: "string \<Rightarrow> string list" where
  "significant_lines text = filter (\<lambda>s. s \<noteq> []) (map strip (splitlines text))"

definition marker :: "string \<Rightarrow> rx" where
  "marker anchor = RCat [RLit ''<!--'', RStar (RChar is_space), RLit anchor, RStar (RChar is_space), RLit ''-->'']"

definition anchor_block :: "string \<Rightarrow> rx" where
  "anchor_block anchor = RSeq (marker anchor) (RSeq (RGroup 1 (RLazy (RChar (\<lambda>_. True)))) (marker (''/'' @ anchor)))"

definition extract_anchor_block :: "string \<Rightarrow> string \<Rightarrow> string option" where
  "extract_anchor_block text anchor = (case re_search (anchor_block anchor) text of
     None \<Rightarrow> None | Some (u, m, v, gs) \<Rightarrow> rx_group gs 1)"

definition contains_subsequence :: "string list \<Rightarrow> string list \<Rightarrow> bool" where
  "contains_subsequence haystack needle \<longleftrightarrow>
     \<not> (needle = [] \<or> length needle > length haystack) \<and>
     list_ex (\<lambda>i. haystack ! i = hd needle \<and> take (length needle) (drop i haystack) = needle)
       [0..<length haystack - length needle + 1]"

definition anchored :: "source_file list \<Rightarrow> string \<Rightarrow> source_file list" where
  "anchored files anchor = filter (\<lambda>file. re_found (marker anchor) (snd file)) files"

definition scan_anchor :: "source_file list \<Rightarrow> string \<Rightarrow> string list" where
  "scan_anchor files anchor = (let found = anchored files anchor; rels = sort (map rel found);
       block = ''shared block '' @ [CHR 0x27] @ anchor @ [CHR 0x27] in
     if found = [] then [block @ '' has no anchor; expected it in '' @ CANONICAL_FILE]
     else
       (if rels \<noteq> [CANONICAL_FILE]
        then [block @ '' must be anchored only in '' @ CANONICAL_FILE @ '', found in: '' @ join_str '', '' rels] else []) @
       (case find (\<lambda>file. rel file = CANONICAL_FILE) found of
          None \<Rightarrow> []
        | Some canonical \<Rightarrow>
            (case extract_anchor_block (snd canonical) anchor of
               None \<Rightarrow> [block @ '' in '' @ CANONICAL_FILE @ '' is missing its closing anchor'']
             | Some inner \<Rightarrow>
                 map (\<lambda>file. rel file @ '': duplicates the '' @ [CHR 0x27] @ anchor @ [CHR 0x27]
                         @ '' block that is canonical in '' @ CANONICAL_FILE @ ''; link to '' @ CANONICAL_FILE @ '' instead'')
                   (filter (\<lambda>file. fst file \<noteq> fst canonical \<and>
                      contains_subsequence (significant_lines (snd file)) (significant_lines inner)) files))))"

definition scan_shared_blocks :: "source_file list \<Rightarrow> string list" where
  "scan_shared_blocks files = concat (map (scan_anchor files) SHARED_ANCHORS)"

subsection \<open>Pointers\<close>

text \<open>\<^verbatim>\<open>lst[0]\<close>, and \<^verbatim>\<open>enumerate(..., start=1)\<close>.\<close>

definition first_of :: "'a list \<Rightarrow> exn + 'a" where
  "first_of xs = (case xs of [] \<Rightarrow> Inl IndexError | x # _ \<Rightarrow> Inr x)"

definition numbered :: "'a list \<Rightarrow> (nat \<times> 'a) list" where
  "numbered xs = zip [1..<length xs + 1] xs"

fun endswith :: "string \<Rightarrow> string \<Rightarrow> bool" where
  "endswith s t \<longleftrightarrow> startswith (rev s) (rev t)"

text \<open>\<open>None\<close> for a link that is not followed.\<close>

definition pointer_target :: "(nat \<times> string) list \<Rightarrow> exn + string option" where
  "pointer_target gs = bindE (first_of (split_words (case rx_group gs 1 of None \<Rightarrow> [] | Some x \<Rightarrow> x))) (\<lambda>word.
     let target = fst (partition_char CHR ''#'' word) in
     Inr (if target = [] \<or> contains target ''://'' \<or> startswith target ''mailto:'' then None
          else if \<not> endswith target ''.md'' then None else Some target))"

definition scan_pointers :: "(string \<Rightarrow> string \<Rightarrow> bool) \<Rightarrow> source_file list \<Rightarrow> exn + string list" where
  "scan_pointers resolves files =
     bindE (mapE (\<lambda>name. case find (\<lambda>file. rel file = name) files of
         None \<Rightarrow> Inr []
       | Some file \<Rightarrow>
           bindE (mapE (\<lambda>(line_no, line). bindE (mapE (\<lambda>(i, gs). pointer_target gs) (finditer MD_LINK None 0 line)) (\<lambda>targets.
               Inr (map (\<lambda>t. name @ '':'' @ nat_str line_no @ '': pointer to '' @ [CHR 0x27] @ t @ [CHR 0x27] @ '' does not resolve'')
                 (filter (\<lambda>t. \<not> resolves name t) (List.map_filter id targets)))))
             (numbered (splitlines (snd file)))) (\<lambda>found. Inr (concat found))) AGENT_FILES)
       (\<lambda>found. Inr (concat found))"

subsection \<open>Claims about make targets\<close>

text \<open>Whether a line says what a capability is called; the alternatives are those of the code.\<close>

definition any_of :: "rx list \<Rightarrow> string \<Rightarrow> bool" where
  "any_of rs s \<longleftrightarrow> list_ex (\<lambda>r. re_found r s) rs"

definition blanks :: rx where "blanks = RStar (RChar is_space)"

definition capability_patterns :: "(string \<times> rx list \<times> string) list" where
  "capability_patterns =
    [(''translation_drift'', [RLitI ''translation drift'', RLitI ''translation parity'', RLitI ''check_translations'',
        RCat [RLitI ''strings.json'', blanks, RLit ''/'', blanks, RLitI ''translations/en.json'']], ''translation drift check''),
     (''docs_prose'', [RLitI ''docs prose'', RLitI ''prose linter'', RLitI ''validate_docs''], ''docs prose check''),
     (''hacs_preflight'', [RLitI ''hacs preflight'', RLitI ''validate_hacs''], ''HACS preflight'')]"

definition capabilities_of :: "(string \<times> string set) list \<Rightarrow> string \<Rightarrow> string set" where
  "capabilities_of capabilities target = (case map_of capabilities target of None \<Rightarrow> {} | Some c \<Rightarrow> c)"

text \<open>The segments of a line: from each reference to the start of the next one.\<close>

fun segments :: "string \<Rightarrow> (nat \<times> (nat \<times> string) list) list \<Rightarrow> (string \<times> string) list" where
  "segments line [] = []"
| "segments line ((start, gs) # matches) =
     (let target = lower (case (rx_group gs 1, rx_group gs 2) of (Some t, _) \<Rightarrow> t | (None, Some t) \<Rightarrow> t | _ \<Rightarrow> []);
          segment_end = (case matches of [] \<Rightarrow> length line | (i, _) # _ \<Rightarrow> i)
      in (target, drop start (take segment_end line)) # segments line matches)"

definition false_claims :: "(string \<times> string set) list \<Rightarrow> string \<Rightarrow> string \<Rightarrow> (string \<times> string) list" where
  "false_claims capabilities target segment = [(target, label).
     (key, patterns, label) \<leftarrow> capability_patterns, any_of patterns segment, key \<notin> capabilities_of capabilities target]"

definition claim_violations :: "(string \<times> string set) list \<Rightarrow> source_file \<Rightarrow> string list" where
  "claim_violations capabilities file =
     (if rel file \<in> {''CHANGELOG.md'', ''docs/HISTORY.md''} then []
      else [rel file @ '':'' @ nat_str line_no @ '': claims `make '' @ t @ ''` includes '' @ label @ '', but Makefile wiring does not''.
        (line_no, line) \<leftarrow> numbered (splitlines (snd file)),
        (target, segment) \<leftarrow> segments line (finditer MAKE_TARGET_REF None 0 line),
        (t, label) \<leftarrow> false_claims capabilities target segment])"

text \<open>\<open>None\<close> stands for a Makefile that does not exist. The path in that message is absolute, and a
  parameter.\<close>

definition scan_make_claims :: "string \<Rightarrow> string option \<Rightarrow> source_file list \<Rightarrow> string list option" where
  "scan_make_claims makefile_path makefile files = (case makefile of
     None \<Rightarrow> Some [''Makefile not found at expected path: '' @ makefile_path]
   | Some text \<Rightarrow> map_option (\<lambda>capabilities. concat (map (claim_violations capabilities) files))
       (target_capabilities (parse_makefile_targets text)))"

subsection \<open>The whole run\<close>

definition collect_files :: "source_file list \<Rightarrow> source_file list" where
  "collect_files tree = sort_key fst (filter (\<lambda>file. list_all (\<lambda>part. part \<notin> set EXCLUDED_DIRS) (butlast (fst file))) tree)"

definition scan_forbidden :: "source_file \<Rightarrow> (nat \<times> nat \<times> string) list" where
  "scan_forbidden file = [(line_no, start + 1, msg).
     (line_no, line) \<leftarrow> numbered (splitlines (snd file)), (pat, msg) \<leftarrow> FORBIDDEN, (start, gs) \<leftarrow> finditer pat None 0 line]"

definition scan_history_format :: "source_file \<Rightarrow> (nat \<times> nat \<times> string) list" where
  "scan_history_format file = [(line_no, 1, ''HISTORY.md h2 headings must be '' @ [CHR 0x27] @ ''## YYYY-MM-DD'' @ [CHR 0x27]).
     (line_no, line) \<leftarrow> numbered (splitlines (snd file)), startswith line ''## '' \<and> re_match HISTORY_H2_VALID line = None]"

definition file_violations :: "source_file \<Rightarrow> (nat \<times> nat \<times> string) list" where
  "file_violations file = sort (scan_forbidden file @ (if last (fst file) = ''HISTORY.md'' then scan_history_format file else []))"

text \<open>The exit code; the outer option is \<open>None\<close> if the resolution of the Makefile did not return.\<close>

definition docs_main ::
    "(string \<Rightarrow> string \<Rightarrow> bool) \<Rightarrow> string \<Rightarrow> string option \<Rightarrow> source_file list \<Rightarrow> (exn + nat) option" where
  "docs_main resolves makefile_path makefile tree = (let files = collect_files tree in
     map_option (\<lambda>claims.
       bindE (scan_pointers resolves files) (\<lambda>dead.
       Inr (if list_all (\<lambda>file. file_violations file = []) files \<and> scan_shared_blocks files = [] \<and> dead = [] \<and> claims = []
            then 0 else 1)))
     (scan_make_claims makefile_path makefile files))"

subsection \<open>Properties\<close>

lemma contains_subsequence_iff: "contains_subsequence haystack needle \<longleftrightarrow> needle \<noteq> [] \<and> sublist needle haystack"
proof
  assume "contains_subsequence haystack needle"
  then obtain i where "needle \<noteq> []" "take (length needle) (drop i haystack) = needle"
    unfolding contains_subsequence_def list_ex_iff by blast
  then show "needle \<noteq> [] \<and> sublist needle haystack"
    by (metis append_take_drop_id sublist_appendI)
next
  assume *: "needle \<noteq> [] \<and> sublist needle haystack"
  then obtain u v where h: "haystack = u @ needle @ v" by (auto simp: sublist_def)
  have "list_ex (\<lambda>i. haystack ! i = hd needle \<and> take (length needle) (drop i haystack) = needle)
       [0..<length haystack - length needle + 1]"
    unfolding list_ex_iff using * by (intro bexI [of _ "length u"]) (auto simp: h nth_append hd_conv_nth)
  with * h show "contains_subsequence haystack needle" by (simp add: contains_subsequence_def)
qed

lemma sort_singleton: "sort xs = [x] \<longleftrightarrow> xs = [x]"
proof
  assume *: "sort xs = [x]"
  then have "length xs = 1" by (metis length_sort length_Cons list.size(3) One_nat_def)
  then obtain y where "xs = [y]" by (auto simp: length_Suc_conv)
  with * show "xs = [x]" by simp
qed simp

definition single_sourced :: "source_file list \<Rightarrow> string \<Rightarrow> bool" where
  "single_sourced files anchor \<longleftrightarrow> (\<exists>file inner. anchored files anchor = [file] \<and> rel file = CANONICAL_FILE \<and>
     extract_anchor_block (snd file) anchor = Some inner \<and>
     list_all (\<lambda>other. \<not> (significant_lines inner \<noteq> [] \<and> sublist (significant_lines inner) (significant_lines (snd other))))
       (filter (\<lambda>other. fst other \<noteq> fst file) files))"

lemma scan_anchor_clean: "scan_anchor files anchor = [] \<longleftrightarrow> single_sourced files anchor"
proof (cases "map rel (anchored files anchor) = [CANONICAL_FILE]")
  case True
  then obtain f where "anchored files anchor = [f]" "rel f = CANONICAL_FILE" by auto
  then show ?thesis
    by (auto simp: scan_anchor_def single_sourced_def Let_def filter_empty_conv list_all_iff contains_subsequence_iff
        split: option.split)
next
  case False
  then have "\<not> single_sourced files anchor" by (auto simp: single_sourced_def)
  with False show ?thesis by (auto simp: scan_anchor_def Let_def sort_singleton)
qed

text \<open>The scan for shared blocks finds nothing exactly when every shared block is single-sourced: its
  anchor stands in one file, the canonical one, is closed there, and the block's significant lines are a
  contiguous run of the significant lines of no other file.\<close>

theorem shared_blocks_clean:
  "scan_shared_blocks files = [] \<longleftrightarrow> list_all (single_sourced files) SHARED_ANCHORS"
  by (auto simp: scan_shared_blocks_def scan_anchor_clean list_all_iff)

text \<open>A link whose target is blank crashes the linter instead of being skipped.\<close>

theorem blank_link_crashes:
  "scan_pointers resolves [([''AGENTS.md''], ''see [x]( )'')] = Inl IndexError"
  by code_simp

end
