(* ===== verification/EvalHarness.thy ===== *)
theory EvalHarness
  imports PyRegex "HOL-Library.List_Lexorder" "HOL-Library.Char_ord"
begin

section \<open>The evaluation harness\<close>

text \<open>
  \<^verbatim>\<open>scripts/run_agentrc_eval.py\<close> and \<^verbatim>\<open>scripts/run_agentrc_eval_cross_model.py\<close>: asking a model for
  a plan and for its verdicts on the plan, the parsing of the verdicts, the files and tables made of
  the results, and the comparison of several models.

  A client is a function from the prompts it has been sent so far and the new pair of prompts to what
  \<^verbatim>\<open>complete\<close> does: return a text, raise one of the request errors the harness catches (with its
  text), or raise something else. The two clients of the harness are built from a parameter, the service that
  answers their requests. \<open>loads\<close> is \<^verbatim>\<open>json.loads\<close>, a parameter. Written files are a log, newest
  first; progress messages are left out.
\<close>

type_synonym prompt = "string \<times> string"

datatype completion = Answer string | RequestError string | Raises exn

type_synonym model_client = "prompt list \<Rightarrow> prompt \<Rightarrow> completion"

definition PLAN_SYSTEM_PROMPT :: string where
  "PLAN_SYSTEM_PROMPT = ''You are a senior engineer scoping a change to the repository described below before any code is written. Produce an IMPLEMENTATION PLAN ONLY: prose and/or a bulleted list of the files you would touch and what changes each needs, and which tests you would add or update. Do not write code, diffs, or shell commands. Be specific about file and symbol names where you know them from the context given.''"

definition JUDGE_SYSTEM_PROMPT :: string where
  "JUDGE_SYSTEM_PROMPT = ''You are grading an implementation plan against a fixed checklist. For each checklist item, decide whether the plan satisfies it: true if the plan clearly addresses that point, false otherwise. Do not be lenient - a vague or missing mention is false. Respond with ONLY a JSON array, one object per checklist item, in the same order as given, each shaped exactly like: {'' @ [CHR 0x22] @ ''pass'' @ [CHR 0x22] @ '': true, '' @ [CHR 0x22] @ ''reason'' @ [CHR 0x22] @ '': '' @ [CHR 0x22] @ ''one short sentence'' @ [CHR 0x22] @ ''}. No prose outside the JSON.''"

definition DEFAULT_PROVIDER :: string where "DEFAULT_PROVIDER = ''anthropic''"
definition DEFAULT_MODEL :: string where "DEFAULT_MODEL = ''claude-haiku-4-5-20251001''"
definition DEFAULT_ANTHROPIC_BASE_URL :: string where "DEFAULT_ANTHROPIC_BASE_URL = ''https://api.anthropic.com''"
definition ANTHROPIC_API_VERSION :: string where "ANTHROPIC_API_VERSION = ''2023-06-01''"
definition ANTHROPIC_MAX_TOKENS :: int where "ANTHROPIC_MAX_TOKENS = 4096"
definition EVAL_FILE :: string where "EVAL_FILE = ''agentrc.eval.json''"
definition DEFAULT_MODELS_CONFIG :: string where "DEFAULT_MODELS_CONFIG = ''scripts/agentrc_eval_models.json''"

record case_result =
  cr_case_id :: string
  cr_plan_text :: string
  cr_verdicts :: "pyval list"
  cr_error :: "string option"

subsection \<open>Answers of the providers\<close>

definition py_key :: "string \<Rightarrow> pyval \<Rightarrow> exn + pyval" where
  "py_key k v = (case v of PDict d \<Rightarrow> (case map_of d k of Some x \<Rightarrow> Inr x | None \<Rightarrow> Inl KeyError) | _ \<Rightarrow> Inl TypeError)"

text \<open>\<^verbatim>\<open>v[0]\<close> of a JSON value.\<close>

definition py_first_of :: "pyval \<Rightarrow> exn + pyval" where
  "py_first_of v = (case v of
      PList [] \<Rightarrow> Inl IndexError | PList (x # xs) \<Rightarrow> Inr x
    | PStr [] \<Rightarrow> Inl IndexError | PStr (c # cs) \<Rightarrow> Inr (PStr [c])
    | PDict d \<Rightarrow> Inl KeyError | _ \<Rightarrow> Inl TypeError)"

definition openai_text :: "pyval \<Rightarrow> exn + string" where
  "openai_text payload =
     bindE (py_key ''choices'' payload) (\<lambda>choices.
     bindE (py_first_of choices) (\<lambda>choice.
     bindE (py_key ''message'' choice) (\<lambda>message.
     bindE (py_key ''content'' message) (\<lambda>content. Inr (py_str content)))))"

text \<open>\<^verbatim>\<open>"".join(...)\<close> reads all blocks before it looks at what they hold.\<close>

definition anthropic_text :: "pyval \<Rightarrow> exn + string" where
  "anthropic_text payload =
     bindE (py_get payload ''content'' (PList [])) (\<lambda>content.
     bindE (py_iter content) (\<lambda>blocks.
     bindE (mapE (\<lambda>block. py_get block ''text'' (PStr [])) blocks) (\<lambda>texts.
     bindE (mapE (\<lambda>t. case t of PStr s \<Rightarrow> Inr s | _ \<Rightarrow> Inl TypeError) texts) (\<lambda>strings. Inr (concat strings)))))"

subsection \<open>The clients\<close>

text \<open>A request as it is handed to \<^verbatim>\<open>urllib\<close>, with the JSON value its body encodes. \<open>send\<close> is the service: it
  may depend on the requests before.\<close>

record api_request =
  ar_url :: string
  ar_headers :: "(string \<times> string) list"
  ar_body :: pyval

datatype response = Payload pyval | Refused string | Broken exn

type_synonym service = "prompt list \<Rightarrow> api_request \<Rightarrow> response"

definition chat_message :: "string \<Rightarrow> string \<Rightarrow> pyval" where
  "chat_message role content = PDict [(''role'', PStr role), (''content'', PStr content)]"

definition openai_request :: "string \<Rightarrow> string \<Rightarrow> string \<Rightarrow> prompt \<Rightarrow> api_request" where
  "openai_request base_url model token prompt = (case prompt of (system_prompt, user_prompt) \<Rightarrow>
     \<lparr> ar_url = rstrip_char CHR ''/'' base_url @ ''/chat/completions'',
       ar_headers = [(''Content-Type'', ''application/json''), (''Authorization'', ''Bearer '' @ token)],
       ar_body = PDict [(''model'', PStr model), (''temperature'', PInt 0),
         (''messages'', PList [chat_message ''system'' system_prompt, chat_message ''user'' user_prompt])] \<rparr>)"

definition anthropic_request :: "string \<Rightarrow> string \<Rightarrow> string \<Rightarrow> prompt \<Rightarrow> api_request" where
  "anthropic_request base_url model token prompt = (case prompt of (system_prompt, user_prompt) \<Rightarrow>
     \<lparr> ar_url = rstrip_char CHR ''/'' base_url @ ''/v1/messages'',
       ar_headers = [(''Content-Type'', ''application/json''), (''x-api-key'', token), (''anthropic-version'', ANTHROPIC_API_VERSION)],
       ar_body = PDict [(''model'', PStr model), (''max_tokens'', PInt ANTHROPIC_MAX_TOKENS), (''temperature'', PInt 0),
         (''system'', PStr system_prompt), (''messages'', PList [chat_message ''user'' user_prompt])] \<rparr>)"

definition completion_of :: "(pyval \<Rightarrow> exn + string) \<Rightarrow> response \<Rightarrow> completion" where
  "completion_of text_of r = (case r of
      Refused msg \<Rightarrow> RequestError msg
    | Broken e \<Rightarrow> Raises e
    | Payload p \<Rightarrow> (case text_of p of Inl e \<Rightarrow> Raises e | Inr t \<Rightarrow> Answer t))"

definition openai_client :: "service \<Rightarrow> string \<Rightarrow> string \<Rightarrow> string \<Rightarrow> model_client" where
  "openai_client send base_url model token sent prompt =
     completion_of openai_text (send sent (openai_request base_url model token prompt))"

definition anthropic_client :: "service \<Rightarrow> string \<Rightarrow> string \<Rightarrow> string \<Rightarrow> model_client" where
  "anthropic_client send base_url model token sent prompt =
     completion_of anthropic_text (send sent (anthropic_request base_url model token prompt))"

subsection \<open>The verdicts\<close>

text \<open>\<^verbatim>\<open>re.sub(pattern, "", text)\<close> for a pattern that does not match the empty text.\<close>

function remove_matches :: "rx \<Rightarrow> char option \<Rightarrow> string \<Rightarrow> string" where
  "remove_matches r p s = (case search_from r p [] s of
      None \<Rightarrow> s
    | Some (u, m, v, gs) \<Rightarrow> if m = [] then s
        else u @ remove_matches r (Some (last m)) (drop (length u + length m) s))"
  by auto

termination
proof (relation "measure (\<lambda>(r, p, s). length s)", goal_cases)
  case (2 r p s)
  then show ?case using search_from_Nil by (cases s) fastforce+
qed simp

declare remove_matches.simps [simp del]

definition FENCE :: rx where
  "FENCE = RAlt (RCat [RTextBegin, RLit ''```'', ROpt (RLit ''json''), RStar (RChar is_space)])
     (RCat [RStar (RChar is_space), RLit ''```'', RTextEnd])"

definition ARRAY :: rx where
  "ARRAY = RCat [RLit ''['', RStar (RChar (\<lambda>_. True)), RLit '']'']"

definition extract_json_array :: "(string \<Rightarrow> exn + pyval) \<Rightarrow> string \<Rightarrow> exn + pyval list option" where
  "extract_json_array loads text =
     (case re_search ARRAY (remove_matches FENCE None (strip text)) of
        None \<Rightarrow> Inr None
      | Some (u, m, v, gs) \<Rightarrow> (case loads m of
          Inl e \<Rightarrow> if e = JSONDecodeError then Inr None else Inl e
        | Inr (PList xs) \<Rightarrow> Inr (Some xs)
        | Inr w \<Rightarrow> Inr None))"

subsection \<open>One case\<close>

definition numbered_list :: "pyval list \<Rightarrow> string" where
  "numbered_list items = join_str [newline] (map (\<lambda>(i, item). nat_str i @ ''. '' @ py_str item) (zip [1..<length items + 1] items))"

definition plan_prompt :: "string \<Rightarrow> string \<Rightarrow> string" where
  "plan_prompt instructions prompt =
     ''Repository instructions:'' @ [newline, newline] @ instructions @ [newline, newline] @ ''Task: '' @ prompt"

definition judge_prompt :: "string \<Rightarrow> pyval list \<Rightarrow> string \<Rightarrow> string" where
  "judge_prompt prompt checklist plan = ''Task the plan was written for: '' @ prompt @ [newline, newline] @
     ''Checklist ('' @ nat_str (length checklist) @ '' items):'' @ [newline] @ numbered_list checklist @ [newline, newline] @
     ''Plan to grade:'' @ [newline] @ plan"

text \<open>\<^verbatim>\<open>list(case.get("checklist", []))\<close>\<close>

definition checklist_of :: "pyval \<Rightarrow> exn + pyval list" where
  "checklist_of c = bindE (py_get c ''checklist'' (PList [])) py_iter"

text \<open>A call is an action on the prompts sent so far (oldest first); its result is the text, or on the left
  the text of a request error.\<close>

definition ask :: "model_client \<Rightarrow> prompt \<Rightarrow> (prompt list, string + string) act" where
  "ask client prompt sent = (case client sent prompt of
      Answer t \<Rightarrow> (Inr (Inr t), sent @ [prompt])
    | RequestError msg \<Rightarrow> (Inr (Inl msg), sent @ [prompt])
    | Raises e \<Rightarrow> (Inl e, sent @ [prompt]))"

definition unparsed :: "pyval list \<Rightarrow> string \<Rightarrow> string" where
  "unparsed checklist judge_raw = ''judge response did not parse into '' @ nat_str (length checklist)
     @ '' verdicts (got: '' @ repr_str (take 200 judge_raw) @ '')''"

definition run_case :: "(string \<Rightarrow> exn + pyval) \<Rightarrow> model_client \<Rightarrow> pyval \<Rightarrow> string \<Rightarrow> (prompt list, case_result) act" where
  "run_case loads client c instructions =
     bindS (liftS (py_key ''id'' c)) (\<lambda>case_id.
     bindS (liftS (py_key ''prompt'' c)) (\<lambda>prompt.
     bindS (liftS (checklist_of c)) (\<lambda>checklist.
     let result = \<lparr> cr_case_id = py_str case_id, cr_plan_text = [], cr_verdicts = [], cr_error = None \<rparr> in
     bindS (ask client (PLAN_SYSTEM_PROMPT, plan_prompt instructions (py_str prompt))) (\<lambda>plan.
     case plan of
       Inl err \<Rightarrow> returnS (result\<lparr>cr_error := Some (''plan request failed: '' @ err)\<rparr>)
     | Inr text \<Rightarrow>
         let result = result\<lparr>cr_plan_text := strip text\<rparr> in
         if checklist = [] then returnS (result\<lparr>cr_error := Some ''no checklist defined for this case - nothing to grade''\<rparr>)
         else bindS (ask client (JUDGE_SYSTEM_PROMPT, judge_prompt (py_str prompt) checklist (cr_plan_text result))) (\<lambda>judge.
         case judge of
           Inl err \<Rightarrow> returnS (result\<lparr>cr_error := Some (''judge request failed: '' @ err)\<rparr>)
         | Inr judge_raw \<Rightarrow>
             bindS (liftS (extract_json_array loads judge_raw)) (\<lambda>parsed.
             returnS (case parsed of
                 None \<Rightarrow> result\<lparr>cr_error := Some (unparsed checklist judge_raw)\<rparr>
               | Some xs \<Rightarrow> if length xs \<noteq> length checklist
                   then result\<lparr>cr_error := Some (unparsed checklist judge_raw)\<rparr>
                   else result\<lparr>cr_verdicts := xs\<rparr>)))))))"

subsection \<open>Reports\<close>

definition passed :: "pyval \<Rightarrow> exn + bool" where
  "passed verdict = bindE (py_get verdict ''pass'' PNone) (\<lambda>v. Inr (truthy v))"

definition count_passes :: "pyval list \<Rightarrow> exn + nat" where
  "count_passes verdicts = bindE (filterE passed verdicts) (\<lambda>ps. Inr (length ps))"

definition verdict_line :: "pyval \<times> pyval \<Rightarrow> exn + string" where
  "verdict_line entry = (case entry of (item, verdict) \<Rightarrow>
     bindE (passed verdict) (\<lambda>p.
     bindE (py_get verdict ''reason'' (PStr [])) (\<lambda>reason.
     Inr (''- ['' @ (if p then ''x'' else '' '') @ ''] '' @ py_str item @ '' - '' @ py_str reason))))"

definition case_output :: "case_result \<Rightarrow> pyval list \<Rightarrow> exn + string" where
  "case_output result checklist =
     bindE (if cr_verdicts result = [] then Inr []
            else bindE (mapE verdict_line (zip checklist (cr_verdicts result))) (\<lambda>ls. Inr ([''## Checklist verdicts'', []] @ ls))) (\<lambda>verdicts.
     Inr (join_str [newline]
       ([''# '' @ cr_case_id result, []]
        @ (case cr_error result of None \<Rightarrow> [] | Some e \<Rightarrow> [''**Error:** '' @ e, []])
        @ (if cr_plan_text result = [] then [] else [''## Plan'', [], cr_plan_text result, []])
        @ verdicts) @ [newline]))"

definition summary_row :: "(string \<times> pyval list) list \<Rightarrow> case_result \<Rightarrow> exn + string" where
  "summary_row checklists result = (case cr_error result of
      Some e \<Rightarrow> Inr (''| '' @ cr_case_id result @ '' | - | error: '' @ e @ '' |'')
    | None \<Rightarrow> bindE (count_passes (cr_verdicts result)) (\<lambda>n.
        let total = length (case map_of checklists (cr_case_id result) of None \<Rightarrow> [] | Some xs \<Rightarrow> xs) in
        Inr (''| '' @ cr_case_id result @ '' | '' @ nat_str n @ ''/'' @ nat_str total @ '' | completed |'')))"

definition build_summary_table :: "case_result list \<Rightarrow> (string \<times> pyval list) list \<Rightarrow> exn + string" where
  "build_summary_table results checklists =
     bindE (mapE (summary_row checklists) results) (\<lambda>rows.
     Inr (join_str [newline] ([''| Case | Pass rate | Status |'', ''| --- | --- | --- |''] @ rows)))"

subsection \<open>Runs\<close>

text \<open>The prompts sent, the files written and the texts appended to the file named by
  \<^verbatim>\<open>GITHUB_STEP_SUMMARY\<close>, newest first.\<close>

record eval_run =
  er_sent :: "prompt list"
  er_files :: "(string \<times> string) list"
  er_appended :: "(string \<times> string) list"

definition on_sent :: "(prompt list, 'a) act \<Rightarrow> (eval_run, 'a) act" where
  "on_sent m s = (case m (er_sent s) of (r, sent) \<Rightarrow> (r, s\<lparr>er_sent := sent\<rparr>))"

definition write_file :: "string \<Rightarrow> string \<Rightarrow> (eval_run, unit) act" where
  "write_file name text = modifyS (\<lambda>s. s\<lparr>er_files := (name, text) # er_files s\<rparr>)"

text \<open>The loop of \<^verbatim>\<open>main\<close> over the cases: run, count (for the progress message, which already reads every
  verdict), write.\<close>

fun run_cases ::
    "(string \<Rightarrow> exn + pyval) \<Rightarrow> model_client \<Rightarrow> string \<Rightarrow> (string \<times> pyval list) list \<Rightarrow> pyval list \<Rightarrow> (eval_run, case_result list) act" where
  "run_cases loads client instructions checklists [] = returnS []"
| "run_cases loads client instructions checklists (c # cs) =
     bindS (on_sent (run_case loads client c instructions)) (\<lambda>result.
     bindS (liftS (case map_of checklists (cr_case_id result) of None \<Rightarrow> Inl KeyError | Some xs \<Rightarrow> Inr xs)) (\<lambda>checklist.
     bindS (liftS (count_passes (cr_verdicts result))) (\<lambda>n.
     bindS (liftS (case_output result checklist)) (\<lambda>text.
     bindS (write_file (cr_case_id result @ ''.md'') text) (\<lambda>_.
     bindS (run_cases loads client instructions checklists cs) (\<lambda>results.
     returnS (result # results)))))))"

text \<open>\<^verbatim>\<open>{str(c["id"]): list(c.get("checklist", [])) for c in cases}\<close>\<close>

definition checklists_of :: "pyval list \<Rightarrow> exn + (string \<times> pyval list) list" where
  "checklists_of cases = bindE (mapE (\<lambda>c. bindE (py_key ''id'' c) (\<lambda>i. bindE (checklist_of c) (\<lambda>xs. Inr (py_str i, xs)))) cases)
     (\<lambda>entries. Inr (fold (\<lambda>(i, xs) d. AList.update i xs d) entries []))"

definition select_cases :: "string option \<Rightarrow> pyval list \<Rightarrow> exn + pyval list" where
  "select_cases only cases = (case only of
      None \<Rightarrow> Inr cases
    | Some i \<Rightarrow> if i = [] then Inr cases
        else filterE (\<lambda>c. bindE (py_key ''id'' c) (\<lambda>v. Inr (v = PStr i))) cases)"

text \<open>The instructions and the cases; \<open>read\<close> gives the text of a file of the repository.\<close>

definition load_eval_data ::
    "(string \<Rightarrow> exn + pyval) \<Rightarrow> (string \<Rightarrow> exn + string) \<Rightarrow> exn + string \<times> pyval list" where
  "load_eval_data loads read =
     bindE (read EVAL_FILE) (\<lambda>text.
     bindE (loads text) (\<lambda>data.
     bindE (py_key ''instructionFile'' data) (\<lambda>name.
     bindE (case name of PStr path \<Rightarrow> read path | _ \<Rightarrow> Inl TypeError) (\<lambda>instructions.
     bindE (py_key ''cases'' data) (\<lambda>cases.
     bindE (py_iter cases) (\<lambda>cs. Inr (instructions, cs)))))))"

text \<open>\<open>env\<close> is \<^verbatim>\<open>os.environ.get\<close>; \<open>or_else\<close> is \<^verbatim>\<open>or\<close> on its results.\<close>

type_synonym environment = "string \<Rightarrow> string option"

definition or_else :: "string option \<Rightarrow> string option \<Rightarrow> string option" where
  "or_else a b = (if a \<in> {None, Some []} then b else a)"

text \<open>The arguments as given on the command line, and with their defaults. The parser checks the choice of a
  provider that is given, but not a default taken from the environment.\<close>

record eval_cli =
  ec_provider :: "string option"
  ec_model :: "string option"
  ec_base_url :: "string option"
  ec_token :: "string option"
  ec_case :: "string option"

record eval_args =
  eg_provider :: string
  eg_model :: string
  eg_base_url :: "string option"
  eg_token :: "string option"
  eg_case :: "string option"

definition given :: "'a option \<Rightarrow> 'a \<Rightarrow> 'a" where
  "given v d = (case v of None \<Rightarrow> d | Some x \<Rightarrow> x)"

definition parse_eval_args :: "environment \<Rightarrow> eval_cli \<Rightarrow> exn + eval_args" where
  "parse_eval_args env cli =
     (if ec_provider cli \<notin> {None, Some ''anthropic'', Some ''openai-compatible''} then Inl (SystemExit ''2'')
      else Inr \<lparr> eg_provider = given (ec_provider cli) (given (env ''AGENTRC_EVAL_PROVIDER'') DEFAULT_PROVIDER),
        eg_model = given (ec_model cli) (given (env ''AGENTRC_EVAL_MODEL'') DEFAULT_MODEL),
        eg_base_url = (case ec_base_url cli of None \<Rightarrow> env ''AGENTRC_EVAL_BASE_URL'' | u \<Rightarrow> u),
        eg_token = (case ec_token cli of
            None \<Rightarrow> or_else (or_else (env ''ANTHROPIC_API_KEY'') (env ''GITHUB_TOKEN'')) (env ''AGENTRC_EVAL_TOKEN'')
          | t \<Rightarrow> t),
        eg_case = ec_case cli \<rparr>)"

definition print_summary ::
    "environment \<Rightarrow> case_result list \<Rightarrow> (string \<times> pyval list) list \<Rightarrow> (eval_run, unit) act" where
  "print_summary env results checklists =
     bindS (liftS (build_summary_table results checklists)) (\<lambda>table.
     bindS (write_file ''summary.md'' (table @ [newline])) (\<lambda>_.
     (case env ''GITHUB_STEP_SUMMARY'' of
        None \<Rightarrow> returnS ()
      | Some path \<Rightarrow> whenS (path \<noteq> []) (modifyS (\<lambda>s. s\<lparr>er_appended :=
          (path, ''## agentrc.eval.json results'' @ [newline, newline] @ table @ [newline]) # er_appended s\<rparr>)))))"

definition eval_main ::
    "(string \<Rightarrow> exn + pyval) \<Rightarrow> environment \<Rightarrow> (string \<Rightarrow> exn + string) \<Rightarrow> service \<Rightarrow> eval_cli \<Rightarrow> (eval_run, nat) act" where
  "eval_main loads env read send cli =
     bindS (liftS (parse_eval_args env cli)) (\<lambda>args.
     if eg_token args \<in> {None, Some []} then returnS 1
     else if eg_provider args = ''openai-compatible'' \<and> eg_base_url args \<in> {None, Some []} then returnS 1
     else
       let base_url = the (or_else (eg_base_url args) (Some DEFAULT_ANTHROPIC_BASE_URL));
           only = eg_case args in
       bindS (liftS (load_eval_data loads read)) (\<lambda>(instructions, cases).
       bindS (liftS (select_cases only cases)) (\<lambda>cases.
       if cases = [] \<and> only \<notin> {None, Some []} then returnS 1
       else
         let client = (if eg_provider args = ''anthropic'' then anthropic_client else openai_client)
                        send base_url (eg_model args) (the (eg_token args)) in
         bindS (liftS (checklists_of cases)) (\<lambda>checklists.
         bindS (run_cases loads client instructions checklists cases) (\<lambda>results.
         bindS (print_summary env results checklists) (\<lambda>_. returnS 0))))))"

subsection \<open>Comparing models\<close>

text \<open>One cell of the matrix, and the verdict it shows, if it shows one.\<close>

definition cell :: "case_result option \<Rightarrow> nat \<Rightarrow> exn + string \<times> bool option" where
  "cell result idx = (case result of
      None \<Rightarrow> Inr (''n/a'', None)
    | Some r \<Rightarrow>
        if cr_error r \<noteq> None \<or> length (cr_verdicts r) \<le> idx then Inr (''error'', None)
        else bindE (passed (cr_verdicts r ! idx)) (\<lambda>p. Inr (if p then ''pass'' else ''FAIL'', Some p)))"

definition item_row :: "(string \<times> case_result) list \<Rightarrow> string list \<Rightarrow> nat \<times> pyval \<Rightarrow> exn + string \<times> bool" where
  "item_row per_model model_names entry = (case entry of (idx, item) \<Rightarrow>
     bindE (mapE (\<lambda>name. cell (map_of per_model name) idx) model_names) (\<lambda>cells.
     let seen = remdups (List.map_filter snd cells) in
     Inr (''| '' @ py_str item @ '' | '' @ join_str '' | '' (map fst cells) @ '' |'', length seen > 1)))"

definition slashed :: "string \<Rightarrow> string" where
  "slashed s = map (\<lambda>c. if c = CHR ''|'' then CHR ''/'' else c) s"

definition pass_rate_cell :: "nat \<Rightarrow> case_result option \<Rightarrow> exn + string" where
  "pass_rate_cell items result = (case result of
      None \<Rightarrow> Inr ''n/a''
    | Some r \<Rightarrow> (case cr_error r of
        Some e \<Rightarrow> Inr (''error: '' @ slashed e)
      | None \<Rightarrow> bindE (count_passes (cr_verdicts r)) (\<lambda>n. Inr (nat_str n @ ''/'' @ nat_str items))))"

type_synonym model_results = "(string \<times> (string \<times> case_result) list) list"

text \<open>The lines one case adds to the summary and to the details.\<close>

definition case_report :: "string list \<Rightarrow> model_results \<Rightarrow> pyval \<Rightarrow> exn + string \<times> string list" where
  "case_report model_names results c =
     bindE (py_key ''id'' c) (\<lambda>i.
     bindE (checklist_of c) (\<lambda>checklist.
     let case_id = py_str i;
         per_model = (case map_of results case_id of None \<Rightarrow> [] | Some m \<Rightarrow> m) in
     bindE (mapE (item_row per_model model_names) (zip [0..<length checklist] checklist)) (\<lambda>rows.
     bindE (mapE (\<lambda>name. pass_rate_cell (length checklist) (map_of per_model name)) model_names) (\<lambda>rates.
     Inr (''| '' @ case_id @ '' | '' @ join_str '' | '' rates @ '' | '' @ nat_str (length (filter snd rows)) @ '' |'',
       [''## '' @ case_id, []]
       @ (if checklist = [] then []
          else [''| Checklist item | '' @ join_str '' | '' model_names @ '' |'',
                ''| --- | '' @ join_str '' | '' (map (\<lambda>_. ''---'') model_names) @ '' |''])
       @ map fst rows @ [[]])))))"

definition build_comparison_report :: "pyval list \<Rightarrow> string list \<Rightarrow> model_results \<Rightarrow> exn + string" where
  "build_comparison_report cases model_names results =
     bindE (mapE (case_report model_names results) cases) (\<lambda>reports.
     Inr (join_str [newline] ([''# agentrc.eval.json cross-model results'', [],
        ''## Summary'', [], ''| Case | '' @ join_str '' | '' model_names @ '' | Disagreements |'',
        ''| --- | '' @ join_str '' | '' (map (\<lambda>_. ''---'') model_names) @ '' | --- |'']
        @ map fst reports @ [[]] @ concat (map snd reports))))"

subsection \<open>A cross-model run\<close>

record cross_run =
  xr_sent :: "(string \<times> prompt list) list"
  xr_files :: "(string \<times> string) list"
  xr_appended :: "(string \<times> string) list"

definition on_model :: "string \<Rightarrow> (prompt list, 'a) act \<Rightarrow> (cross_run, 'a) act" where
  "on_model name m s =
     (case m (case map_of (xr_sent s) name of None \<Rightarrow> [] | Some sent \<Rightarrow> sent) of
        (r, sent) \<Rightarrow> (r, s\<lparr>xr_sent := AList.update name sent (xr_sent s)\<rparr>))"

definition cross_write :: "string \<Rightarrow> string \<Rightarrow> (cross_run, unit) act" where
  "cross_write name text = modifyS (\<lambda>s. s\<lparr>xr_files := (name, text) # xr_files s\<rparr>)"

text \<open>\<^verbatim>\<open>_build_client\<close>: an entry is a JSON object of texts; a model without a token or of an unknown
  provider is skipped. The models are asked at different services.\<close>

definition build_client :: "environment \<Rightarrow> (string \<Rightarrow> service) \<Rightarrow> pyval \<Rightarrow> exn + model_client option" where
  "build_client env send entry =
     bindE (py_key ''name'' entry) (\<lambda>name.
     bindE (py_key ''token_env'' entry) (\<lambda>token_env.
     let token = given (env (py_str token_env)) [] in
     if token = [] then Inr None
     else bindE (py_get entry ''provider'' (PStr [])) (\<lambda>provider.
       if provider = PStr ''openai-compatible'' then
         bindE (py_key ''base_url'' entry) (\<lambda>base_url.
         bindE (py_key ''model'' entry) (\<lambda>model.
         Inr (Some (openai_client (send (py_str name)) (py_str base_url) (py_str model) token))))
       else if provider = PStr ''anthropic'' then
         bindE (py_key ''base_url'' entry) (\<lambda>base_url.
         bindE (py_key ''model'' entry) (\<lambda>model.
         Inr (Some (anthropic_client (send (py_str name)) (py_str base_url) (py_str model) token))))
       else Inr None)))"

fun build_clients ::
    "environment \<Rightarrow> (string \<Rightarrow> service) \<Rightarrow> pyval list \<Rightarrow>
      (string \<times> model_client) list \<Rightarrow> exn + (string \<times> model_client) list" where
  "build_clients env send [] clients = Inr clients"
| "build_clients env send (entry # entries) clients =
     bindE (build_client env send entry) (\<lambda>c.
     bindE (py_key ''name'' entry) (\<lambda>name.
     build_clients env send entries (case c of None \<Rightarrow> clients | Some m \<Rightarrow> AList.update (py_str name) m clients)))"

fun cross_models ::
    "(string \<Rightarrow> exn + pyval) \<Rightarrow> (string \<times> model_client) list \<Rightarrow> string \<Rightarrow> pyval \<Rightarrow> pyval list \<Rightarrow> string list \<Rightarrow>
      (cross_run, (string \<times> case_result) list) act" where
  "cross_models loads clients instructions c checklist [] = returnS []"
| "cross_models loads clients instructions c checklist (name # names) =
     bindS (on_model name (run_case loads (the (map_of clients name)) c instructions)) (\<lambda>result.
     bindS (liftS (case_output (result\<lparr>cr_case_id := cr_case_id result @ ''__'' @ name\<rparr>) checklist)) (\<lambda>text.
     bindS (cross_write (cr_case_id result @ ''__'' @ name @ ''.md'') text) (\<lambda>_.
     bindS (cross_models loads clients instructions c checklist names) (\<lambda>results.
     returnS ((name, result) # results)))))"

fun cross_cases ::
    "(string \<Rightarrow> exn + pyval) \<Rightarrow> (string \<times> model_client) list \<Rightarrow> string \<Rightarrow> string list \<Rightarrow> pyval list \<Rightarrow> model_results \<Rightarrow>
      (cross_run, model_results) act" where
  "cross_cases loads clients instructions model_names [] results = returnS results"
| "cross_cases loads clients instructions model_names (c # cs) results =
     bindS (liftS (py_key ''id'' c)) (\<lambda>i.
     bindS (liftS (checklist_of c)) (\<lambda>checklist.
     bindS (cross_models loads clients instructions c checklist model_names) (\<lambda>per_model.
     cross_cases loads clients instructions model_names cs (AList.update (py_str i) per_model results))))"

fun split_char :: "char \<Rightarrow> string \<Rightarrow> string list" where
  "split_char c [] = [[]]"
| "split_char c (x # xs) =
     (if x = c then [] # split_char c xs
      else case split_char c xs of [] \<Rightarrow> [[x]] | w # ws \<Rightarrow> (x # w) # ws)"

text \<open>\<^verbatim>\<open>--models\<close>: the entries whose name is one of the given names, separated by commas.\<close>

definition select_models :: "string option \<Rightarrow> pyval list \<Rightarrow> exn + pyval list" where
  "select_models models entries = (case models of
      None \<Rightarrow> Inr entries
    | Some names \<Rightarrow> if names = [] then Inr entries
        else let wanted = map strip (split_char CHR '','' names)
             in filterE (\<lambda>e. bindE (py_key ''name'' e) (\<lambda>n. Inr (n \<in> PStr ` set wanted))) entries)"

definition append_report :: "environment \<Rightarrow> string \<Rightarrow> (cross_run, unit) act" where
  "append_report env report =
     (case env ''GITHUB_STEP_SUMMARY'' of
        None \<Rightarrow> returnS ()
      | Some path \<Rightarrow> whenS (path \<noteq> []) (modifyS (\<lambda>s. s\<lparr>xr_appended := (path, report @ [newline]) # xr_appended s\<rparr>)))"

text \<open>\<^verbatim>\<open>main\<close> with the arguments \<^verbatim>\<open>--case\<close>, \<^verbatim>\<open>--models-config\<close> and \<^verbatim>\<open>--models\<close>.\<close>

definition cross_main ::
    "(string \<Rightarrow> exn + pyval) \<Rightarrow> environment \<Rightarrow> (string \<Rightarrow> exn + string) \<Rightarrow> (string \<Rightarrow> service) \<Rightarrow>
      string option \<Rightarrow> string option \<Rightarrow> string option \<Rightarrow> (cross_run, nat) act" where
  "cross_main loads env read send only models_config models =
     bindS (liftS (load_eval_data loads read)) (\<lambda>(instructions, cases).
     bindS (liftS (select_cases only cases)) (\<lambda>cases.
     if cases = [] \<and> only \<notin> {None, Some []} then returnS 1
     else
       bindS (liftS (bindE (read (given models_config DEFAULT_MODELS_CONFIG)) loads)) (\<lambda>config.
       bindS (liftS (bindE (py_iter config) (select_models models))) (\<lambda>entries.
       bindS (liftS (build_clients env send entries [])) (\<lambda>clients.
       if clients = [] then returnS 1
       else let model_names = sort (map fst clients) in
         bindS (cross_cases loads clients instructions model_names cases []) (\<lambda>results.
         bindS (liftS (build_comparison_report cases model_names results)) (\<lambda>report.
         bindS (cross_write ''comparison.md'' (report @ [newline])) (\<lambda>_.
         bindS (append_report env report) (\<lambda>_. returnS 0)))))))))"

subsection \<open>Properties\<close>

lemma ask_sends: "snd (ask client prompt sent) = sent @ [prompt]"
  by (simp add: ask_def split: completion.split)

definition well_judged :: "pyval list \<Rightarrow> prompt list \<Rightarrow> case_result \<Rightarrow> prompt list \<Rightarrow> bool" where
  "well_judged checklist sent result sent' \<longleftrightarrow> (\<exists>plan judge.
     sent' = sent @ [(PLAN_SYSTEM_PROMPT, plan)] \<and> cr_error result \<noteq> None \<and> cr_verdicts result = [] \<or>
     sent' = sent @ [(PLAN_SYSTEM_PROMPT, plan), (JUDGE_SYSTEM_PROMPT, judge)] \<and> checklist \<noteq> [] \<and>
       (cr_error result = None \<and> length (cr_verdicts result) = length checklist \<or>
        cr_error result \<noteq> None \<and> cr_verdicts result = []))"

text \<open>Running a case sends the plan request and, after an answer to it and for a nonempty checklist, the
  judge request, nothing else. A result without an error has exactly one verdict per item of a nonempty
  checklist; a result with an error has none.\<close>

theorem run_case_verdicts:
  "case run_case loads client c instructions sent of
     (Inl e, sent') \<Rightarrow> True
   | (Inr result, sent') \<Rightarrow> (case checklist_of c of Inl e \<Rightarrow> False | Inr checklist \<Rightarrow> well_judged checklist sent result sent')"
proof (cases "run_case loads client c instructions sent")
  case (Pair r sent')
  show ?thesis
  proof (cases r)
    case (Inr result)
    with Pair have run: "run_case loads client c instructions sent = (Inr result, sent')" by simp
    obtain i p checklist where f: "py_key ''id'' c = Inr i" "py_key ''prompt'' c = Inr p" "checklist_of c = Inr checklist"
      using run by (auto simp: run_case_def bindS_def liftS_def split: sum.splits)
    let ?plan = "(PLAN_SYSTEM_PROMPT, plan_prompt instructions (py_str p))"
    show ?thesis
    proof (cases "client sent ?plan")
      case (Answer t)
      let ?judge = "(JUDGE_SYSTEM_PROMPT, judge_prompt (py_str p) checklist (strip t))"
      show ?thesis using run f Answer
        by (cases "client (sent @ [?plan]) ?judge")
          (auto simp: run_case_def bindS_def liftS_def returnS_def ask_def well_judged_def Let_def
            split: if_splits sum.splits option.splits)
    qed (use run f in \<open>auto simp: run_case_def bindS_def liftS_def returnS_def ask_def well_judged_def  Let_def\<close>)
  qed (simp add: Pair)
qed

text \<open>A judge that answers with an array of the right length whose elements are not objects aborts the whole
  run, although the script is meant never to fail one: no file is written, not even for the cases done
  before a summary.\<close>

definition demo_service :: service where
  "demo_service sent request = Payload (PDict [(''content'',
     PList [PDict [(''text'', PStr (if sent = [] then ''plan'' else ''[true]''))]])])"

definition demo_case :: pyval where
  "demo_case = PDict [(''id'', PStr ''case-1''), (''prompt'', PStr ''p''), (''checklist'', PList [PStr ''tests''])]"

definition demo_loads :: "string \<Rightarrow> exn + pyval" where
  "demo_loads s = (if s = ''data'' then Inr (PDict [(''instructionFile'', PStr ''empty''), (''cases'', PList [demo_case])])
     else Inr (PList [PBool True]))"

definition demo_read :: "string \<Rightarrow> exn + string" where
  "demo_read path = (if path = EVAL_FILE then Inr ''data'' else Inr [])"

definition demo_cli :: eval_cli where
  "demo_cli = \<lparr> ec_provider = None, ec_model = None, ec_base_url = None, ec_token = Some ''t'', ec_case = None \<rparr>"

theorem bare_verdict_aborts:
  "eval_main demo_loads (\<lambda>_. None) demo_read demo_service demo_cli \<lparr> er_sent = [], er_files = [], er_appended = [] \<rparr> =
   (Inl AttributeError, \<lparr> er_sent = [(PLAN_SYSTEM_PROMPT, plan_prompt [] ''p''), (JUDGE_SYSTEM_PROMPT, judge_prompt ''p'' [PStr ''tests''] ''plan'')],
      er_files = [], er_appended = [] \<rparr>)"
  by code_simp

text \<open>The choice of a provider is checked on the command line only. With a misspelt name in \<^verbatim>\<open>AGENTRC_EVAL_PROVIDER\<close> the run
  neither stops nor asks for a base URL: it sends the token, in the form of the other provider, to the default
  address of the first.\<close>

definition echo_service :: service where
  "echo_service sent request = Refused (ar_url request @ '' '' @ concat (map snd (ar_headers request)))"

theorem misspelt_provider_runs:
  "map_of (er_files (snd (eval_main demo_loads (\<lambda>v. if v = ''AGENTRC_EVAL_PROVIDER'' then Some ''openai'' else None) demo_read
     echo_service demo_cli \<lparr> er_sent = [], er_files = [], er_appended = [] \<rparr>))) ''case-1.md'' =
   Some (''# case-1'' @ [newline, newline] @
     ''**Error:** plan request failed: https://api.anthropic.com/chat/completions application/jsonBearer t'' @ [newline, newline])"
  by code_simp

text \<open>A checklist item counts as a disagreement exactly when one model passes it and another fails it;
  models without a result or with an error do not take part.\<close>

definition verdict_of :: "(string \<times> case_result) list \<Rightarrow> nat \<Rightarrow> string \<Rightarrow> bool option" where
  "verdict_of per_model idx name = (case cell (map_of per_model name) idx of Inl e \<Rightarrow> None | Inr (text, v) \<Rightarrow> v)"

lemma two_bools: "1 < length (remdups bs) \<longleftrightarrow> True \<in> set bs \<and> False \<in> set bs"
proof -
  have "set bs = (if True \<in> set bs then {True} else {}) \<union> (if False \<in> set bs then {False} else {})" (is "_ = ?s")
  proof (rule set_eqI)
    show "x \<in> set bs \<longleftrightarrow> x \<in> ?s" for x by (cases x) simp_all
  qed
  then have "card (set bs) = card ?s" by (rule arg_cong)
  also have "1 < card ?s \<longleftrightarrow> True \<in> set bs \<and> False \<in> set bs"
    by (cases "True \<in> set bs"; cases "False \<in> set bs") simp_all
  finally show ?thesis unfolding length_remdups_card_conv .
qed

lemma map_filter_member: "b \<in> set (List.map_filter f xs) \<longleftrightarrow> (\<exists>x \<in> set xs. f x = Some b)"
  by (induction xs) (auto simp: List.map_filter_def)

lemma mapE_verdicts:
  "mapE (\<lambda>name. cell (map_of per_model name) idx) names = Inr cells \<Longrightarrow>
     List.map_filter snd cells = List.map_filter (verdict_of per_model idx) names"
  by (induction names arbitrary: cells)
    (auto simp: bindE_eq_Inr verdict_of_def List.map_filter_def split: option.splits)

theorem disagreement_iff:
  assumes "item_row per_model names (idx, item) = Inr (row, flag)"
  shows "flag \<longleftrightarrow> (\<exists>m n. m \<in> set names \<and> n \<in> set names \<and>
    verdict_of per_model idx m = Some True \<and> verdict_of per_model idx n = Some False)"
proof -
  from assms obtain cells where "mapE (\<lambda>name. cell (map_of per_model name) idx) names = Inr cells"
    "flag \<longleftrightarrow> 1 < length (remdups (List.map_filter snd cells))" by (auto simp: item_row_def bindE_eq_Inr Let_def)
  then show ?thesis by (auto simp: two_bools [unfolded One_nat_def] mapE_verdicts map_filter_member)
qed

end
