(* ===== verification/Backlog.thy ===== *)
theory Backlog
  imports PyBase
begin

section \<open>The backlog of the seeding script\<close>

text \<open>
  The issues of \<^verbatim>\<open>scripts/seed_issues.py\<close>, one definition per \<^verbatim>\<open>Issue(...)\<close> of \<^verbatim>\<open>ISSUES\<close>, the
  pieces of a body as the source lists them. A body is handed to a command as an argument, that is as UTF-8
  bytes; the one character of the texts outside ASCII, the em dash, is written as its three bytes.
\<close>

record issue =
  iss_title :: string
  iss_milestone :: string
  iss_labels :: "string list"
  iss_body :: string

definition NL :: string where
  "NL = [CHR 0x0A]"

definition QUOTE :: string where
  "QUOTE = [CHR 0x27]"

definition EM_DASH :: string where
  "EM_DASH = [CHR 0xE2, CHR 0x80, CHR 0x94]"

definition issue_stop_persisting_raw_alert :: issue where
  "issue_stop_persisting_raw_alert = \<lparr> iss_title = ''Stop persisting raw alert payloads to disk'', iss_milestone = ''v1.8.0'',
     iss_labels = [''security'', ''size: S'', ''priority: high'', ''v2.0-gate''],
     iss_body = concat [
       ''`UniFiAlert.to_dict()` (`models.py`) does `asdict(self)`, which '',
       ''serialises the entire `raw` payload (client MACs, IPs, hostnames) '',
       ''into `.storage` via the coordinator's `Store`. That is the one '',
       ''place those fields are not already redacted, and a non-JSON value '',
       ''in `raw` can break `Store.async_save`.'' @ NL @ NL,
       ''**Approach:** persist an explicit scalar field list '',
       ''(`message`, `received_at`, `key`, `device_name`, `site`, '',
       ''`severity`); default `raw={}` in `from_dict`.'' @ NL @ NL,
       ''**Acceptance**'' @ NL,
       ''- [ ] `to_dict()` no longer serialises `raw`'' @ NL,
       ''- [ ] Restore path still rebuilds `last_alert` from the scalar fields'' @ NL,
       ''- [ ] Test asserts a non-JSON value in `raw` cannot break persistence'' @ NL,
       ''- [ ] CHANGELOG `[Unreleased]` updated (privacy)''] \<rparr>"

definition issue_fix_stale_alert_received :: issue where
  "issue_fix_stale_alert_received = \<lparr> iss_title = ''Fix stale alert_received replay on reload'', iss_milestone = ''v1.8.0'',
     iss_labels = [''fix'', ''size: S'', ''priority: high''],
     iss_body = concat [
       ''`UniFiAlertEventEntity._last_seen_count` resets to 0 in `__init__` '',
       ''(`event.py`), so the first coordinator update after any options '',
       ''save (which triggers a full reload) sees a restored non-zero '',
       ''`alert_count` and re-fires `alert_received` for a stale alert into '',
       ''users' automations.'' @ NL @ NL,
       ''**Approach:** seed `_last_seen_count` from the restored '',
       ''`state.alert_count` in `async_added_to_hass`, before the first '',
       ''`_handle_coordinator_update`.'' @ NL @ NL,
       ''**Acceptance**'' @ NL,
       ''- [ ] Reload after an options change does not fire a fresh event'' @ NL,
       ''- [ ] A genuine new push still fires exactly once'' @ NL,
       ''- [ ] Regression test covers the reload sequence''] \<rparr>"

definition issue_add_per_category_webhook :: issue where
  "issue_add_per_category_webhook = \<lparr> iss_title = ''Add a per-category webhook health signal'', iss_milestone = ''v1.8.0'',
     iss_labels = [''feat'', ''size: M'', ''priority: high''],
     iss_body = concat [
       ''After pasting webhook URLs into Alarm Manager, a user has no way '',
       ''to know setup worked until a real alert fires. This is the biggest '',
       ''source of 'it does not work' reports for a push integration.'' @ NL @ NL,
       ''**Approach:** expose a per-category 'last webhook received' '',
       ''timestamp (attribute and diagnostics) plus a healthy/stale '',
       ''indicator. The webhook handler already timestamps receipt.'' @ NL @ NL,
       ''**Acceptance**'' @ NL,
       ''- [ ] Last-received timestamp surfaced per category'' @ NL,
       ''- [ ] A never-received / stale category is visibly distinguishable'' @ NL,
       ''- [ ] Documented in the README setup section'' @ NL,
       ''- [ ] CHANGELOG `[Unreleased]` updated''] \<rparr>"

definition issue_coalesce_watermark_persistence_surface :: issue where
  "issue_coalesce_watermark_persistence_surface = \<lparr> iss_title = ''Coalesce watermark persistence and surface failures'', iss_milestone = ''v1.8.0'',
     iss_labels = [''fix'', ''size: S'', ''priority: high''],
     iss_body = concat [
       ''The per-push fire-and-forget `async_save` (`coordinator.py`) has a '',
       ''lost-update hazard under bursts and no error path, so a failed '',
       ''persist dies silently.'' @ NL @ NL,
       ''**Approach:** route writes through `Store.async_delay_save`, and '',
       ''run background tasks through a shared helper whose done-callback '',
       ''logs any non-`CancelledError` exception.'' @ NL @ NL,
       ''**Acceptance**'' @ NL,
       ''- [ ] Bursted pushes coalesce to a single durable write'' @ NL,
       ''- [ ] A persist exception is logged, not swallowed'' @ NL,
       ''- [ ] Test covers the save-raises path''] \<rparr>"

definition issue_consolidate_alert_classification_single :: issue where
  "issue_consolidate_alert_classification_single = \<lparr> iss_title = ''Consolidate alert classification into a single seam'', iss_milestone = ''v1.8.0'',
     iss_labels = [''size: M'', ''priority: medium''],
     iss_body = concat [
       ''Two parallel category resolvers exist: legacy prefix-match in '',
       ''`unifi_client._classify`, and exact-key plus enum fallback in '',
       ''`models.from_system_log_event`, each with its own unknown-key '',
       ''warning path. The process-global `_unknown_system_log_keys` set is '',
       ''shared mutable state.'' @ NL @ NL,
       ''**Approach:** collapse the taxonomy into one location so both '',
       ''paths share resolution and warning dedup; remove the module-global '',
       ''set in favour of instance/coordinator-scoped state.'' @ NL @ NL,
       ''**Acceptance**'' @ NL,
       ''- [ ] One classification entry point'' @ NL,
       ''- [ ] No process-global mutable warning set'' @ NL,
       ''- [ ] Existing classification tests still pass''] \<rparr>"

definition issue_extract_controller_auth_dedicated :: issue where
  "issue_extract_controller_auth_dedicated = \<lparr> iss_title = ''Extract controller auth into a dedicated seam'', iss_milestone = ''v1.8.0'',
     iss_labels = [''size: L'', ''priority: medium''],
     iss_body = concat [
       ''In `unifi_client.py`, auth-method autodetect, session state, '',
       ''login, key verification, and header construction are interleaved '',
       ''with transport, version probing, pagination, and parsing in one '',
       ''class.'' @ NL @ NL,
       ''**Approach:** pull the auth concern into its own strategy so a '',
       ''future third auth method or token refresh slots in cleanly and '',
       ''auth becomes unit-testable in isolation. Large item; decompose if '',
       ''needed.'' @ NL @ NL,
       ''**Acceptance**'' @ NL,
       ''- [ ] Auth logic lives behind a single seam'' @ NL,
       ''- [ ] Auth is unit-testable without the full client'' @ NL,
       ''- [ ] Coordinator re-auth coupling still works''] \<rparr>"

definition issue_add_end_end_secret :: issue where
  "issue_add_end_end_secret = \<lparr> iss_title = ''Add an end-to-end secret-rotation test'', iss_milestone = ''v1.8.0'',
     iss_labels = [''tests'', ''size: M'', ''priority: medium''],
     iss_body = concat [
       ''Rotation is unit-tested in pieces but nothing proves the full '',
       ''cycle, and rotation is a security boundary.'' @ NL @ NL,
       ''**Approach:** in `tests/integration/`, drive options finish -> '',
       ''entry update -> reload -> webhook re-register; assert the old '',
       ''token returns 401 and the new token returns 200 after reload.'' @ NL @ NL,
       ''**Acceptance**'' @ NL,
       ''- [ ] One integration test covers the whole rotation cycle'' @ NL,
       ''- [ ] Old token rejected, new token accepted post-reload''] \<rparr>"

definition issue_catch_invalidautherror_re_auth :: issue where
  "issue_catch_invalidautherror_re_auth = \<lparr> iss_title = ''Catch InvalidAuthError on the re-auth retry'', iss_milestone = ''v1.8.0'',
     iss_labels = [''fix'', ''size: S'', ''priority: medium''],
     iss_body = concat [
       ''After a 401 triggers re-authentication, the retried fetch '',
       ''(`coordinator.py`) only catches `CannotConnectError`; a second '',
       ''`InvalidAuthError` escapes `_async_update_data` as a generic error '',
       ''instead of raising `ConfigEntryAuthFailed` to trigger HA '',
       ''re-auth.'' @ NL @ NL,
       ''**Acceptance**'' @ NL,
       ''- [ ] Retry that still 401s raises `ConfigEntryAuthFailed`'' @ NL,
       ''- [ ] Coordinator test covers 're-auth succeeds, retry still 401'' @ QUOTE] \<rparr>"

definition issue_harden_render_message_raw :: issue where
  "issue_harden_render_message_raw = \<lparr> iss_title = ''Harden _render_message_raw substitution'', iss_milestone = ''v1.8.0'',
     iss_labels = [''security'', ''size: S'', ''priority: medium''],
     iss_body = concat [
       ''Sequential `str.replace` over controller-supplied `parameters` '',
       ''(`models.py`) is order-dependent and lets a parameter value that '',
       ''itself contains a `{TOKEN}` be re-substituted.'' @ NL @ NL,
       ''**Approach:** switch to single-pass substitution; add tests for '',
       ''embedded-token, overlapping-prefix (`{IP}` vs `{IP_DST}`), and '',
       ''non-string parameter values.'' @ NL @ NL,
       ''**Acceptance**'' @ NL,
       ''- [ ] Substitution is single-pass and order-independent'' @ NL,
       ''- [ ] Tests cover the three hostile-input cases''] \<rparr>"

definition issue_define_empty_or_malformed :: issue where
  "issue_define_empty_or_malformed = \<lparr> iss_title = ''Define the empty or malformed webhook contract'', iss_milestone = ''v1.8.0'',
     iss_labels = [''fix'', ''size: S'', ''priority: medium''],
     iss_body = concat [
       ''An authenticated POST with an empty or unrecognisable body '',
       ''currently flips the binary sensor to 'Problem' and fires an event '',
       ''(`webhook_handler.py`, `coordinator.push_alert`).'' @ NL @ NL,
       ''**Approach (decide during implementation):** either skip '',
       ''`push_callback` when no recognisable fields are present, or keep '',
       ''the behaviour. Either way, lock the chosen contract in with a '',
       ''test.'' @ NL @ NL,
       ''**Acceptance**'' @ NL,
       ''- [ ] Contract decided and documented in the code'' @ NL,
       ''- [ ] Test asserts the behaviour for `{}` and a no-field body''] \<rparr>"

definition issue_clarify_retention_data_handling :: issue where
  "issue_clarify_retention_data_handling = \<lparr> iss_title = ''Clarify retention and data handling'', iss_milestone = ''v1.8.0'',
     iss_labels = [''documentation'', ''security'', ''size: M'', ''priority: medium'', ''v2.0-gate''],
     iss_body = concat [
       ''`clear()` advances the watermark but leaves `last_alert` (message, '',
       ''device name) in state and on disk, so a 'cleared' category still '',
       ''retains identifying content. There is no user-facing statement of '',
       ''what is stored or for how long.'' @ NL @ NL,
       ''**Approach:** clear `last_alert` on `clear()` (or document that '',
       ''clearing is acknowledgement, not deletion); add a README 'Data '',
       ''handled and retention' section covering what is stored, where, and '',
       ''how to purge it.'' @ NL @ NL,
       ''**Acceptance**'' @ NL,
       ''- [ ] Clear semantics defined and implemented'' @ NL,
       ''- [ ] README documents stored fields, location, and purge path''] \<rparr>"

definition issue_complete_alarm_manager_onboarding :: issue where
  "issue_complete_alarm_manager_onboarding = \<lparr> iss_title = ''Complete the Alarm Manager onboarding docs'', iss_milestone = ''v1.8.0'',
     iss_labels = [''documentation'', ''size: S'', ''priority: medium'', ''v2.0-gate''],
     iss_body = concat [
       ''The hardest, most error-prone half of setup (configuring Alarm '',
       ''Manager) has the thinnest docs, and the 'copy URLs before clicking '',
       ''Submit' ordering is a footgun.'' @ NL @ NL,
       ''**Approach:** add a per-category trigger-mapping table and '',
       ''annotated screenshots; remove the footgun by re-showing the URLs '',
       ''after the entry is created (the options flow already supports '',
       ''this).'' @ NL @ NL,
       ''**Acceptance**'' @ NL,
       ''- [ ] Per-category trigger table in the README'' @ NL,
       ''- [ ] URLs viewable after entry creation, not only before Submit''] \<rparr>"

definition issue_disable_redirect_following_authenticated :: issue where
  "issue_disable_redirect_following_authenticated = \<lparr> iss_title = ''Disable redirect-following on authenticated outbound calls'', iss_milestone = ''v1.8.0'',
     iss_labels = [''security'', ''size: S'', ''priority: low''],
     iss_body = concat [
       ''Authenticated requests in `unifi_client.py` use aiohttp's default '',
       ''`allow_redirects=True`, so the `X-API-Key` header and session '',
       ''cookie can ride a controller-issued redirect to another host.'' @ NL @ NL,
       ''**Approach:** pass `allow_redirects=False` and treat a 3xx as an '',
       ''error on the authenticated call sites.'' @ NL @ NL,
       ''**Acceptance**'' @ NL,
       ''- [ ] Authed calls do not follow redirects'' @ NL,
       ''- [ ] A 3xx is surfaced as an error''] \<rparr>"

definition issue_length_validate_inbound_key :: issue where
  "issue_length_validate_inbound_key = \<lparr> iss_title = ''Length-validate inbound key, severity, device_name'', iss_milestone = ''v1.8.0'',
     iss_labels = [''security'', ''size: S'', ''priority: low''],
     iss_body = concat [
       ''`models.from_webhook_payload` truncates `message` but passes '',
       ''`key`, `severity`, and `device_name` through untruncated, so a '',
       ''token-bearing caller can push unbounded values into state and '',
       ''logs.'' @ NL @ NL,
       ''**Acceptance**'' @ NL,
       ''- [ ] All three fields truncated like `message`'' @ NL,
       ''- [ ] Test covers oversized inputs''] \<rparr>"

definition issue_document_diagnostics_content_exclusion :: issue where
  "issue_document_diagnostics_content_exclusion = \<lparr> iss_title = ''Document the diagnostics content exclusion'', iss_milestone = ''v1.8.0'',
     iss_labels = [''documentation'', ''size: S'', ''priority: low''],
     iss_body = concat [
       ''Diagnostics deliberately excludes per-category alert content '',
       ''(`message`, `device_name`, `raw`). Add a comment in '',
       ''`diagnostics.py` recording that this must stay excluded; if alert '',
       ''detail is ever added, route it through a field redactor.'' @ NL @ NL,
       ''**Acceptance**'' @ NL,
       ''- [ ] Guardrail comment in place''] \<rparr>"

definition issue_optional_host_guard_controller :: issue where
  "issue_optional_host_guard_controller = \<lparr> iss_title = ''Optional host guard on the controller URL'', iss_milestone = ''v1.8.0'',
     iss_labels = [''security'', ''size: S'', ''priority: low''],
     iss_body = concat [
       ''URL validation in `config_flow.py` is scheme-only. Optionally '',
       ''reject loopback and link-local hosts, or document that the URL is '',
       ''fully trusted under the local-admin model. Low-priority '',
       ''guardrail.'' @ NL @ NL,
       ''**Acceptance**'' @ NL,
       ''- [ ] Decision made and either guard added or trust documented''] \<rparr>"

definition issue_reconcile_docs_repo_layout :: issue where
  "issue_reconcile_docs_repo_layout = \<lparr> iss_title = ''Reconcile docs/REPO_LAYOUT.md with the file tree'', iss_milestone = ''v1.8.0'',
     iss_labels = [''documentation'', ''size: S'', ''priority: low''],
     iss_body = concat [
       ''`docs/REPO_LAYOUT.md` (the per-file source of truth) omits '',
       ''`services.py`, `services.yaml`, `scripts/run_lint.py`, and '',
       ''`scripts/run_typecheck.py`.'' @ NL @ NL,
       ''**Approach:** add the missing rows; optionally add a '',
       ''`scripts/validate_docs.py` check that every `*.py` under '',
       ''`custom_components/` and `scripts/` appears at least once.'' @ NL @ NL,
       ''**Acceptance**'' @ NL,
       ''- [ ] All four files documented'' @ NL,
       ''- [ ] Optional drift check wired into validate_docs''] \<rparr>"

definition issue_fix_actions_version_comments :: issue where
  "issue_fix_actions_version_comments = \<lparr> iss_title = ''Fix the Actions version comments in copilot-setup-steps.yml'', iss_milestone = ''v1.8.0'',
     iss_labels = [''ci'', ''github-actions'', ''size: S'', ''priority: low''],
     iss_body = concat [
       ''The pinned SHAs in `.github/workflows/copilot-setup-steps.yml` '',
       ''carry `# v4` and `# v5` comments but resolve to `# v6`, breaking '',
       ''the human-readable pin contract Dependabot review relies on.'' @ NL @ NL,
       ''**Acceptance**'' @ NL,
       ''- [ ] Comments match the resolved tags for the pinned SHAs''] \<rparr>"

definition issue_adopt_one_test_layout :: issue where
  "issue_adopt_one_test_layout = \<lparr> iss_title = ''Adopt one test-layout convention across the unit suite'', iss_milestone = ''v1.8.0'',
     iss_labels = [''tests'', ''size: M'', ''priority: low''],
     iss_body = concat [
       ''Unit test files mix class-grouped (`class Test*`) and flat '',
       ''function layouts, and the inconsistency appears even within a '',
       ''single directory. In `tests/unit/config_flow/`: `test_options.py` '',
       ''uses 4 classes, `test_reauth.py` uses 1, and `test_setup.py` is '',
       ''fully flat. Most unit files are class-grouped '',
       ''(`test_coordinator.py` 19, `test_unifi_client.py` 12, '',
       ''`test_entities.py` 11, `test_webhook_handler.py` 10, '',
       ''`test_models.py`/`test_services.py` 7 each, `test_init.py` 6), '',
       ''while `test_setup.py` and `test_diagnostics.py` are flat. '',
       ''Integration tests are uniformly flat, which is fine.'' @ NL @ NL,
       ''**Approach**'' @ NL,
       ''- Codify the convention in `docs/TESTING.md`: unit tests are '',
       ''grouped into `Test<BehaviourArea>` classes (the existing '',
       ''majority style); integration tests stay flat functions.'' @ NL,
       ''- Align the outliers to match: group the flat unit files '',
       ''(`tests/unit/config_flow/test_setup.py`, '',
       ''`tests/unit/test_diagnostics.py`) into behaviour classes, and '',
       ''even out `config_flow/test_reauth.py` so the directory is '',
       ''internally consistent.'' @ NL,
       ''- Pure reorganisation: do not rename, merge, or drop any test. '',
       ''Test count and coverage must be identical before and after.'' @ NL @ NL,
       ''**Out of scope:** integration tests (leave flat); any behavioural '',
       ''change.'' @ NL @ NL,
       ''**Acceptance**'' @ NL,
       ''- [ ] Convention written down in `docs/TESTING.md`'' @ NL,
       ''- [ ] No unit-test directory mixes class-grouped and flat layouts'' @ NL,
       ''- [ ] Integration tests unchanged (still flat)'' @ NL,
       ''- [ ] Collected test count and coverage identical to before''] \<rparr>"

definition issue_make_category_labels_translatable :: issue where
  "issue_make_category_labels_translatable = \<lparr> iss_title = ''Make category labels translatable'', iss_milestone = ''v1.9.0'',
     iss_labels = [''feat'', ''size: M'', ''priority: high''],
     iss_body = concat [
       ''Entity name templates already use `_attr_translation_key`, but the '',
       ''`{category}` placeholder is filled from an English-only label map '',
       ''in `const.py`, leaving entity names '',
       ''half-translated for non-English Home Assistant.'' @ NL @ NL,
       ''**Approach:** give each category its own `translation_key` so the '',
       ''label resolves through the translation layer.'' @ NL @ NL,
       ''**Acceptance**'' @ NL,
       ''- [ ] Category names resolve via translations'' @ NL,
       ''- [ ] strings.json / translations drift check passes''] \<rparr>"

definition issue_make_system_log_key :: issue where
  "issue_make_system_log_key = \<lparr> iss_title = ''Make the system-log key map self-healing'', iss_milestone = ''v1.9.0'',
     iss_labels = [''feat'', ''size: S'', ''priority: high''],
     iss_body = concat [
       ''`SYSTEM_LOG_KEY_TO_CATEGORY` is intentionally incomplete and the '',
       ''fallback enum keeps unmapped events roughly categorised, but there '',
       ''is no user-visible signal when a key is unclassified, so the map '',
       ''only improves via users who dig through DEBUG logs.'' @ NL @ NL,
       ''**Approach:** add an 'uncategorised' counter or a diagnostics '',
       ''field listing recently seen unmapped keys so every install '',
       ''passively surfaces the keys to add.'' @ NL @ NL,
       ''**Acceptance**'' @ NL,
       ''- [ ] Unclassified keys are visible without DEBUG logging'' @ NL,
       ''- [ ] Documented how to report them''] \<rparr>"

definition issue_target_python_3_14 :: issue where
  "issue_target_python_3_14 = \<lparr> iss_title = ''Target Python 3.14 across tooling and CI'', iss_milestone = ''v1.9.0'',
     iss_labels = [''ci'', ''size: S'', ''priority: high''],
     iss_body = concat [
       ''Tooling targets a Python runtime no current Home Assistant user '',
       ''runs. `pyproject.toml` sets `[tool.ruff] target-version = '',
       ''\"py312\"` and `[tool.mypy] python_version = \"3.12\"`, and every '',
       ''`setup-python` step in `.github/workflows/ci.yml` (the '',
       ''`hacs-preflight`, `lint`, and `test` jobs) pins `3.12`. Current '',
       ''Home Assistant (2026.6.x) requires Python >= 3.14, and HA '',
       ''supports only a single Python minor at a time, so lint, '',
       ''type-check, and tests should run on the version HA actually '',
       ''ships.'' @ NL @ NL,
       ''**Approach**'' @ NL,
       ''- `pyproject.toml`: set `[tool.ruff] target-version = \"py314\"` '',
       ''and `[tool.mypy] python_version = \"3.14\"`.'' @ NL,
       ''- `.github/workflows/ci.yml`: change `python-version: \"3.12\"` to '',
       ''`\"3.14\"` in the `hacs-preflight`, `lint`, and `test` jobs.'' @ NL,
       ''- Check `.github/workflows/copilot-setup-steps.yml` and '',
       ''`version-check.yml` for hard-coded `3.12` and bump to match.'' @ NL,
       ''- Run `ruff check`, `ruff format --check`, `mypy`, and `pytest` '',
       ''on 3.14 and fix any newly surfaced lint/typing findings directly '',
       ''(do NOT silence them with new `# type: ignore` / `# noqa`).'' @ NL @ NL,
       ''**Out of scope:** the `hacs.json` `homeassistant` minimum '',
       ''(2024.5.0) '' @ EM_DASH @ '' that is the minimum HA version, not the dev Python.'' @ NL @ NL,
       ''**Acceptance**'' @ NL,
       ''- [ ] ruff `target-version = \"py314\"` and mypy '',
       ''`python_version = \"3.14\"`'' @ NL,
       ''- [ ] All three CI jobs run on Python 3.14'' @ NL,
       ''- [ ] No new `# type: ignore` or `# noqa` added to pass'' @ NL,
       ''- [ ] Lint, typecheck, and full test suite green on 3.14''] \<rparr>"

definition issue_test_unifi_http_client :: issue where
  "issue_test_unifi_http_client = \<lparr> iss_title = ''Test the UniFi HTTP client at the wire with aioresponses'', iss_milestone = ''v1.9.0'',
     iss_labels = [''tests'', ''size: M'', ''priority: high''],
     iss_body = concat [
       ''`tests/unit/test_unifi_client.py` injects a bare `MagicMock()` as '',
       ''the aiohttp session and hand-builds response objects '',
       ''(`resp.json = AsyncMock(...)`, `resp.raise_for_status = '',
       ''MagicMock()`). Those doubles assert against a fabricated aiohttp '',
       ''surface, so they cannot catch real `ClientResponse` behaviour '',
       ''(status -> `raise_for_status`, content-type handling, redirects) '',
       ''and they couple the tests to the client's exact internal call '',
       ''sequence rather than to the HTTP it actually sends.'' @ NL @ NL,
       ''**Approach**'' @ NL,
       ''- Add `aioresponses` to `requirements-dev.txt`.'' @ NL,
       ''- In the `make_client` helper, pass a real `aiohttp.ClientSession` '',
       ''instead of `MagicMock()`. The constructor already takes the '',
       ''session by injection: `UniFiClient(session, base_url, config)`.'' @ NL,
       ''- Wrap each test body in `with aioresponses() as m:` and register '',
       ''the expected call, e.g. `m.get(url, status=200, payload={...})`; '',
       ''for auth-failure cases use `status=401` and let the client's real '',
       ''`raise_for_status` raise `InvalidAuthError`.'' @ NL,
       ''- Assert on the request the client MADE (URL, method, headers such '',
       ''as `X-API-Key`, JSON body) via the aioresponses request history, '',
       ''not on mock call args.'' @ NL,
       ''- Note: aioresponses patches `ClientSession._request`, so no real '',
       ''socket is opened '' @ EM_DASH @ '' this stays compatible with the pytest-socket '',
       ''loopback guard already active in the suite.'' @ NL @ NL,
       ''**Scope:** `test_unifi_client.py` only. The integration suite's '',
       ''existing HTTP stubbing in `tests/integration/conftest.py` is out '',
       ''of scope.'' @ NL @ NL,
       ''**Acceptance**'' @ NL,
       ''- [ ] `make_client` uses a real `ClientSession`; no MagicMock '',
       ''session remains in this file'' @ NL,
       ''- [ ] Success, 401, 404, and malformed-body paths are driven by '',
       ''aioresponses `status`/`payload`'' @ NL,
       ''- [ ] At least one test asserts the outbound URL, method, and '',
       ''auth header'' @ NL,
       ''- [ ] Coverage of `unifi_client.py` does not drop''] \<rparr>"

definition issue_add_severity_filtering_noisy :: issue where
  "issue_add_severity_filtering_noisy = \<lparr> iss_title = ''Add severity filtering for noisy categories'', iss_milestone = ''v1.9.0'',
     iss_labels = [''feat'', ''size: M'', ''priority: medium''],
     iss_body = concat [
       ''Noisy categories are blunt on/off toggles today. A min-severity '',
       ''option (or a consistently surfaced severity attribute automations '',
       ''can key off) makes them usable instead of muted on day one.'' @ NL @ NL,
       ''**Acceptance**'' @ NL,
       ''- [ ] Severity is filterable at the integration level'' @ NL,
       ''- [ ] Documented; CHANGELOG `[Unreleased]` updated''] \<rparr>"

definition issue_clamp_watermark_fetch_window :: issue where
  "issue_clamp_watermark_fetch_window = \<lparr> iss_title = ''Clamp the watermark fetch window'', iss_milestone = ''v1.9.0'',
     iss_labels = [''fix'', ''size: M'', ''priority: medium''],
     iss_body = concat [
       ''`since = min(watermarks)` (`coordinator.py`) lets the fetch window '',
       ''grow without bound when one category is rarely cleared, '',
       ''re-paginating the full range every poll and risking recent alarms '',
       ''being pushed past `MAX_SYSTEM_LOG_PAGES`.'' @ NL @ NL,
       ''**Approach:** clamp to `max(min(watermarks), now - lookback_cap)` '',
       ''and log when the page cap is hit.'' @ NL @ NL,
       ''**Acceptance**'' @ NL,
       ''- [ ] Fetch window is bounded under skewed clear-rates'' @ NL,
       ''- [ ] Page-cap hit is logged''] \<rparr>"

definition issue_add_probe_backoff_system :: issue where
  "issue_add_probe_backoff_system = \<lparr> iss_title = ''Add probe backoff for the system-log endpoint'', iss_milestone = ''v1.9.0'',
     iss_labels = [''fix'', ''size: S'', ''priority: medium''],
     iss_body = concat [
       ''A persistent non-404 failure makes '',
       ''`unifi_client.probe_system_log_endpoint` re-probe on every poll '',
       ''forever, doubling the request rate against a misbehaving '',
       ''endpoint.'' @ NL @ NL,
       ''**Approach:** add a transient-failure counter that caches 'legacy' '',
       ''after a threshold, with periodic re-probe.'' @ NL @ NL,
       ''**Acceptance**'' @ NL,
       ''- [ ] No permanent re-probe loop on persistent failure'' @ NL,
       ''- [ ] Capable controllers still detected''] \<rparr>"

definition issue_localise_remaining_inline_strings :: issue where
  "issue_localise_remaining_inline_strings = \<lparr> iss_title = ''Localise the remaining inline strings'', iss_milestone = ''v1.9.0'',
     iss_labels = [''enhancement'', ''size: S'', ''priority: medium''],
     iss_body = concat [
       ''`'No alerts yet'` (`sensor.py`) is returned in code with no '',
       ''translation key, and some config descriptions carry meaning via '',
       ''emoji and em-dashes.'' @ NL @ NL,
       ''**Approach:** move the state string to a translation key; replace '',
       ''emoji/em-dash-carried meaning with plain-text prefixes so meaning '',
       ''survives translation and screen readers.'' @ NL @ NL,
       ''**Acceptance**'' @ NL,
       ''- [ ] No user-facing English string hard-coded in platform files'' @ NL,
       ''- [ ] Meaning does not depend on an emoji glyph''] \<rparr>"

definition issue_clarify_multi_controller_setup :: issue where
  "issue_clarify_multi_controller_setup = \<lparr> iss_title = ''Clarify the multi-controller setup in the docs'', iss_milestone = ''v1.9.0'',
     iss_labels = [''documentation'', ''size: S'', ''priority: medium''],
     iss_body = concat [
       ''Multi-entry is supported and a `site` field exists, but the '',
       ''multi-controller / multi-site story is undocumented and the `site` '',
       ''field's role is unclear.'' @ NL @ NL,
       ''**Approach:** document the pattern and clarify the field. Defer '',
       ''full per-category site config (parked, low value).'' @ NL @ NL,
       ''**Acceptance**'' @ NL,
       ''- [ ] README explains multi-controller setup and the site field''] \<rparr>"

definition issue_lint_format_check_type :: issue where
  "issue_lint_format_check_type = \<lparr> iss_title = ''Lint, format-check, and type the tests/ tree in CI'', iss_milestone = ''v1.9.0'',
     iss_labels = [''ci'', ''tests'', ''size: S'', ''priority: medium''],
     iss_body = concat [
       ''CI enforces style and types on `custom_components/` only. The '',
       ''`lint` job runs `ruff check custom_components/`, '',
       ''`ruff format --check custom_components/`, and '',
       ''`mypy custom_components/unifi_alerts`; `pytest` runs the tests but '',
       ''nothing holds the `tests/` tree to the same bar. `pyproject.toml` '',
       ''already defines a `[tool.ruff.lint.per-file-ignores]` entry for '',
       ''`tests/*` (allowing `assert`), so the intent to lint tests '',
       ''exists '' @ EM_DASH @ '' CI just never acts on it. This is the root cause of '',
       ''style/structure drift across test files.'' @ NL @ NL,
       ''**Approach**'' @ NL,
       ''- In `.github/workflows/ci.yml` `lint` job, widen the ruff steps '',
       ''to cover tests: `ruff check custom_components/ tests/` and '',
       ''`ruff format --check custom_components/ tests/` (or just `.`).'' @ NL,
       ''- Run `ruff check`/`ruff format` over `tests/` locally first and '',
       ''commit the fixups in the same PR so CI starts green.'' @ NL,
       ''- mypy on tests is optional and often low-value (heavy mock usage '',
       ''fights strict typing). If added, scope it loosely '' @ EM_DASH @ '' do NOT extend '',
       ''`strict = true` to tests; a separate relaxed override or simply '',
       ''leaving tests untyped is acceptable. Record the decision in the '',
       ''PR.'' @ NL @ NL,
       ''**Acceptance**'' @ NL,
       ''- [ ] `ruff check` and `ruff format --check` run over `tests/` in '',
       ''CI'' @ NL,
       ''- [ ] Existing tests reformatted/fixed so the job passes'' @ NL,
       ''- [ ] mypy-on-tests decision made and recorded (in or out)''] \<rparr>"

definition issue_add_unicode_large_volume :: issue where
  "issue_add_unicode_large_volume = \<lparr> iss_title = ''Add unicode and large-volume round-trip tests'', iss_milestone = ''v1.9.0'',
     iss_labels = [''tests'', ''size: S'', ''priority: low''],
     iss_body = concat [
       ''Assert non-ASCII alert text (emoji, CJK, RTL) and 300-character '',
       ''strings survive parse -> store -> restore and 255-character '',
       ''truncation, and that a roughly 500-alert batch keeps counts and '',
       ''watermark filtering deterministic.'' @ NL @ NL,
       ''**Acceptance**'' @ NL,
       ''- [ ] Unicode round-trip test added'' @ NL,
       ''- [ ] Large-batch determinism test added''] \<rparr>"

definition issue_add_coverage_measurement_ci :: issue where
  "issue_add_coverage_measurement_ci = \<lparr> iss_title = ''Add coverage measurement in CI'', iss_milestone = ''v1.9.0'',
     iss_labels = [''ci'', ''size: S'', ''priority: low''],
     iss_body = concat [
       ''There is no `--cov` reporting, so thin-test regressions are '',
       ''invisible until they bite. Add coverage reporting (not '',
       ''necessarily a gate).'' @ NL @ NL,
       ''**Acceptance**'' @ NL,
       ''- [ ] Coverage reported in the test job''] \<rparr>"

definition issue_pin_dev_dependencies_reproducible :: issue where
  "issue_pin_dev_dependencies_reproducible = \<lparr> iss_title = ''Pin dev dependencies for reproducible CI'', iss_milestone = ''v1.9.0'',
     iss_labels = [''ci'', ''dependencies'', ''size: M'', ''priority: low''],
     iss_body = concat [
       ''`requirements-dev.txt` floats `homeassistant`, `ruff`, `mypy`, and '',
       ''`pytest`, making CI and local `make check` non-reproducible.'' @ NL @ NL,
       ''**Approach (maintainer call):** decide whether a hashed '',
       ''constraints file is warranted without enabling the pip Dependabot '',
       ''ecosystem.'' @ NL @ NL,
       ''**Acceptance**'' @ NL,
       ''- [ ] Decision recorded; pinning added if adopted''] \<rparr>"

definition issue_fold_pytest_ini_pyproject :: issue where
  "issue_fold_pytest_ini_pyproject = \<lparr> iss_title = ''Fold pytest.ini into pyproject [tool.pytest.ini_options]'', iss_milestone = ''v1.9.0'',
     iss_labels = [''ci'', ''size: S'', ''priority: low''],
     iss_body = concat [
       ''Pytest config lives in a standalone `pytest.ini` while ruff, '',
       ''mypy, and coverage config live in `pyproject.toml`. Moving to a '',
       ''single source of truth removes one root file and the chance of '',
       ''the two drifting.'' @ NL @ NL,
       ''**Approach**'' @ NL,
       ''- Recreate every key from `pytest.ini` under a new '',
       ''`[tool.pytest.ini_options]` table in `pyproject.toml`: '',
       ''`asyncio_mode`, `asyncio_default_fixture_loop_scope`, `testpaths`, '',
       ''`pythonpath`, `python_files`, `python_classes`, '',
       ''`python_functions`, `addopts`, `filterwarnings`, `markers`. '',
       ''`filterwarnings` and `markers` become TOML arrays of strings.'' @ NL,
       ''- Delete `pytest.ini`.'' @ NL,
       ''- Confirm pytest discovers the same tests and the `integration` '',
       ''marker still resolves.'' @ NL @ NL,
       ''**Leave as-is:** the split `requirements-dev.txt` / '',
       ''`requirements-lint.txt`. A lint-only env that skips the HA stack '',
       ''is a deliberate speed win, not drift.'' @ NL @ NL,
       ''**Acceptance**'' @ NL,
       ''- [ ] All pytest config lives in `pyproject.toml`'' @ NL,
       ''- [ ] `pytest.ini` removed'' @ NL,
       ''- [ ] Same collected test count as before; `-m integration` still '',
       ''selects the integration tests''] \<rparr>"

definition issue_collapse_repetitive_test_bodies :: issue where
  "issue_collapse_repetitive_test_bodies = \<lparr> iss_title = ''Collapse repetitive test bodies with parametrize'', iss_milestone = ''v1.9.0'',
     iss_labels = [''tests'', ''size: M'', ''priority: low''],
     iss_body = concat [
       ''Parametrize is used well where it counts (the `_classify` mapping '',
       ''table in `test_unifi_client.py`) and the factory helpers '',
       ''(`make_client`, `make_coordinator`, `make_alert`) keep setup DRY, '',
       ''but the two largest files '' @ EM_DASH @ '' `test_coordinator.py` (~84 tests) and '',
       ''`test_entities.py` (~80 tests) '' @ EM_DASH @ '' still carry near-duplicate test '',
       ''bodies that differ only by input and expected value.'' @ NL @ NL,
       ''**Approach**'' @ NL,
       ''- Find clusters of tests that share a body and vary only in '',
       ''inputs/expectations; fold each cluster into one '',
       ''`@pytest.mark.parametrize` with an `ids=` list so failures stay '',
       ''readable.'' @ NL,
       ''- Do NOT merge tests that assert genuinely different behaviour or '',
       ''that would need an `if` inside the body '' @ EM_DASH @ '' splitting beats a '',
       ''parametrize with branching.'' @ NL,
       ''- Pure refactor: the number of logical assertions and the '',
       ''coverage figure should be unchanged.'' @ NL @ NL,
       ''**Acceptance**'' @ NL,
       ''- [ ] Duplicate bodies in the two files collapsed where it '',
       ''improves clarity'' @ NL,
       ''- [ ] Every parametrized case has a readable `ids` entry'' @ NL,
       ''- [ ] Coverage of the affected modules is unchanged'' @ NL,
       ''- [ ] No behavioural test was silently dropped''] \<rparr>"

definition issue_submit_integration_hacs_default :: issue where
  "issue_submit_integration_hacs_default = \<lparr> iss_title = ''Submit the integration to the HACS default catalogue'', iss_milestone = ''v2.0.0'',
     iss_labels = [''documentation'', ''size: M'', ''priority: high''],
     iss_body = concat [
       ''Umbrella issue for the HACS default submission. Gated on all '',
       ''`v2.0-gate` issues (raw-payload persistence, retention statement, '',
       ''Alarm Manager onboarding docs) and the localisation-maturity work '',
       ''being complete.'' @ NL @ NL,
       ''**Acceptance**'' @ NL,
       ''- [ ] All `v2.0-gate` issues closed'' @ NL,
       ''- [ ] PR opened against https://github.com/hacs/default''] \<rparr>"

definition ISSUES :: "issue list" where
  "ISSUES = [
     issue_stop_persisting_raw_alert,
     issue_fix_stale_alert_received,
     issue_add_per_category_webhook,
     issue_coalesce_watermark_persistence_surface,
     issue_consolidate_alert_classification_single,
     issue_extract_controller_auth_dedicated,
     issue_add_end_end_secret,
     issue_catch_invalidautherror_re_auth,
     issue_harden_render_message_raw,
     issue_define_empty_or_malformed,
     issue_clarify_retention_data_handling,
     issue_complete_alarm_manager_onboarding,
     issue_disable_redirect_following_authenticated,
     issue_length_validate_inbound_key,
     issue_document_diagnostics_content_exclusion,
     issue_optional_host_guard_controller,
     issue_reconcile_docs_repo_layout,
     issue_fix_actions_version_comments,
     issue_adopt_one_test_layout,
     issue_make_category_labels_translatable,
     issue_make_system_log_key,
     issue_target_python_3_14,
     issue_test_unifi_http_client,
     issue_add_severity_filtering_noisy,
     issue_clamp_watermark_fetch_window,
     issue_add_probe_backoff_system,
     issue_localise_remaining_inline_strings,
     issue_clarify_multi_controller_setup,
     issue_lint_format_check_type,
     issue_add_unicode_large_volume,
     issue_add_coverage_measurement_ci,
     issue_pin_dev_dependencies_reproducible,
     issue_fold_pytest_ini_pyproject,
     issue_collapse_repetitive_test_bodies,
     issue_submit_integration_hacs_default]"

lemmas issue_defs =
  issue_stop_persisting_raw_alert_def
  issue_fix_stale_alert_received_def
  issue_add_per_category_webhook_def
  issue_coalesce_watermark_persistence_surface_def
  issue_consolidate_alert_classification_single_def
  issue_extract_controller_auth_dedicated_def
  issue_add_end_end_secret_def
  issue_catch_invalidautherror_re_auth_def
  issue_harden_render_message_raw_def
  issue_define_empty_or_malformed_def
  issue_clarify_retention_data_handling_def
  issue_complete_alarm_manager_onboarding_def
  issue_disable_redirect_following_authenticated_def
  issue_length_validate_inbound_key_def
  issue_document_diagnostics_content_exclusion_def
  issue_optional_host_guard_controller_def
  issue_reconcile_docs_repo_layout_def
  issue_fix_actions_version_comments_def
  issue_adopt_one_test_layout_def
  issue_make_category_labels_translatable_def
  issue_make_system_log_key_def
  issue_target_python_3_14_def
  issue_test_unifi_http_client_def
  issue_add_severity_filtering_noisy_def
  issue_clamp_watermark_fetch_window_def
  issue_add_probe_backoff_system_def
  issue_localise_remaining_inline_strings_def
  issue_clarify_multi_controller_setup_def
  issue_lint_format_check_type_def
  issue_add_unicode_large_volume_def
  issue_add_coverage_measurement_ci_def
  issue_pin_dev_dependencies_reproducible_def
  issue_fold_pytest_ini_pyproject_def
  issue_collapse_repetitive_test_bodies_def
  issue_submit_integration_hacs_default_def

end
