(* ===== verification/RepoScripts.thy ===== *)
theory RepoScripts
  imports PyRegex Backlog
begin

section \<open>Smaller repository scripts\<close>

text \<open>
  \<^verbatim>\<open>scripts/seed_issues.py\<close> (labels, milestones and issues of the backlog, created through the
  GitHub command line), \<^verbatim>\<open>scripts/check_agentrc_refs.py\<close>, \<^verbatim>\<open>scripts/check_translations.py\<close>,
  \<^verbatim>\<open>scripts/run_lint.py\<close>, \<^verbatim>\<open>scripts/run_typecheck.py\<close> and \<^verbatim>\<open>scripts/_console.py\<close>. A command is a parameter: a function from
  its arguments and the world to its output (\<open>None\<close> for a non-zero exit) and the new world; a run
  keeps the commands it executed, newest first.
\<close>

subsection \<open>The backlog\<close>

definition LABELS :: "(string \<times> string \<times> string) list" where
  "LABELS = [
    (''security'', ''b60205'', ''Security-related changes (vulnerabilities, hardening)''),
    (''feat'', ''a2eeef'', ''New feature or capability''),
    (''enhancement'', ''a2eeef'', ''New feature or capability (GitHub default alias)''),
    (''fix'', ''d73a4a'', ''Bug fix or correctness change''),
    (''bug'', ''d73a4a'', ''Confirmed defect (GitHub default alias)''),
    (''tests'', ''bfdadc'', ''Test changes (additions, refactors, fixtures)''),
    (''ci'', ''ededed'', ''CI, build, tooling, or release-pipeline changes''),
    (''documentation'', ''0075ca'', ''Documentation and process changes''),
    (''github-actions'', ''000000'', ''GitHub Actions workflow or pinned-action changes''),
    (''dependencies'', ''0366d6'', ''Dependency bumps and pinning''),
    (''size: S'', ''c2e0c6'', ''Small: a single-sitting change''),
    (''size: M'', ''fef2c0'', ''Medium: a focused piece of work''),
    (''size: L'', ''f9d0c4'', ''Large: may need decomposition''),
    (''priority: high'', ''d93f0b'', ''Do first within its milestone''),
    (''priority: medium'', ''fbca04'', ''Standard priority''),
    (''priority: low'', ''0e8a16'', ''Guardrail or nice-to-have''),
    (''v2.0-gate'', ''5319e7'', ''Prerequisite for the HACS default catalogue submission'')]"

definition MILESTONES :: "(string \<times> string) list" where
  "MILESTONES = [
    (''v1.8.0'',
      ''Trust and Hardening: correctness, privacy, security, and onboarding-confidence work on the road to v2.0.''),
    (''v1.9.0'',
      ''Localisation and Scale: i18n readiness, efficiency under load, and capability work on the road to v2.0.''),
    (''v2.0.0'',
      ''HACS default catalogue submission. Gated on the v2.0-gate issues carried in the v1.8.0 and v1.9.0 milestones.'')]"

subsection \<open>Running the GitHub command line\<close>

type_synonym 'w command = "string list \<Rightarrow> 'w \<Rightarrow> string option \<times> 'w"

record 'w gh_run =
  gr_world :: 'w
  gr_sent :: "string list list"

definition run_gh :: "'w command \<Rightarrow> bool \<Rightarrow> bool \<Rightarrow> string list \<Rightarrow> ('w gh_run, string) act" where
  "run_gh gh dry_run capture args s =
     (if dry_run \<and> \<not> capture then (Inr [], s)
      else case gh args (gr_world s) of (out, w) \<Rightarrow>
        let s' = s\<lparr>gr_world := w, gr_sent := args # gr_sent s\<rparr>
        in case out of None \<Rightarrow> (Inl CalledProcessError, s') | Some text \<Rightarrow> (Inr (if capture then text else []), s'))"

definition repo_view :: "string list" where
  "repo_view = [''repo'', ''view'', ''--json'', ''nameWithOwner'', ''-q'', ''.nameWithOwner'']"

definition list_labels :: "string \<Rightarrow> string list" where
  "list_labels repo = [''label'', ''list'', ''--repo'', repo, ''--limit'', ''300'', ''--json'', ''name'']"

definition list_milestones :: "string \<Rightarrow> string list" where
  "list_milestones repo = [''api'', ''repos/'' @ repo @ ''/milestones'', ''--paginate'', ''--jq'', ''.[].title'']"

definition list_issues :: "string \<Rightarrow> string list" where
  "list_issues repo = [''issue'', ''list'', ''--repo'', repo, ''--state'', ''all'', ''--limit'', ''400'', ''--json'', ''title'']"

text \<open>\<^verbatim>\<open>{item[key] for item in json.loads(out or "[]")}\<close>; a list or a dictionary cannot be an element.\<close>

definition py_hashable :: "pyval \<Rightarrow> exn + unit" where
  "py_hashable v = (case v of PList xs \<Rightarrow> Inl TypeError | PDict d \<Rightarrow> Inl TypeError | _ \<Rightarrow> Inr ())"

definition json_names :: "(string \<Rightarrow> exn + pyval) \<Rightarrow> string \<Rightarrow> string \<Rightarrow> exn + pyval list" where
  "json_names loads key out =
     bindE (loads (if out = [] then ''[]'' else out)) (\<lambda>v.
     bindE (py_iter v) (mapE (\<lambda>item. case item of
        PDict d \<Rightarrow> (case map_of d key of Some x \<Rightarrow> bindE (py_hashable x) (\<lambda>_. Inr x) | None \<Rightarrow> Inl KeyError) | _ \<Rightarrow> Inl TypeError)))"

definition detect_repo :: "'w command \<Rightarrow> ('w gh_run, string) act" where
  "detect_repo gh = bindS (run_gh gh False True repo_view) (\<lambda>out. returnS (strip out))"

definition existing_labels :: "'w command \<Rightarrow> (string \<Rightarrow> exn + pyval) \<Rightarrow> string \<Rightarrow> ('w gh_run, pyval list) act" where
  "existing_labels gh loads repo = bindS (run_gh gh False True (list_labels repo)) (\<lambda>out. liftS (json_names loads ''name'' out))"

definition existing_milestones :: "'w command \<Rightarrow> string \<Rightarrow> ('w gh_run, pyval list) act" where
  "existing_milestones gh repo = bindS (run_gh gh False True (list_milestones repo)) (\<lambda>out.
     returnS (map PStr (filter (\<lambda>line. line \<noteq> []) (splitlines out))))"

definition existing_issue_titles :: "'w command \<Rightarrow> (string \<Rightarrow> exn + pyval) \<Rightarrow> string \<Rightarrow> ('w gh_run, pyval list) act" where
  "existing_issue_titles gh loads repo = bindS (run_gh gh False True (list_issues repo)) (\<lambda>out. liftS (json_names loads ''title'' out))"

definition create_label :: "string \<Rightarrow> string \<times> string \<times> string \<Rightarrow> string list" where
  "create_label repo l = (case l of (name, color, desc) \<Rightarrow>
     [''label'', ''create'', name, ''--repo'', repo, ''--color'', color, ''--description'', desc])"

definition create_milestone :: "string \<Rightarrow> string \<times> string \<Rightarrow> string list" where
  "create_milestone repo m = (case m of (title, desc) \<Rightarrow>
     [''api'', ''repos/'' @ repo @ ''/milestones'', ''-f'', ''title='' @ title, ''-f'', ''description='' @ desc])"

definition create_issue :: "string \<Rightarrow> issue \<Rightarrow> string list" where
  "create_issue repo i =
     [''issue'', ''create'', ''--repo'', repo, ''--title'', iss_title i, ''--body'', iss_body i, ''--milestone'', iss_milestone i]
     @ concat (map (\<lambda>label. [''--label'', label]) (iss_labels i))"

text \<open>The loop that the three functions \<^verbatim>\<open>ensure_labels\<close>, \<^verbatim>\<open>ensure_milestones\<close> and
  \<^verbatim>\<open>ensure_issues\<close> share: what is present is skipped, the rest created.\<close>

definition ensure :: "'w command \<Rightarrow> bool \<Rightarrow> ('a \<Rightarrow> string list) \<Rightarrow> pyval list \<Rightarrow> (string \<times> 'a) list \<Rightarrow> ('w gh_run, unit) act" where
  "ensure gh dry_run create present items = forS items (\<lambda>(name, item).
     whenS (PStr name \<notin> set present) (bindS (run_gh gh dry_run False (create item)) (\<lambda>_. returnS ())))"

definition keyed :: "('a \<Rightarrow> string) \<Rightarrow> 'a list \<Rightarrow> (string \<times> 'a) list" where
  "keyed key items = map (\<lambda>item. (key item, item)) items"

definition ensure_labels :: "'w command \<Rightarrow> bool \<Rightarrow> string \<Rightarrow> pyval list \<Rightarrow> ('w gh_run, unit) act" where
  "ensure_labels gh dry_run repo present = ensure gh dry_run (create_label repo) present (keyed fst LABELS)"

definition ensure_milestones :: "'w command \<Rightarrow> bool \<Rightarrow> string \<Rightarrow> pyval list \<Rightarrow> ('w gh_run, unit) act" where
  "ensure_milestones gh dry_run repo present = ensure gh dry_run (create_milestone repo) present (keyed fst MILESTONES)"

definition ensure_issues :: "'w command \<Rightarrow> bool \<Rightarrow> string \<Rightarrow> pyval list \<Rightarrow> ('w gh_run, unit) act" where
  "ensure_issues gh dry_run repo present = ensure gh dry_run (create_issue repo) present (keyed iss_title ISSUES)"

text \<open>\<^verbatim>\<open>main\<close>; \<open>installed\<close> is whether \<^verbatim>\<open>gh --version\<close> succeeds.\<close>

definition seed_main ::
    "'w command \<Rightarrow> (string \<Rightarrow> exn + pyval) \<Rightarrow> bool \<Rightarrow> string option \<Rightarrow> bool \<Rightarrow> ('w gh_run, nat) act" where
  "seed_main gh loads installed repo_arg dry_run =
     (if \<not> installed then returnS 1
      else bindS (case repo_arg of Some r \<Rightarrow> if r = [] then detect_repo gh else returnS r | None \<Rightarrow> detect_repo gh) (\<lambda>repo.
        bindS (existing_labels gh loads repo) (\<lambda>labels.
        bindS (ensure_labels gh dry_run repo labels) (\<lambda>_.
        bindS (existing_milestones gh repo) (\<lambda>milestones.
        bindS (ensure_milestones gh dry_run repo milestones) (\<lambda>_.
        bindS (existing_issue_titles gh loads repo) (\<lambda>titles.
        bindS (ensure_issues gh dry_run repo titles) (\<lambda>_.
        returnS 0))))))))"

subsection \<open>What a run sends\<close>

text \<open>The world after a list of commands.\<close>

definition world_after :: "'w command \<Rightarrow> string list list \<Rightarrow> 'w \<Rightarrow> 'w" where
  "world_after gh cmds w = fold (\<lambda>args w. snd (gh args w)) cmds w"

text \<open>An action that, from a world \<open>w\<close>, sends the commands \<open>plan w\<close> and returns \<open>result w\<close>, or sends the
  beginning of them and raises.\<close>

definition sends :: "'w command \<Rightarrow> ('w gh_run, 'a) act \<Rightarrow> ('w \<Rightarrow> string list list) \<Rightarrow> ('w \<Rightarrow> 'a) \<Rightarrow> bool" where
  "sends gh m plan result \<longleftrightarrow> (\<forall>s. \<exists>sofar. prefix sofar (plan (gr_world s)) \<and>
     snd (m s) = \<lparr> gr_world = world_after gh sofar (gr_world s), gr_sent = rev sofar @ gr_sent s \<rparr> \<and>
     (case fst (m s) of Inl e \<Rightarrow> True | Inr x \<Rightarrow> sofar = plan (gr_world s) \<and> x = result (gr_world s)))"

lemma sends_D:
  assumes "sends gh m plan result"
  obtains sofar where "prefix sofar (plan (gr_world s))"
    "snd (m s) = \<lparr> gr_world = world_after gh sofar (gr_world s), gr_sent = rev sofar @ gr_sent s \<rparr>"
    "case fst (m s) of Inl e \<Rightarrow> True | Inr x \<Rightarrow> sofar = plan (gr_world s) \<and> x = result (gr_world s)"
  using assms unfolding sends_def by blast

lemma sends_bind:
  fixes gh :: "'w command"
  assumes "sends gh m plan result" "\<And>x. sends gh (f x) (plan' x) (result' x)"
  shows "sends gh (bindS m f) (\<lambda>w. plan w @ plan' (result w) (world_after gh (plan w) w))
           (\<lambda>w. result' (result w) (world_after gh (plan w) w))"
  unfolding sends_def
proof
  fix s :: "'w gh_run"
  let ?w = "gr_world s"
  obtain d where d: "prefix d (plan ?w)"
    "snd (m s) = \<lparr> gr_world = world_after gh d ?w, gr_sent = rev d @ gr_sent s \<rparr>"
    "case fst (m s) of Inl e \<Rightarrow> True | Inr x \<Rightarrow> d = plan ?w \<and> x = result ?w" using sends_D [OF assms(1)] .
  show "\<exists>sofar. prefix sofar (plan ?w @ plan' (result ?w) (world_after gh (plan ?w) ?w)) \<and>
      snd (bindS m f s) = \<lparr> gr_world = world_after gh sofar ?w, gr_sent = rev sofar @ gr_sent s \<rparr> \<and>
      (case fst (bindS m f s) of Inl e \<Rightarrow> True | Inr x \<Rightarrow>
         sofar = plan ?w @ plan' (result ?w) (world_after gh (plan ?w) ?w) \<and> x = result' (result ?w) (world_after gh (plan ?w) ?w))"
  proof (cases "fst (m s)")
    case (Inl e)
    with d show ?thesis by (cases "m s") (auto simp: bindS_def prefix_def)
  next
    case (Inr x)
    with d have m: "m s = (Inr (result ?w), snd (m s))" and d': "d = plan ?w" by (cases "m s"; simp)+
    obtain d2 where "prefix d2 (plan' (result ?w) (gr_world (snd (m s))))"
      "snd (f (result ?w) (snd (m s))) = \<lparr> gr_world = world_after gh d2 (gr_world (snd (m s))), gr_sent = rev d2 @ gr_sent (snd (m s)) \<rparr>"
      "case fst (f (result ?w) (snd (m s))) of Inl e \<Rightarrow> True
        | Inr y \<Rightarrow> d2 = plan' (result ?w) (gr_world (snd (m s))) \<and> y = result' (result ?w) (gr_world (snd (m s)))"
      using sends_D [OF assms(2)] .
    moreover have "bindS m f s = f (result ?w) (snd (m s))" by (subst bindS_def, subst m) simp
    ultimately show ?thesis
      by (intro exI [of _ "plan ?w @ d2"]) (simp add: d(2) d' world_after_def split: sum.splits)
  qed
qed

lemma sends_basic: "sends gh (returnS x) (\<lambda>_. []) (\<lambda>_. x)"
  by (auto simp: sends_def returnS_def world_after_def)

lemma sends_lift: "sends gh (liftS r) (\<lambda>_. []) (\<lambda>_. case r of Inl e \<Rightarrow> d | Inr x \<Rightarrow> x)"
  by (auto simp: sends_def liftS_def world_after_def split: sum.split)

lemma sends_gh: "sends gh (run_gh gh dry_run capture args) (\<lambda>_. if dry_run \<and> \<not> capture then [] else [args])
    (\<lambda>w. if capture then (case fst (gh args w) of None \<Rightarrow> [] | Some out \<Rightarrow> out) else [])"
  by (auto simp: sends_def run_gh_def Let_def world_after_def split: prod.splits option.splits)

lemma sends_cong: "sends gh m plan result \<Longrightarrow> plan = plan' \<Longrightarrow> result = result' \<Longrightarrow> sends gh m plan' result'"
  by simp

definition missing :: "('a \<Rightarrow> string) \<Rightarrow> pyval list \<Rightarrow> 'a list \<Rightarrow> 'a list" where
  "missing key present items = filter (\<lambda>item. PStr (key item) \<notin> set present) items"

lemma sends_ensure:
  "sends gh (ensure gh dry_run create present (keyed key items))
     (\<lambda>_. if dry_run then [] else map create (missing key present items)) (\<lambda>_. ())"
proof (induction items)
  case Nil
  then show ?case by (auto simp: ensure_def keyed_def missing_def sends_def world_after_def)
next
  case (Cons item items)
  let ?do = "whenS (PStr (key item) \<notin> set present) (bindS (run_gh gh dry_run False (create item)) (\<lambda>_. returnS ()))"
  let ?one = "if dry_run \<or> PStr (key item) \<in> set present then [] else [create item]"
  have one: "sends gh ?do (\<lambda>_. ?one) (\<lambda>_. ())"
  proof (cases "PStr (key item) \<in> set present")
    case True
    then show ?thesis by (simp add: whenS_def sends_basic)
  next
    case False
    then show ?thesis by (auto simp: whenS_def intro!: sends_cong [OF sends_bind [OF sends_gh sends_basic]])
  qed
  have run: "ensure gh dry_run create present (keyed key (item # items)) =
    bindS ?do (\<lambda>_. ensure gh dry_run create present (keyed key items))"
    by (rule ext) (simp add: ensure_def keyed_def bindS_def split: prod.split sum.split)
  show ?case unfolding run by (rule sends_cong [OF sends_bind [OF one Cons.IH]]) (auto simp: missing_def)
qed

text \<open>What the listings hold. A listing that fails ends the run, so what is said of it then does not matter.\<close>

definition listed :: "'w command \<Rightarrow> (string \<Rightarrow> exn + pyval) \<Rightarrow> string \<Rightarrow> string list \<Rightarrow> 'w \<Rightarrow> pyval list" where
  "listed gh loads key args w =
     (case json_names loads key (case fst (gh args w) of None \<Rightarrow> [] | Some out \<Rightarrow> out) of Inl e \<Rightarrow> [] | Inr names \<Rightarrow> names)"

definition listed_milestones :: "'w command \<Rightarrow> string \<Rightarrow> 'w \<Rightarrow> pyval list" where
  "listed_milestones gh repo w = map PStr (filter (\<lambda>line. line \<noteq> [])
     (splitlines (case fst (gh (list_milestones repo) w) of None \<Rightarrow> [] | Some out \<Rightarrow> out)))"

text \<open>The commands of one part of a run: a listing, then the creation of what it does not hold.\<close>

definition top_up :: "bool \<Rightarrow> string list \<Rightarrow> ('a \<Rightarrow> string list) \<Rightarrow> ('a \<Rightarrow> string) \<Rightarrow> 'a list \<Rightarrow> ('w \<Rightarrow> pyval list) \<Rightarrow> 'w \<Rightarrow> string list list" where
  "top_up dry_run listing create key items present w =
     listing # (if dry_run then [] else map create (missing key (present w) items))"

definition seed_plan :: "'w command \<Rightarrow> (string \<Rightarrow> exn + pyval) \<Rightarrow> bool \<Rightarrow> string \<Rightarrow> 'w \<Rightarrow> string list list" where
  "seed_plan gh loads dry_run repo w =
     (let labels = top_up dry_run (list_labels repo) (create_label repo) fst LABELS (listed gh loads ''name'' (list_labels repo)) w;
          w1 = world_after gh labels w;
          milestones = top_up dry_run (list_milestones repo) (create_milestone repo) fst MILESTONES (listed_milestones gh repo) w1;
          w2 = world_after gh milestones w1
      in labels @ milestones @
         top_up dry_run (list_issues repo) (create_issue repo) iss_title ISSUES (listed gh loads ''title'' (list_issues repo)) w2)"

lemma sends_listed: "sends gh (bindS (run_gh gh False True args) (\<lambda>out. liftS (json_names loads key out))) (\<lambda>_. [args]) (listed gh loads key args)"
  by (rule sends_cong [OF sends_bind [OF sends_gh sends_lift [where d = "[]"]]]) (auto simp: listed_def)

lemma sends_milestones: "sends gh (existing_milestones gh repo) (\<lambda>_. [list_milestones repo]) (listed_milestones gh repo)"
  unfolding existing_milestones_def
  by (rule sends_cong [OF sends_bind [OF sends_gh sends_basic]]) (auto simp: listed_milestones_def)

lemma sends_part:
  assumes "sends gh m (\<lambda>_. [listing]) present" "sends gh rest plan result"
  shows "sends gh (bindS m (\<lambda>x. bindS (ensure gh dry_run create x (keyed key items)) (\<lambda>_. rest)))
    (\<lambda>w. let part = top_up dry_run listing create key items present w in part @ plan (world_after gh part w))
    (\<lambda>w. result (world_after gh (top_up dry_run listing create key items present w) w))"
  by (rule sends_cong [OF sends_bind [OF assms(1) sends_bind [OF sends_ensure assms(2)]]])
    (auto simp: top_up_def Let_def world_after_def)

text \<open>C40: a run against a given repository lists the labels, milestones and issues and creates exactly those
  its listings do not hold, each once, in the order of the tables, labels before milestones before issues, each
  listing taken after the creations before it; a run that fails has done the beginning of that, and a dry run
  only lists.\<close>

theorem seed_tops_up:
  "case seed_main gh loads True (Some (c # repo)) dry_run \<lparr> gr_world = w, gr_sent = [] \<rparr> of (r, s') \<Rightarrow>
     let plan = seed_plan gh loads dry_run (c # repo) w in
     prefix (rev (gr_sent s')) plan \<and> (case r of Inl e \<Rightarrow> True | Inr code \<Rightarrow> code = 0 \<and> rev (gr_sent s') = plan)"
proof -
  let ?repo = "c # repo" and ?s = "\<lparr> gr_world = w, gr_sent = [] \<rparr>"
  note labels = sends_listed [of gh "list_labels ?repo" loads "''name''", folded existing_labels_def]
  note titles = sends_listed [of gh "list_issues ?repo" loads "''title''", folded existing_issue_titles_def]
  note run = sends_part [OF labels sends_part [OF sends_milestones sends_part [OF titles sends_basic [where x = "0 :: nat"]]]]
  have "seed_main gh loads True (Some ?repo) dry_run =
    bindS (existing_labels gh loads ?repo) (\<lambda>labels. bindS (ensure_labels gh dry_run ?repo labels) (\<lambda>_.
    bindS (existing_milestones gh ?repo) (\<lambda>milestones. bindS (ensure_milestones gh dry_run ?repo milestones) (\<lambda>_.
    bindS (existing_issue_titles gh loads ?repo) (\<lambda>titles. bindS (ensure_issues gh dry_run ?repo titles) (\<lambda>_. returnS 0))))))"
    by (rule ext) (simp add: seed_main_def bindS_def [of "returnS _"] returnS_def)
  then have "sends gh (seed_main gh loads True (Some ?repo) dry_run) (seed_plan gh loads dry_run ?repo) (\<lambda>_. 0)"
    unfolding ensure_labels_def ensure_milestones_def ensure_issues_def
    by (simp only:) (rule sends_cong [OF run], auto simp: seed_plan_def Let_def)
  then obtain sofar where sofar: "prefix sofar (seed_plan gh loads dry_run ?repo (gr_world ?s))"
    "snd (seed_main gh loads True (Some ?repo) dry_run ?s)
      = \<lparr> gr_world = world_after gh sofar (gr_world ?s), gr_sent = rev sofar @ gr_sent ?s \<rparr>"
    "case fst (seed_main gh loads True (Some ?repo) dry_run ?s) of Inl e \<Rightarrow> True
       | Inr x \<Rightarrow> sofar = seed_plan gh loads dry_run ?repo (gr_world ?s) \<and> x = 0" by (rule sends_D)
  obtain r s' where "seed_main gh loads True (Some ?repo) dry_run ?s = (r, s')" by (rule prod.exhaust)
  with sofar show ?thesis by (cases r) (simp_all add: Let_def)
qed

text \<open>Every label and milestone an issue refers to is one the script creates.\<close>

lemma backlog_closed: "list_all (\<lambda>i. iss_milestone i \<in> set (map fst MILESTONES) \<and> set (iss_labels i) \<subseteq> set (map fst LABELS)) ISSUES"
  by (simp only: ISSUES_def issue_defs list.pred_inject issue.simps) code_simp

lemma backlog_distinct: "distinct (map fst LABELS)" "distinct (map fst MILESTONES)" "distinct (map iss_title ISSUES)"
  by code_simp (code_simp, simp only: ISSUES_def issue_defs list.map issue.simps, code_simp)

text \<open>Every issue has one size and one priority, and the issues that gate the submission are carried by the
  milestones before it, as the description of the last milestone says.\<close>

definition one_label :: "string \<Rightarrow> issue \<Rightarrow> bool" where
  "one_label kind i \<longleftrightarrow> length (filter (prefix kind) (iss_labels i)) = 1"

lemma backlog_triaged:
  "list_all (\<lambda>i. one_label ''size: '' i \<and> one_label ''priority: '' i \<and>
     (''v2.0-gate'' \<in> set (iss_labels i) \<longrightarrow> iss_milestone i \<in> {''v1.8.0'', ''v1.9.0''})) ISSUES"
  by (simp only: ISSUES_def issue_defs one_label_def list.pred_inject issue.simps) code_simp

subsection \<open>References of the evaluation cases\<close>

definition BACKTICK_SPAN :: rx where
  "BACKTICK_SPAN = RCat [RLit ''`'', RGroup 1 (RPlus (RChar (\<lambda>c. c \<noteq> CHR ''`''))), RLit ''`'']"

definition FILE_LIKE :: rx where
  "FILE_LIKE = RCat [RTextBegin, RPlus (RChar (\<lambda>c. is_word c \<or> c \<in> set ''./-'')), RLit ''.'',
     RGroup 1 (RAlt (RLit ''py'') (RAlt (RLit ''json'') (RAlt (RLit ''md'') (RAlt (RLit ''yml'') (RLit ''yaml''))))), RTextEnd]"

definition skip_dirs :: "string list" where
  "skip_dirs = [''.git'', ''.venv'', ''venv'', ''node_modules'', ''.claude'', ''.mypy_cache'', ''.ruff_cache'']"

text \<open>The files are given by the parts of their paths.\<close>

definition repo_files :: "string list list \<Rightarrow> string list list" where
  "repo_files tree = filter (\<lambda>parts. list_all (\<lambda>part. part \<notin> set skip_dirs) (butlast parts)) tree"

definition file_reference_exists :: "(string \<Rightarrow> bool) \<Rightarrow> string \<Rightarrow> string list list \<Rightarrow> bool" where
  "file_reference_exists is_file ref files =
     (if contains ref ''/'' then is_file ref \<or>
        list_ex (\<lambda>parts. suffix (''/'' @ ref) (map (\<lambda>c. if c = CHR 0x5C then CHR ''/'' else c) (join_str ''/'' parts))) files
      else list_ex (\<lambda>parts. last parts = ref) files)"

definition backtick_spans :: "string \<Rightarrow> string list" where
  "backtick_spans text = List.map_filter (\<lambda>(i, gs). rx_group gs 1) (finditer BACKTICK_SPAN None 0 text)"

text \<open>The references of one text that look like a file and name none; \<open>seen\<close> holds those already checked.\<close>

fun dead_references :: "(string \<Rightarrow> bool) \<Rightarrow> string list list \<Rightarrow> string list \<Rightarrow> string list \<Rightarrow> string list" where
  "dead_references is_file files seen [] = []"
| "dead_references is_file files seen (ref # refs) =
     (if ref \<in> set seen \<or> re_match FILE_LIKE ref = None then dead_references is_file files seen refs
      else (if file_reference_exists is_file ref files then [] else [ref])
        @ dead_references is_file files (ref # seen) refs)"

definition case_text :: "pyval \<Rightarrow> exn + string" where
  "case_text c = bindE (py_get c ''prompt'' (PStr [])) (\<lambda>p. bindE (py_get c ''expectation'' (PStr [])) (\<lambda>e.
     Inr (py_str p @ '' '' @ py_str e)))"

text \<open>\<open>None\<close> stands for a missing evaluation file.\<close>

definition refs_main :: "(string \<Rightarrow> bool) \<Rightarrow> string list list \<Rightarrow> (exn + pyval) option \<Rightarrow> exn + nat" where
  "refs_main is_file tree eval_file = (case eval_file of
     None \<Rightarrow> Inr 1
   | Some content \<Rightarrow>
       bindE content (\<lambda>data.
       bindE (py_get data ''cases'' (PList [])) (\<lambda>cases.
       bindE (py_iter cases) (\<lambda>cs.
       bindE (mapE case_text cs) (\<lambda>texts.
       Inr (if list_all (\<lambda>t. dead_references is_file (repo_files tree) [] (backtick_spans t) = []) texts then 0 else 1))))))"

lemma dead_references_set:
  "set (dead_references is_file files seen refs)
    = {ref \<in> set refs. ref \<notin> set seen \<and> re_match FILE_LIKE ref \<noteq> None \<and> \<not> file_reference_exists is_file ref files}"
  by (induction refs arbitrary: seen) auto

text \<open>The check succeeds exactly when every reference of every case that looks like a file names one.\<close>

theorem refs_main_ok:
  "refs_main is_file tree (Some (Inr (PDict [(''cases'', PList cs)]))) = Inr 0 \<longleftrightarrow>
     (\<exists>texts. mapE case_text cs = Inr texts \<and> list_all (\<lambda>t. list_all (\<lambda>ref.
        re_match FILE_LIKE ref = None \<or> file_reference_exists is_file ref (repo_files tree)) (backtick_spans t)) texts)"
proof -
  have "dead_references is_file files [] refs = [] \<longleftrightarrow>
      list_all (\<lambda>ref. re_match FILE_LIKE ref = None \<or> file_reference_exists is_file ref files) refs" for files refs
    using dead_references_set [of is_file files "[]" refs] by (auto simp: list_all_iff simp flip: set_empty)
  then show ?thesis by (auto simp: refs_main_def bindE_eq_Inr split: if_splits)
qed

subsection \<open>Translations, lint and type checks\<close>

text \<open>The two files by their bytes, \<open>None\<close> for a missing one.\<close>

definition translations_main :: "nat list option \<Rightarrow> nat list option \<Rightarrow> nat" where
  "translations_main strings en = (case (strings, en) of
      (None, _) \<Rightarrow> 1 | (Some a, None) \<Rightarrow> 1 | (Some a, Some b) \<Rightarrow> if a \<noteq> b then 1 else 0)"

text \<open>The steps of \<^verbatim>\<open>run_lint.py\<close> and \<^verbatim>\<open>run_typecheck.py\<close>: \<open>command\<close> gives the exit code, and the first
  failing step ends the run with its code. The python interpreter is left out of the commands.\<close>

fun run_steps :: "(string list \<Rightarrow> int) \<Rightarrow> string list list \<Rightarrow> int" where
  "run_steps command [] = 0"
| "run_steps command (step # steps) = (if command step \<noteq> 0 then command step else run_steps command steps)"

definition lint_main :: "(string list \<Rightarrow> int) \<Rightarrow> int" where
  "lint_main command = run_steps command
     [[''-m'', ''ruff'', ''check'', ''custom_components/'', ''tests/''],
      [''-m'', ''ruff'', ''format'', ''--check'', ''custom_components/'', ''tests/'']]"

definition typecheck_main :: "(string list \<Rightarrow> int) \<Rightarrow> int" where
  "typecheck_main command = run_steps command
     [[''-m'', ''mypy'', ''custom_components/unifi_alerts'', ''--ignore-missing-imports'']]"

lemma run_steps_ok: "run_steps command steps = 0 \<longleftrightarrow> list_all (\<lambda>step. command step = 0) steps"
  by (induction steps) auto

subsection \<open>The console helper\<close>

text \<open>A stream of the process; \<open>ts_reconfigurable\<close> is whether it has a \<^verbatim>\<open>reconfigure\<close> method.\<close>

record text_stream =
  ts_reconfigurable :: bool
  ts_encoding :: string
  ts_errors :: string

definition reconfigure :: "string \<Rightarrow> string \<Rightarrow> text_stream \<Rightarrow> text_stream" where
  "reconfigure encoding errors st =
     (if ts_reconfigurable st then st\<lparr> ts_encoding := encoding, ts_errors := errors \<rparr> else st)"

definition use_utf8_console :: "text_stream \<times> text_stream \<Rightarrow> text_stream \<times> text_stream" where
  "use_utf8_console streams = (case streams of (stdout, stderr) \<Rightarrow>
     (reconfigure ''utf-8'' ''replace'' stdout, reconfigure ''utf-8'' ''replace'' stderr))"

text \<open>Writing a text, given by its code points, raises when the error handler is \<^verbatim>\<open>strict\<close> and the codec of
  the stream lacks one of them; \<open>encodable\<close> says what a codec has.\<close>

definition write_raises :: "(string \<Rightarrow> nat \<Rightarrow> bool) \<Rightarrow> text_stream \<Rightarrow> nat list \<Rightarrow> bool" where
  "write_raises encodable st text \<longleftrightarrow> ts_errors st = ''strict'' \<and> \<not> list_all (encodable (ts_encoding st)) text"

text \<open>After the helper no text makes a stream that can be reconfigured raise, whatever console it started with;
  calling it again, as every script that imports another does, changes nothing; a stream that was replaced by
  something else is left as it was.\<close>

lemma console_writes:
  "use_utf8_console (stdout, stderr) = (o', e') \<Longrightarrow> ts_reconfigurable stdout \<Longrightarrow> ts_reconfigurable stderr \<Longrightarrow>
     \<not> write_raises encodable o' text \<and> \<not> write_raises encodable e' text"
  by (auto simp: use_utf8_console_def reconfigure_def write_raises_def)

lemma console_idempotent: "use_utf8_console (use_utf8_console streams) = use_utf8_console streams"
  by (cases streams) (simp add: use_utf8_console_def reconfigure_def)

lemma console_replaced: "\<not> ts_reconfigurable st \<Longrightarrow> reconfigure encoding errors st = st"
  by (simp add: reconfigure_def)

text \<open>The success mark U+2705 on a Windows console of code page 1252.\<close>

lemma console_needed:
  assumes "\<not> encodable ''cp1252'' 0x2705"
  shows "write_raises encodable \<lparr> ts_reconfigurable = True, ts_encoding = ''cp1252'', ts_errors = ''strict'' \<rparr> [0x2705]"
  using assms by (simp add: write_raises_def)

end
