(* ===== verification/Spec2Isabelle.thy ===== *)
theory Spec2Isabelle
  imports FlowEntryProps Panel Restart SystemProps EntityAttrs Hacs DocCheck EvalHarness RepoScripts
begin

text \<open>
  \<^bold>\<open>Verification of the UniFi Alerts integration for Home Assistant.\<close>

  The program (\<^verbatim>\<open>custom_components/unifi_alerts/\<close>) watches a UniFi controller for alerts in seven
  categories. Alerts arrive on two ways. A \<^emph>\<open>poll\<close> (\<^verbatim>\<open>coordinator.py\<close>) asks the controller over
  HTTP (\<^verbatim>\<open>unifi_client.py\<close>, \<^verbatim>\<open>unifi_auth.py\<close>) for its alarms, from the v2 system log where it
  exists and from the legacy alarm endpoint otherwise, files each under a category (\<^verbatim>\<open>const.py\<close>),
  weighs its severity (\<^verbatim>\<open>severity.py\<close>) and counts those newer than the watermark of the last clear.
  A \<^emph>\<open>webhook\<close> (\<^verbatim>\<open>webhook_handler.py\<close>) receives one alert the controller pushes, authenticates
  it and hands it to the coordinator. Both turn raw payloads into \<^verbatim>\<open>UniFiAlert\<close> objects and update the
  \<^verbatim>\<open>CategoryState\<close> of the category (\<^verbatim>\<open>models.py\<close>). An alerting category has a background timer that
  clears it. Entities (\<^verbatim>\<open>binary_sensor.py\<close>, \<^verbatim>\<open>sensor.py\<close>, \<^verbatim>\<open>event.py\<close>, \<^verbatim>\<open>button.py\<close>) show the
  coordinator, two services (\<^verbatim>\<open>services.py\<close>) and the buttons clear it, \<^verbatim>\<open>__init__.py\<close> migrates, sets
  up and unloads an entry, and \<^verbatim>\<open>config_flow.py\<close> creates and changes entries. Beside it the repository
  holds the scripts of its release and quality process (\<^verbatim>\<open>scripts/\<close>).

  \<^bold>\<open>Theories and what they model.\<close> A theory of definitions follows the code; its properties stand in it
  or in the theory with the suffix \<open>Props\<close>.
  \<^item> \<open>PyBase\<close>, \<open>PyTime\<close> (prelude): JSON values, text, ordered dictionaries, exceptions as the left
    of a sum, datetimes with offsets; the locales \<open>ordered_dict\<close>, \<open>codec\<close> (an encoder with its
    decoder) and \<open>event_machine\<close> (a step function with an invariant, lifted to runs).
  \<^item> \<open>Const\<close>, \<open>EventKeys\<close>: \<^verbatim>\<open>const.py\<close>, with \<^verbatim>\<open>classify_event_key\<close> and the webhook identifiers.
  \<^item> \<open>Severity\<close>: \<^verbatim>\<open>severity.py\<close>; the locale \<open>severity_gate\<close> states what a gate needs of the
    normaliser.
  \<^item> \<open>Models\<close>: \<^verbatim>\<open>models.py\<close>; the constructors with the exceptions they let out, the stored form,
    the operations of a category.
  \<^item> \<open>Http\<close>, \<open>Client\<close>, \<open>ClientProps\<close>: \<^verbatim>\<open>unifi_auth.py\<close> and \<^verbatim>\<open>unifi_client.py\<close>. The record
    \<open>client\<close> has a field per attribute and the requests sent so far; each method is an action on it.
  \<^item> \<open>Coordinator\<close>: \<^verbatim>\<open>coordinator.py\<close>. The record \<open>coord\<close> has a field per attribute, the background
    tasks by number and the effects on Home Assistant. A coroutine is split where it sleeps or saves, so
    the events \<open>Poll\<close>, \<open>Push\<close>, \<open>ClearCategory\<close>, \<open>ClearAll\<close>, \<open>Wake\<close> and \<open>SaveDone\<close> interleave freely.
    \<open>CoordInv\<close> shows that every event keeps the invariant \<open>coord_ok\<close> and defines the reachable states;
    \<open>CoordProps\<close>, \<open>PushProps\<close> and \<open>PollProps\<close> show what polls, pushes, clears, timers, the stored
    watermarks and the probe do. \<open>Panel\<close> is the abstract specification, an alarm panel with a lamp, a
    counter and a deadline per category, and the simulation that relates the two (locale \<open>simulation\<close>).
    \<open>Restart\<close> joins two lives of a coordinator: what a clear hands to the store, read back after a restart.
  \<^item> \<open>Webhook\<close>, \<open>WebhookProps\<close>: \<^verbatim>\<open>webhook_handler.py\<close>.
  \<^item> \<open>Entities\<close>, \<open>EntityAttrs\<close>, \<open>EntityProps\<close>: the entity platforms (what an entity shows and does; what its
    class declares to Home Assistant) and \<^verbatim>\<open>diagnostics.py\<close>.
  \<^item> \<open>Setup\<close>, \<open>SetupProps\<close>: \<^verbatim>\<open>__init__.py\<close> and \<^verbatim>\<open>services.py\<close>. A service handler clears the targeted
    coordinators one after another and stops at the first whose save fails.
  \<^item> \<open>System\<close>, \<open>SystemInv\<close>, \<open>SystemProps\<close>: the composition. The record \<open>system\<close> holds the installed entries
    with their coordinators and event entities, the webhook registry, the services and the events fired; a
    step takes one input from outside (setup, unload, options update, removal, a coordinator event, a button,
    a service call, a webhook request) and runs the handlers the code registers for it. The second theory
    shows that every input keeps \<open>system_ok\<close> and the balance of events and alerts, and interprets
    \<open>event_machine\<close> with that; the third states what follows for runs.
  \<^item> \<open>ConfigFlow\<close>, \<open>FlowProps\<close>, \<open>FlowEntryProps\<close>: \<^verbatim>\<open>config_flow.py\<close>.
  \<^item> \<open>PyRegex\<close> (prelude of the scripts): Python's regular expressions as a backtracking matcher that
    yields every way to match in the order of \<^verbatim>\<open>re\<close>, with groups, searches and iteration; splitting
    of lines and words, replacement.
  \<^item> \<open>Release\<close>, \<open>ReleaseProps\<close>: \<^verbatim>\<open>bump_version.py\<close>. Versions and their three successors, the
    rewriting of the change log, and the run: a record \<open>session\<close> with the world git works on and the log
    of commands and writes. \<open>Hacs\<close>: \<^verbatim>\<open>validate_hacs.py\<close>, and that a release keeps a valid manifest
    valid.
  \<^item> \<open>MakeRules\<close>, \<open>DocCheck\<close>: \<^verbatim>\<open>validate_docs.py\<close>; the first holds the reading of the Makefile
    and the memoised depth-first search of what a target runs, the second all scans.
  \<^item> \<open>EvalHarness\<close>: \<^verbatim>\<open>run_agentrc_eval.py\<close> and \<^verbatim>\<open>run_agentrc_eval_cross_model.py\<close>.
  \<^item> \<open>Backlog\<close>, \<open>RepoScripts\<close>: \<^verbatim>\<open>seed_issues.py\<close> (its issues in the first), \<^verbatim>\<open>check_agentrc_refs.py\<close>,
    \<^verbatim>\<open>check_translations.py\<close>, \<^verbatim>\<open>run_lint.py\<close>, \<^verbatim>\<open>run_typecheck.py\<close>, \<^verbatim>\<open>_console.py\<close>.

  \<^bold>\<open>What the properties show.\<close> The claims are numbered C1, C2, ... by importance. Timers: an alerting
  category always has exactly one timer, which will clear it (C1, C2, C8); what users see changes only by
  the actions of the panel (C3). The whole system: over any run of all entries the webhooks, services and
  coordinators stay consistent, an accepted request reaches the sensors and the event of its category and
  nothing else, events are fired exactly as often as alerts are counted, and a reload keeps the webhooks
  (C4-C6, C19). Pushes, polls and clears account for alerts exactly, also across a restart (C7, C9-C12,
  C16, C34). Requests are authenticated in both directions (C13, C27, C28). Flows and setup: entries stay
  distinct and loadable, errors become form errors, a failed setup releases what it took, migrations reach
  the current version (C14, C15, C17, C18, C20, C21, C33, C36, C37). The client, the probe, the diagnostics
  and the services: C24-C26, C35, C38, C39. The scripts: a release run writes only on its bump branch, and
  the next version, the change log and the manifest are right (C22, C23, C31, C32); the search through the
  Makefile returns and is exact where prerequisites have no cycle (C29, C30); the seeding of the backlog
  creates what is missing (C40). Many further theorems (round trips, windows, exceptions, the identity of
  entities, the grading of cases, pruning) stand in the \<open>Props\<close> theories without a number.

  \<^bold>\<open>Bounds and termination.\<close> Every definition but one is a total function. Loops of the code are
  structural recursions over the list they traverse; the paging loop runs over the list of the ten page
  numbers (\<^verbatim>\<open>MAX_SYSTEM_LOG_PAGES\<close>) the code allows, so no fuel is chosen. The matcher of regular
  expressions terminates by the length of the text and the size of the expression. The exception is
  \<open>resolve_each\<close>, the search through the Makefile, a partial function whose result is an option; C29 shows
  that it always returns. Python's integers are \<open>int\<close> (\<open>nat\<close> where the code only counts): the program has
  no fixed-width arithmetic.

  \<^bold>\<open>Parameters\<close> stand for what is not in the repository: the network (a function of the requests sent so
  far and the request, so a controller may answer differently every time), the JSON decoder of a webhook
  body, the registry of webhooks, the duplicate check of unique ids, the scheme and host name of a URL,
  the random tokens, the redaction of diagnostics, how the first refresh wraps an exception, and the host
  clock; for the scripts git, the GitHub command line, the tools they run, the files of the repository,
  the services of the models and the environment. What is assumed of them is a named definition (\<open>tame\<close>,
  \<open>registry_ok\<close>, \<open>redacts\<close>, ...) and each property with such a hypothesis has a witness on a concrete
  instance. Nothing is assumed of git, of the GitHub command line or of the models.

  In the system a service call is one step, the save of an entry that has been unloaded is dropped, and the
  coordinator a failed setup leaves behind is not part of it.

  \<^bold>\<open>Not modelled.\<close> Log and progress messages; the messages of the argument parsers; how the background
  task of a timer is created and its exception logged (\<^verbatim>\<open>_run_background\<close>: only that it runs is used);
  characters above 255 in texts, but for the em dashes of the backlog; the basic and week-date formats of
  \<^verbatim>\<open>fromisoformat\<close>.
\<close>

end
